(* ===== verification/Prelude.thy ===== *)
theory Prelude
  imports Main "HOL-Library.Word"
begin

text \<open>
  Shared vocabulary of the development: the integer widths of the X protocol headers, counted
  byte arrays, C strings, the errors a C function can run into, and generic lemmas about
  first-match search in lists.

  A C string is a char list without its terminating NUL; a counted array (the struct
  \<open>ARRAY8\<close>, a 16-bit length and a data pointer) is the list of its bytes.  Reading through
  the list's end is what reading the terminator (strings) or past the bounds (arrays) is in C,
  and the definitions say which of the two each access is.
\<close>

unbundle bit_operations_syntax

section \<open>Integer widths and counted arrays\<close>

type_synonym CARD8 = "8 word"
type_synonym CARD16 = "16 word"
type_synonym CARD32 = "32 word"

type_synonym ARRAY8 = "CARD8 list"
type_synonym ARRAY16 = "CARD16 list"
type_synonym ARRAYofARRAY8 = "ARRAY8 list"

text \<open>What the code can do wrong, as values: the branches that are undefined behaviour in C,
  and a wait that never ends.\<close>

datatype c_error =
    UseAfterFree
  | OutOfBounds
  | NullDeref
  | WrongUnionField
  | NoReturn
  | BadFree
  | DivideByZero

text \<open>Sequencing of computations that may stop at such an error.\<close>

primrec bindE :: "'e + 'a \<Rightarrow> ('a \<Rightarrow> 'e + 'b) \<Rightarrow> 'e + 'b" where
  "bindE (Inl e) f = Inl e"
| "bindE (Inr x) f = f x"

definition mapE :: "('a \<Rightarrow> 'b) \<Rightarrow> 'e + 'a \<Rightarrow> 'e + 'b" where
  "mapE f m = bindE m (\<lambda>x. Inr (f x))"

lemma mapE_simps [simp]: "mapE f (Inl e) = Inl e" "mapE f (Inr x) = Inr (f x)"
  by (simp_all add: mapE_def)

lemma bindE_Inr_iff: "bindE m f = Inr y \<longleftrightarrow> (\<exists>x. m = Inr x \<and> f x = Inr y)"
  by (cases m) auto

lemma mapE_Inr_iff: "mapE f m = Inr y \<longleftrightarrow> (\<exists>x. m = Inr x \<and> y = f x)"
  by (cases m) auto

lemma bindE_Inr_right: "bindE m Inr = m"
  by (cases m) auto

lemma bindE_assoc: "bindE (bindE m f) g = bindE m (\<lambda>x. bindE (f x) g)"
  by (cases m) auto

section \<open>Named collections of facts\<close>

named_theorems frame_simps \<open>fields an operation leaves unchanged\<close>
named_theorems step_defs \<open>definitions of single operations, unfolded in case analyses\<close>

section \<open>First match in a list\<close>

text \<open>A linked list that is walked from its head until a node satisfies a test.\<close>

primrec find_first :: "('a \<Rightarrow> bool) \<Rightarrow> 'a list \<Rightarrow> 'a option" where
  "find_first P [] = None"
| "find_first P (x # xs) = (if P x then Some x else find_first P xs)"

text \<open>Unlinking the first node that satisfies a test, as a walk with a previous pointer does.\<close>

primrec remove_first :: "('a \<Rightarrow> bool) \<Rightarrow> 'a list \<Rightarrow> 'a list" where
  "remove_first P [] = []"
| "remove_first P (x # xs) = (if P x then xs else x # remove_first P xs)"

text \<open>Overwriting the first node that satisfies a test, in place.\<close>

primrec update_first :: "('a \<Rightarrow> bool) \<Rightarrow> ('a \<Rightarrow> 'a) \<Rightarrow> 'a list \<Rightarrow> 'a list" where
  "update_first P f [] = []"
| "update_first P f (x # xs) = (if P x then f x # xs else x # update_first P f xs)"

lemma find_first_SomeD: "find_first P xs = Some x \<Longrightarrow> x \<in> set xs \<and> P x"
  by (induction xs) (auto split: if_splits)

lemma find_first_None_iff: "find_first P xs = None \<longleftrightarrow> (\<forall>x \<in> set xs. \<not> P x)"
  by (induction xs) auto

lemma find_first_eq_find: "find_first P xs = List.find P xs"
  by (induction xs) auto

lemma find_first_append:
  "find_first P (xs @ ys) = (case find_first P xs of None \<Rightarrow> find_first P ys | Some x \<Rightarrow> Some x)"
  by (induction xs) auto

lemma find_first_cong:
  "(\<And>x. x \<in> set xs \<Longrightarrow> P x = Q x) \<Longrightarrow> find_first P xs = find_first Q xs"
  by (induction xs) auto

lemma set_remove_first_subset: "set (remove_first P xs) \<subseteq> set xs"
  by (induction xs) auto

lemma remove_first_idle: "(\<And>x. x \<in> set xs \<Longrightarrow> \<not> P x) \<Longrightarrow> remove_first P xs = xs"
  by (induction xs) auto

lemma remove_first_eq_filter:
  "distinct (map f xs) \<Longrightarrow> remove_first (\<lambda>x. f x = k) xs = filter (\<lambda>x. f x \<noteq> k) xs"
  by (induction xs) (auto simp: image_iff filter_id_conv intro!: filter_True [symmetric])

lemma find_first_remove_other:
  "(\<And>x. x \<in> set xs \<Longrightarrow> P x \<Longrightarrow> \<not> Q x) \<Longrightarrow>
    find_first Q (remove_first P xs) = find_first Q xs"
  by (induction xs) auto

lemma distinct_map_remove_first: "distinct (map f xs) \<Longrightarrow> distinct (map f (remove_first P xs))"
proof (induction xs)
  case Nil
  then show ?case by simp
next
  case (Cons x xs)
  then have "f x \<notin> f ` set (remove_first P xs)"
    using set_remove_first_subset [of P xs] by auto
  with Cons show ?case by simp
qed

lemma map_update_first:
  "(\<And>x. f (g x) = f x) \<Longrightarrow> map f (update_first P g xs) = map f xs"
  by (induction xs) auto

lemma length_update_first: "length (update_first P f xs) = length xs"
  by (induction xs) auto

lemma length_remove_first_le: "length (remove_first P xs) \<le> length xs"
  by (induction xs) auto

lemma set_update_first_cases:
  "y \<in> set (update_first P f xs) \<Longrightarrow> y \<in> set xs \<or> (\<exists>x \<in> set xs. P x \<and> y = f x)"
  by (induction xs) (auto split: if_splits)

section \<open>C strings and bytes\<close>

definition NUL :: char where
  "NUL = CHR 0x00"

definition c_string :: "string \<Rightarrow> bool" where
  "c_string s \<longleftrightarrow> NUL \<notin> set s"

text \<open>The string a buffer holds: everything before its first NUL.\<close>

definition cstr :: "string \<Rightarrow> string" where
  "cstr s = takeWhile (\<lambda>c. c \<noteq> NUL) s"

lemma cstr_id: "c_string s \<Longrightarrow> cstr s = s"
  by (auto simp: cstr_def c_string_def takeWhile_eq_all_conv)

lemma c_string_cstr: "c_string (cstr s)"
  by (auto simp: cstr_def c_string_def dest: set_takeWhileD)

lemma length_cstr_le: "length (cstr s) \<le> length s"
  by (simp add: cstr_def length_takeWhile_le)

text \<open>The bytes of a string literal used as the data of an \<open>ARRAY8\<close>.\<close>

definition bytes_of :: "string \<Rightarrow> ARRAY8" where
  "bytes_of s = map of_char s"

lemma length_bytes_of [simp]: "length (bytes_of s) = length s"
  by (simp add: bytes_of_def)

text \<open>Comparing the first character of a string, which may be its terminator.\<close>

definition first_is :: "char \<Rightarrow> string \<Rightarrow> bool" where
  "first_is c w \<longleftrightarrow> w \<noteq> [] \<and> hd w = c"

text \<open>\<open>isspace\<close> in the C locale.\<close>

definition isspace :: "char \<Rightarrow> bool" where
  "isspace c \<longleftrightarrow> c = CHR '' '' \<or> c = CHR 0x09 \<or> c = CHR 0x0A \<or> c = CHR 0x0B \<or>
     c = CHR 0x0C \<or> c = CHR 0x0D"

text \<open>\<open>isupper\<close> and \<open>tolower\<close> in the C locale, on the code of a character.\<close>

definition fold_case :: "char \<Rightarrow> char" where
  "fold_case c =
     (let n = (of_char c :: nat) in if 65 \<le> n \<and> n \<le> 90 then char_of (n + 32) else c)"

text \<open>\<open>strchr\<close> as a split: the part before the first occurrence and the part after it.\<close>

primrec strchr :: "string \<Rightarrow> char \<Rightarrow> (string \<times> string) option" where
  "strchr [] c = None"
| "strchr (x # xs) c =
     (if x = c then Some ([], xs)
      else case strchr xs c of None \<Rightarrow> None | Some (a, b) \<Rightarrow> Some (x # a, b))"

text \<open>\<open>strrchr\<close> as a split at the last occurrence.\<close>

definition strrchr :: "string \<Rightarrow> char \<Rightarrow> (string \<times> string) option" where
  "strrchr s c = (case strchr (rev s) c of
     None \<Rightarrow> None | Some (after, before) \<Rightarrow> Some (rev before, rev after))"

lemma strchr_SomeD: "strchr s c = Some (a, b) \<Longrightarrow> s = a @ c # b \<and> c \<notin> set a"
  by (induction s arbitrary: a) (auto split: if_splits option.splits prod.splits)

lemma strchr_None_iff: "strchr s c = None \<longleftrightarrow> c \<notin> set s"
  by (induction s) (auto split: option.splits)

lemma strchr_first: "c \<notin> set a \<Longrightarrow> strchr (a @ c # b) c = Some (a, b)"
  by (induction a) auto

lemma strrchr_last: "c \<notin> set b \<Longrightarrow> strrchr (a @ c # b) c = Some (a, b)"
  using strchr_first [of c "rev b" "rev a"] by (simp add: strrchr_def)

lemma strrchr_None_iff: "strrchr s c = None \<longleftrightarrow> c \<notin> set s"
  using strchr_None_iff [of "rev s" c] by (auto simp: strrchr_def split: option.splits prod.splits)

text \<open>Decimal digits of an unsigned number, as \<open>%d\<close>, \<open>%ld\<close> and \<open>%lu\<close> print it.\<close>

fun show_nat :: "nat \<Rightarrow> string" where
  "show_nat n = (if n < 10 then [char_of (48 + n)]
     else show_nat (n div 10) @ [char_of (48 + n mod 10)])"

declare show_nat.simps [simp del]

definition show_int :: "int \<Rightarrow> string" where
  "show_int i = (if i < 0 then CHR ''-'' # show_nat (nat (- i)) else show_nat (nat i))"

text \<open>The number a digit string denotes, and \<open>strtol\<close> in base ten on a 64-bit \<open>long\<close>: white
  space, a sign, the longest run of digits, saturating at the ends of the range.\<close>

definition is_digit :: "char \<Rightarrow> bool" where
  "is_digit c \<longleftrightarrow> 48 \<le> (of_char c :: nat) \<and> (of_char c :: nat) \<le> 57"

definition digits_value :: "string \<Rightarrow> int" where
  "digits_value ds = foldl (\<lambda>n d. 10 * n + (int (of_char d) - 48)) 0 ds"

definition strtol :: "string \<Rightarrow> int" where
  "strtol s =
     (let t = dropWhile isspace s;
          (neg, u) = (case t of
             [] \<Rightarrow> (False, [])
           | c # cs \<Rightarrow> if c = CHR ''-'' then (True, cs) else if c = CHR ''+'' then (False, cs) else (False, t));
          v = digits_value (takeWhile is_digit u)
      in if neg then max (- (2 ^ 63)) (- v) else min (2 ^ 63 - 1) v)"

text \<open>Assigning a \<open>long\<close> to an \<open>int\<close> keeps its low 32 bits.\<close>

definition to_int32 :: "int \<Rightarrow> int" where
  "to_int32 i = sint (word_of_int i :: 32 word)"

lemma to_int32_id: "- (2 ^ 31) \<le> i \<Longrightarrow> i < 2 ^ 31 \<Longrightarrow> to_int32 i = i"
  by (simp add: to_int32_def sint_sbintrunc' signed_take_bit_int_eq_self)

text \<open>\<open>snprintf\<close> into a buffer of n bytes keeps at most n - 1 characters.\<close>

definition snprintf_keep :: "nat \<Rightarrow> string \<Rightarrow> string" where
  "snprintf_keep n s = take (n - 1) s"

lemma snprintf_keep_short: "length s < n \<Longrightarrow> snprintf_keep n s = s"
  by (simp add: snprintf_keep_def)

lemma length_snprintf_keep: "0 < n \<Longrightarrow> length (snprintf_keep n s) < n"
  by (simp add: snprintf_keep_def)

section \<open>Lines\<close>

text \<open>\<open>fgets\<close> with a buffer of \<open>n\<close> bytes: up to \<open>n - 1\<close> characters, a newline being the
  last one taken; and the successive results until the end of the file.\<close>

definition fgets_len :: "nat \<Rightarrow> string \<Rightarrow> nat" where
  "fgets_len n s =
     (case strchr (take (n - 1) s) CHR 0x0A of
        Some (a, _) \<Rightarrow> Suc (length a) | None \<Rightarrow> length (take (n - 1) s))"

definition fgets1 :: "nat \<Rightarrow> string \<Rightarrow> string \<times> string" where
  "fgets1 n s = (take (fgets_len n s) s, drop (fgets_len n s) s)"

lemma fgets_len_pos: "1 < n \<Longrightarrow> s \<noteq> [] \<Longrightarrow> 0 < fgets_len n s"
  by (simp add: fgets_len_def split: option.split prod.split)

function fgets_lines :: "nat \<Rightarrow> string \<Rightarrow> string list" where
  "fgets_lines n s =
     (if n \<le> 1 \<or> s = [] then [] else (case fgets1 n s of (l, r) \<Rightarrow> l # fgets_lines n r))"
  by pat_completeness auto

termination
proof (relation "measure (\<lambda>(n, s). length s)", goal_cases)
  case (2 n s l r)
  then have "0 < fgets_len n s" by (intro fgets_len_pos) simp_all
  with 2 show ?case by (auto simp: fgets1_def)
qed simp

declare fgets_lines.simps [simp del]

lemma fgets1_append: "fgets1 n s = (l, r) \<Longrightarrow> s = l @ r"
  by (auto simp: fgets1_def)

lemma concat_fgets_lines: "1 < n \<Longrightarrow> concat (fgets_lines n s) = s"
proof (induction n s rule: fgets_lines.induct)
  case (1 n s)
  show ?case
  proof (cases "s = []")
    case True
    then show ?thesis by (simp add: fgets_lines.simps)
  next
    case False
    obtain l r where lr: "fgets1 n s = (l, r)" by (cases "fgets1 n s")
    with 1 False have "concat (fgets_lines n r) = r" by auto
    with lr False 1(2) fgets1_append [OF lr] show ?thesis
      unfolding fgets_lines.simps [of n s] by simp
  qed
qed

end
