(* ===== verification/Store.thy ===== *)
theory Store
  imports Prelude
begin

text \<open>
  Linked lists of heap nodes that other code holds pointers to: the lists of displays
  (\<open>xdm/dpylist.c\<close>) and of displays in the middle of the XDMCP handshake
  (\<open>xdm/protodpy.c\<close>).  A pointer is a number that is never used again once its node is
  freed, so following a dangling pointer is a lookup that finds nothing.  The locale
  \<open>node_list\<close> states what the list gives to its users; it is interpreted below.
\<close>

section \<open>Nodes\<close>

record 'a store =
  st_next :: nat
  st_nodes :: "(nat \<times> 'a) list"

definition st_empty :: "'a store" where
  "st_empty = \<lparr>st_next = 0, st_nodes = []\<rparr>"

definition st_get :: "'a store \<Rightarrow> nat \<Rightarrow> 'a option" where
  "st_get S p = map_of (st_nodes S) p"

text \<open>Writing through a pointer, linking a new node in front, unlinking and freeing one.\<close>

definition st_set :: "nat \<Rightarrow> 'a \<Rightarrow> 'a store \<Rightarrow> 'a store" where
  "st_set p x S = S\<lparr>st_nodes := map (\<lambda>(q, y). (q, if q = p then x else y)) (st_nodes S)\<rparr>"

definition st_new :: "'a \<Rightarrow> 'a store \<Rightarrow> nat \<times> 'a store" where
  "st_new x S = (st_next S, \<lparr>st_next = Suc (st_next S), st_nodes = (st_next S, x) # st_nodes S\<rparr>)"

definition st_del :: "nat \<Rightarrow> 'a store \<Rightarrow> 'a store" where
  "st_del p S = S\<lparr>st_nodes := remove_first (\<lambda>n. fst n = p) (st_nodes S)\<rparr>"

text \<open>The pointers in list order, and the first node that satisfies a test.\<close>

definition st_ptrs :: "'a store \<Rightarrow> nat list" where
  "st_ptrs S = map fst (st_nodes S)"

definition st_find :: "('a \<Rightarrow> bool) \<Rightarrow> 'a store \<Rightarrow> nat option" where
  "st_find P S = map_option fst (find_first (\<lambda>n. P (snd n)) (st_nodes S))"

definition st_ok :: "'a store \<Rightarrow> bool" where
  "st_ok S \<longleftrightarrow> distinct (st_ptrs S) \<and> (\<forall>p \<in> set (st_ptrs S). p < st_next S)"

definition deref :: "'a store \<Rightarrow> nat \<Rightarrow> c_error + 'a" where
  "deref S p = (case st_get S p of None \<Rightarrow> Inl UseAfterFree | Some x \<Rightarrow> Inr x)"

section \<open>Laws\<close>

lemma st_ok_empty: "st_ok st_empty"
  by (simp add: st_ok_def st_empty_def st_ptrs_def)

lemma st_ptrs_set [simp]: "st_ptrs (st_set p x S) = st_ptrs S"
  by (simp add: st_ptrs_def st_set_def split_def comp_def)

lemma st_ok_set: "st_ok S \<Longrightarrow> st_ok (st_set p x S)"
  by (simp add: st_ok_def) (simp add: st_set_def)

lemma st_next_set [simp]: "st_next (st_set p x S) = st_next S"
  by (simp add: st_set_def)

lemma map_of_set: "map_of (map (\<lambda>(q, y). (q, if q = p then x else y)) xs) r =
    (if r = p then map_option (\<lambda>_. x) (map_of xs r) else map_of xs r)"
  by (induction xs) auto

lemma st_get_set: "st_get (st_set p x S) r = (if r = p then map_option (\<lambda>_. x) (st_get S r) else st_get S r)"
  by (simp add: st_get_def st_set_def map_of_set)

lemma st_get_ptrs: "st_get S p \<noteq> None \<longleftrightarrow> p \<in> set (st_ptrs S)"
  by (simp add: st_get_def st_ptrs_def map_of_eq_None_iff)

lemma st_new_fresh: "st_ok S \<Longrightarrow> st_get S (st_next S) = None"
  using st_get_ptrs [of S "st_next S"] by (auto simp: st_ok_def)

lemma st_get_new: "st_get (snd (st_new x S)) r = (if r = st_next S then Some x else st_get S r)"
  by (simp add: st_get_def st_new_def)

lemma st_ok_new: "st_ok S \<Longrightarrow> st_ok (snd (st_new x S))"
  by (auto simp: st_ok_def st_new_def st_ptrs_def)

lemma map_of_remove_first:
  "distinct (map fst xs) \<Longrightarrow>
    map_of (remove_first (\<lambda>n. fst n = p) xs) r = (if r = p then None else map_of xs r)"
proof (induction xs)
  case (Cons n xs)
  show ?case
  proof (cases "fst n = p")
    case True
    with Cons.prems have "map_of xs p = None" by (simp add: map_of_eq_None_iff)
    with True show ?thesis by (cases n) auto
  next
    case False
    with Cons show ?thesis by (cases n) auto
  qed
qed simp

lemma st_get_del: "st_ok S \<Longrightarrow> st_get (st_del p S) r = (if r = p then None else st_get S r)"
  by (simp add: st_get_def st_del_def st_ok_def st_ptrs_def map_of_remove_first)

lemma st_ok_del: "st_ok S \<Longrightarrow> st_ok (st_del p S)"
  using set_remove_first_subset [of "\<lambda>n. fst n = p" "st_nodes S"]
  by (auto simp: st_ok_def st_del_def st_ptrs_def distinct_map_remove_first)

lemma st_ptrs_del: "st_ok S \<Longrightarrow> st_ptrs (st_del p S) = filter (\<lambda>q. q \<noteq> p) (st_ptrs S)"
  by (simp add: st_ok_def st_ptrs_def st_del_def remove_first_eq_filter filter_map comp_def)

lemma st_find_Some:
  assumes "st_ok S" "st_find P S = Some p"
  obtains x where "st_get S p = Some x" "P x"
proof -
  obtain x where f: "find_first (\<lambda>n. P (snd n)) (st_nodes S) = Some (p, x)"
    using assms(2) by (auto simp: st_find_def)
  from find_first_SomeD [OF f] assms(1) have "st_get S p = Some x" "P x"
    by (auto simp: st_get_def st_ok_def st_ptrs_def)
  then show thesis by (rule that)
qed

lemma st_find_None: "st_find P S = None \<Longrightarrow> st_get S p = Some x \<Longrightarrow> \<not> P x"
  by (fastforce simp: st_find_def find_first_None_iff st_get_def dest: map_of_SomeD)

lemma st_find_None_iff:
  assumes "st_ok S"
  shows "st_find P S = None \<longleftrightarrow> (\<forall>p x. st_get S p = Some x \<longrightarrow> \<not> P x)"
  using assms st_find_None [of P S] st_find_Some [OF assms, of P] by (metis not_None_eq)

lemma deref_Inr: "deref S p = Inr x \<longleftrightarrow> st_get S p = Some x"
  by (simp add: deref_def split: option.split)

section \<open>The interface\<close>

text \<open>What the users of the lists rely on: a partial map that writing, linking and freeing
  change at one pointer only, where a new pointer has never been handed out before.\<close>

definition all_nodes :: "('s \<Rightarrow> 'p \<Rightarrow> 'a option) \<Rightarrow> ('a \<Rightarrow> bool) \<Rightarrow> 's \<Rightarrow> bool" where
  "all_nodes get Q s \<longleftrightarrow> (\<forall>p x. get s p = Some x \<longrightarrow> Q x)"

locale node_list =
  fixes inv :: "'s \<Rightarrow> bool"
    and get :: "'s \<Rightarrow> 'p \<Rightarrow> 'a option"
    and put :: "'p \<Rightarrow> 'a \<Rightarrow> 's \<Rightarrow> 's"
    and new :: "'a \<Rightarrow> 's \<Rightarrow> 'p \<times> 's"
    and del :: "'p \<Rightarrow> 's \<Rightarrow> 's"
  assumes inv_put: "inv s \<Longrightarrow> inv (put p x s)"
    and inv_new: "inv s \<Longrightarrow> inv (snd (new x s))"
    and inv_del: "inv s \<Longrightarrow> inv (del p s)"
    and get_put: "inv s \<Longrightarrow> get (put p x s) q = (if q = p then map_option (\<lambda>_. x) (get s q) else get s q)"
    and get_new: "inv s \<Longrightarrow> get (snd (new x s)) q = (if q = fst (new x s) then Some x else get s q)"
    and new_fresh: "inv s \<Longrightarrow> get s (fst (new x s)) = None"
    and get_del: "inv s \<Longrightarrow> get (del p s) q = (if q = p then None else get s q)"
begin

text \<open>A property of every node survives an operation that establishes it for its own node.\<close>

lemma all_nodes_put: "inv s \<Longrightarrow> all_nodes get Q s \<Longrightarrow> Q x \<Longrightarrow> all_nodes get Q (put p x s)"
  by (auto simp: all_nodes_def get_put split: if_splits)

lemma all_nodes_new: "inv s \<Longrightarrow> all_nodes get Q s \<Longrightarrow> Q x \<Longrightarrow> all_nodes get Q (snd (new x s))"
  by (auto simp: all_nodes_def get_new split: if_splits)

lemma all_nodes_del: "inv s \<Longrightarrow> all_nodes get Q s \<Longrightarrow> all_nodes get Q (del p s)"
  by (auto simp: all_nodes_def get_del split: if_splits)

lemma put_then_del: "inv s \<Longrightarrow> get (del p (put p x s)) q = get (del p s) q"
  by (simp add: inv_put get_del get_put)

lemma new_then_del: "inv s \<Longrightarrow> get (del (fst (new x s)) (snd (new x s))) q = get s q"
  by (simp add: inv_new get_del get_new new_fresh)

end

interpretation nodes: node_list st_ok st_get st_set st_new st_del
proof unfold_locales
  fix s :: "'a store" and x :: 'a and q
  assume "st_ok s"
  then show "st_get s (fst (st_new x s)) = None" by (simp add: st_new_fresh st_new_def)
  show "st_get (snd (st_new x s)) q = (if q = fst (st_new x s) then Some x else st_get s q)"
    by (simp add: st_get_new) (simp add: st_new_def)
qed (simp_all add: st_ok_set st_ok_new st_ok_del st_get_set st_get_del)

end
