(* ===== verification/Netaddr.thy ===== *)
theory Netaddr
  imports Prelude
begin

text \<open>
  Socket addresses and their interpretation, \<open>xdm/netaddr.c\<close>, for a system with
  \<open>AF_UNIX\<close>, \<open>AF_INET\<close> and \<open>AF_INET6\<close> and without \<open>AF_CHAOS\<close>.  An
  \<open>XdmcpNetaddr\<close> is a \<open>sockaddr\<close>: its constructor stands for the family, its fields are
  the bytes of the port and of the address in network order.  \<open>SockOther\<close> is any family the
  file has no case for, \<open>AF_UNSPEC\<close> included.
\<close>

section \<open>Addresses\<close>

datatype sockaddr =
    SockIn (sin_port: "CARD8 list") (sin_addr: "CARD8 list")
  | SockIn6 (sin6_port: "CARD8 list") (sin6_addr: "CARD8 list") (sin6_scope: CARD32)
  | SockUn (sun_path: string)
  | SockOther (other_family: nat)

abbreviation (input) AF_UNSPEC :: nat where "AF_UNSPEC \<equiv> 0"
abbreviation (input) AF_UNIX :: nat where "AF_UNIX \<equiv> 1"
abbreviation (input) AF_INET :: nat where "AF_INET \<equiv> 2"
abbreviation (input) AF_INET6 :: nat where "AF_INET6 \<equiv> 10"

text \<open>The X protocol's host families (\<open>X11/X.h\<close>, \<open>X11/Xauth.h\<close>), at whatever type
  a family is kept in.\<close>

abbreviation (input) FamilyInternet :: "'a::zero" where "FamilyInternet \<equiv> 0"
abbreviation (input) FamilyInternet6 :: "'a::numeral" where "FamilyInternet6 \<equiv> 6"
abbreviation (input) FamilyLocalHost :: "'a::numeral" where "FamilyLocalHost \<equiv> 252"
abbreviation (input) FamilyLocal :: "'a::numeral" where "FamilyLocal \<equiv> 256"
abbreviation (input) FamilyWild :: "'a::numeral" where "FamilyWild \<equiv> 65535"

text \<open>The sizes the kernel gives an address, and a family that really is another one.\<close>

fun wf_sockaddr :: "sockaddr \<Rightarrow> bool" where
  "wf_sockaddr (SockIn p a) \<longleftrightarrow> length p = 2 \<and> length a = 4"
| "wf_sockaddr (SockIn6 p a s) \<longleftrightarrow> length p = 2 \<and> length a = 16"
| "wf_sockaddr (SockUn path) \<longleftrightarrow> c_string path"
| "wf_sockaddr (SockOther f) \<longleftrightarrow> f \<notin> {AF_UNIX, AF_INET, AF_INET6}"

section \<open>Interpretation of an address\<close>

fun NetaddrFamily :: "sockaddr \<Rightarrow> nat" where
  "NetaddrFamily (SockIn p a) = AF_INET"
| "NetaddrFamily (SockIn6 p a s) = AF_INET6"
| "NetaddrFamily (SockUn path) = AF_UNIX"
| "NetaddrFamily (SockOther f) = f"

text \<open>A pointer to bytes, NULL as None, together with the length stored through \<open>lenp\<close>.\<close>

fun NetaddrPort :: "sockaddr \<Rightarrow> CARD8 list option \<times> nat" where
  "NetaddrPort (SockIn p a) = (Some p, 2)"
| "NetaddrPort (SockIn6 p a s) = (Some p, 2)"
| "NetaddrPort _ = (None, 0)"

definition v4mapped :: "CARD8 list \<Rightarrow> bool" where
  "v4mapped a \<longleftrightarrow> take 12 a = replicate 10 0 @ [0xFF, 0xFF]"

fun NetaddrAddress :: "sockaddr \<Rightarrow> CARD8 list option \<times> nat" where
  "NetaddrAddress (SockUn path) = (Some (bytes_of path), length path)"
| "NetaddrAddress (SockIn p a) = (Some a, 4)"
| "NetaddrAddress (SockIn6 p a s) = (if v4mapped a then (Some (drop 12 a), 4) else (Some a, 16))"
| "NetaddrAddress (SockOther f) = (None, 0)"

text \<open>The result is the X family or -1, the length stored through \<open>len\<close> and the address
  pointer; a NULL \<open>saddr\<close> stores nothing.\<close>

fun ConvertAddr :: "sockaddr option \<Rightarrow> int \<times> (nat \<times> CARD8 list option) option" where
  "ConvertAddr None = (-1, None)"
| "ConvertAddr (Some sa) =
     (let (addr, len) = NetaddrAddress sa;
          f = NetaddrFamily sa;
          retval =
            (if f = AF_UNSPEC then FamilyLocal
             else if f = AF_UNIX then FamilyLocal
             else if f = AF_INET then FamilyInternet
             else if f = AF_INET6 then (if len = 4 then FamilyInternet else FamilyInternet6)
             else -1)
      in (retval, Some (len, addr)))"

text \<open>\<open>memcmp\<close> over the first n bytes; NULL is only ever compared over zero bytes.\<close>

definition mem_differ :: "CARD8 list option \<Rightarrow> CARD8 list option \<Rightarrow> nat \<Rightarrow> bool" where
  "mem_differ p q n \<longleftrightarrow> n \<noteq> 0 \<and> map_option (take n) p \<noteq> map_option (take n) q"

definition addressEqual :: "sockaddr \<Rightarrow> int \<Rightarrow> sockaddr \<Rightarrow> int \<Rightarrow> bool" where
  "addressEqual a1 len1 a2 len2 =
     (if len1 \<noteq> len2 then False
      else if NetaddrFamily a1 \<noteq> NetaddrFamily a2 then False
      else
        (let (part1, partlen1) = NetaddrPort a1; (part2, partlen2) = NetaddrPort a2
         in if partlen1 \<noteq> partlen2 \<or> mem_differ part1 part2 partlen1 then False
            else
              (let (part1, partlen1) = NetaddrAddress a1; (part2, partlen2) = NetaddrAddress a2
               in if partlen1 \<noteq> partlen2 \<or> mem_differ part1 part2 partlen1 then False else True)))"

section \<open>What two addresses being equal means\<close>

lemma wf_port_bytes: "wf_sockaddr a \<Longrightarrow> NetaddrPort a = (Some p, n) \<Longrightarrow> length p = n"
  by (cases a) auto

lemma wf_address_bytes: "wf_sockaddr a \<Longrightarrow> NetaddrAddress a = (Some p, n) \<Longrightarrow> length p = n"
  by (cases a) (auto split: if_splits)

lemma null_part: "NetaddrPort a = (None, n) \<Longrightarrow> n = 0" "NetaddrAddress a = (None, n) \<Longrightarrow> n = 0"
  by (cases a; auto split: if_splits)+

text \<open>The bytes an address is compared by: scope identifiers and the spelling of a mapped
  IPv4 address play no part in it.\<close>

definition addr_key :: "sockaddr \<Rightarrow> nat \<times> CARD8 list option \<times> CARD8 list option" where
  "addr_key a = (NetaddrFamily a, fst (NetaddrPort a), fst (NetaddrAddress a))"

lemma addressEqual_key:
  assumes "wf_sockaddr a" "wf_sockaddr b"
  shows "addressEqual a l b m \<longleftrightarrow> l = m \<and> addr_key a = addr_key b"
  using assms
  by (cases a; cases b)
    (auto simp: addressEqual_def addr_key_def mem_differ_def Let_def bytes_of_def
      c_string_def inj_on_def dest: arg_cong [of _ _ length])

lemma addressEqual_refl: "wf_sockaddr a \<Longrightarrow> addressEqual a l a l"
  by (simp add: addressEqual_key)

lemma addressEqual_sym:
  "wf_sockaddr a \<Longrightarrow> wf_sockaddr b \<Longrightarrow> addressEqual a l b m \<Longrightarrow> addressEqual b m a l"
  by (simp add: addressEqual_key)

lemma addressEqual_trans:
  "\<lbrakk>wf_sockaddr a; wf_sockaddr b; wf_sockaddr c; addressEqual a l b m; addressEqual b m c n\<rbrakk>
    \<Longrightarrow> addressEqual a l c n"
  by (simp add: addressEqual_key)

text \<open>The family and the address agree about which sizes go together.\<close>

lemma ConvertAddr_size:
  assumes "wf_sockaddr sa" "ConvertAddr (Some sa) = (f, Some (n, Some bs))"
  shows "length bs = n" and "f = FamilyInternet \<Longrightarrow> n = 4" and "f = FamilyInternet6 \<Longrightarrow> n = 16"
  using assms by (cases sa; auto simp: Let_def split: if_splits)+

end
