(* ===== verification/Xdmcplib.thy ===== *)
theory Xdmcplib
  imports Prelude
begin

text \<open>
  The interfaces of libXau's records and of libXdmcp's packet buffers, which are not part of this repository.  Reading is
  a record of functions on an abstract buffer, so that nothing about the wire format is
  assumed where the code does not rely on it; every reader returns the value and the buffer
  with its position advanced, or None for the FALSE of a short packet.  Writing is recorded as
  the sequence of calls the code makes: the packets of the protocol are read off that trace.
\<close>

section \<open>Authorization records\<close>

text \<open>The \<open>Xauth\<close> structure of libXau: five fields, four of them counted byte arrays.\<close>

record Xauth =
  xa_family :: CARD16
  xa_address :: "CARD8 list"
  xa_number :: "CARD8 list"
  xa_name :: "CARD8 list"
  xa_data :: "CARD8 list"

section \<open>Reading\<close>

record 'b reader =
  r_buffer :: "CARD8 list \<Rightarrow> 'b"
  r_header :: "'b \<Rightarrow> ((CARD16 \<times> CARD16 \<times> CARD16) \<times> 'b) option"
  r_card8 :: "'b \<Rightarrow> (CARD8 \<times> 'b) option"
  r_card16 :: "'b \<Rightarrow> (CARD16 \<times> 'b) option"
  r_card32 :: "'b \<Rightarrow> (CARD32 \<times> 'b) option"
  r_array8 :: "'b \<Rightarrow> (ARRAY8 \<times> 'b) option"
  r_array16 :: "'b \<Rightarrow> (ARRAY16 \<times> 'b) option"
  r_arrayofarray8 :: "'b \<Rightarrow> (ARRAYofARRAY8 \<times> 'b) option"

section \<open>Writing\<close>

datatype xdm_write =
    WHeader CARD16 CARD16 CARD16
  | WCARD8 CARD8
  | WCARD16 CARD16
  | WCARD32 CARD32
  | WARRAY8 ARRAY8
  | WARRAYofARRAY8 ARRAYofARRAY8

text \<open>The size of each item on the wire, as the XDMCP specification gives it: big-endian
  cardinals, and counted arrays behind a 16-bit (for arrays of arrays 8-bit) count.\<close>

fun wire_size :: "xdm_write \<Rightarrow> nat" where
  "wire_size (WHeader v opc len) = 6"
| "wire_size (WCARD8 x) = 1"
| "wire_size (WCARD16 x) = 2"
| "wire_size (WCARD32 x) = 4"
| "wire_size (WARRAY8 a) = 2 + length a"
| "wire_size (WARRAYofARRAY8 as) = 1 + sum_list (map (\<lambda>a. 2 + length a) as)"

end
