(* ===== verification/Dpylist.thy ===== *)
theory Dpylist
  imports Store Netaddr Xdmcplib
begin

text \<open>
  The displays xdm manages: \<open>struct display\<close> of \<open>include/dm.h\<close> and the list of
  \<open>xdm/dpylist.c\<close>.  The resource fields of the structure are grouped in three records; every
  other field keeps its place.  A C int used as a truth value is a bool where the code only
  tests it.

  The state operations work on is a \<open>world\<close>: the list of displays and the trace of what was
  asked of the kernel (signals, files removed, packets sent), latest first.
\<close>

section \<open>The structure\<close>

datatype displayStatus = running | notRunning | zombie | phoenix
datatype fileState = NewEntry | OldEntry | MissingEntry
datatype display_location = Local | Foreign
datatype display_lifetime = Permanent | Transient
datatype display_origin = FromFile | FromXDMCP

record DisplayType =
  dt_location :: display_location
  dt_lifetime :: display_lifetime
  dt_origin :: display_origin

record server_resources =
  sr_serverAttempts :: int
  sr_openDelay :: int
  sr_openRepeat :: int
  sr_openTimeout :: int
  sr_startAttempts :: int
  sr_reservAttempts :: int
  sr_pingInterval :: int
  sr_pingTimeout :: int
  sr_terminateServer :: bool
  sr_grabServer :: bool
  sr_grabTimeout :: int
  sr_resetSignal :: int
  sr_termSignal :: int
  sr_resetForAuth :: bool

record session_resources =
  se_resources :: "string option"
  se_xrdb :: "string option"
  se_setup :: "string option"
  se_startup :: "string option"
  se_reset :: "string option"
  se_session :: "string option"
  se_userPath :: "string option"
  se_systemPath :: "string option"
  se_systemShell :: "string option"
  se_failsafeClient :: "string option"
  se_chooser :: "string option"
  se_greeter :: "string option"

record auth_resources =
  au_authorize :: bool
  au_authNames :: "string list option"
  au_clientAuthFile :: "string option"
  au_userAuthDir :: "string option"
  au_authComplain :: bool
  au_authNameNum :: int
  au_authorizations :: "Xauth list option"
  au_authNum :: nat
  au_authFile :: "string option"

record display =
  d_name :: string
  d_class :: "string option"
  d_displayType :: DisplayType
  d_argv :: "string list option"
  d_status :: displayStatus
  d_pid :: int
  d_serverPid :: int
  d_state :: fileState
  d_startTries :: int
  d_lastReserv :: int
  d_reservTries :: int
  d_sessionID :: CARD32
  d_peer :: "sockaddr option"
  d_peerlen :: int
  d_from :: "sockaddr option"
  d_fromlen :: int
  d_displayNumber :: CARD16
  d_useChooser :: bool
  d_clientAddr :: ARRAY8
  d_connectionType :: CARD16
  d_xdmcpFd :: int
  d_server :: server_resources
  d_session :: session_resources
  d_auth :: auth_resources
  d_windowPath :: "string option"

type_synonym displays = "display store"

datatype event =
    Unlink string
  | Kill int int
  | Fork int
  | Packet int sockaddr "xdm_write list"

record world =
  w_displays :: displays
  w_trace :: "event list"

definition emit :: "event \<Rightarrow> 'a world_scheme \<Rightarrow> 'a world_scheme" where
  "emit e w = w\<lparr>w_trace := e # w_trace w\<rparr>"

text \<open>Reading and writing through a display pointer.\<close>

definition get_display :: "nat \<Rightarrow> 'a world_scheme \<Rightarrow> c_error + display" where
  "get_display p w = deref (w_displays w) p"

definition put_display :: "nat \<Rightarrow> display \<Rightarrow> 'a world_scheme \<Rightarrow> 'a world_scheme" where
  "put_display p d w = w\<lparr>w_displays := st_set p d (w_displays w)\<rparr>"

section \<open>The list\<close>

definition AnyDisplaysLeft :: "displays \<Rightarrow> bool" where
  "AnyDisplaysLeft ds \<longleftrightarrow> st_nodes ds \<noteq> []"

text \<open>The successor is read before the callback runs, so the callback may remove the display
  it is given.\<close>

primrec for_ptrs :: "(nat \<Rightarrow> 'w \<Rightarrow> c_error + 'w) \<Rightarrow> nat list \<Rightarrow> 'w \<Rightarrow> c_error + 'w" where
  "for_ptrs f [] w = Inr w"
| "for_ptrs f (p # ps) w = bindE (f p w) (for_ptrs f ps)"

definition ForEachDisplay ::
    "(nat \<Rightarrow> 'a world_scheme \<Rightarrow> c_error + 'a world_scheme) \<Rightarrow> 'a world_scheme \<Rightarrow> c_error + 'a world_scheme" where
  "ForEachDisplay f w = for_ptrs f (st_ptrs (w_displays w)) w"

primrec until_ptrs ::
    "(nat \<Rightarrow> 'w \<Rightarrow> c_error + (bool \<times> 'w)) \<Rightarrow> nat list \<Rightarrow> 'w \<Rightarrow> c_error + (bool \<times> 'w)" where
  "until_ptrs f [] w = Inr (False, w)"
| "until_ptrs f (p # ps) w =
     bindE (f p w) (\<lambda>(stop, w'). if stop then Inr (True, w') else until_ptrs f ps w')"

definition UntilDisplay ::
    "(nat \<Rightarrow> 'a world_scheme \<Rightarrow> c_error + (bool \<times> 'a world_scheme)) \<Rightarrow> 'a world_scheme \<Rightarrow>
     c_error + (bool \<times> 'a world_scheme)" where
  "UntilDisplay f w = until_ptrs f (st_ptrs (w_displays w)) w"

definition FindDisplayByName :: "string \<Rightarrow> displays \<Rightarrow> nat option" where
  "FindDisplayByName name ds = st_find (\<lambda>d. name = d_name d) ds"

definition FindDisplayByPid :: "int \<Rightarrow> displays \<Rightarrow> nat option" where
  "FindDisplayByPid pid ds = st_find (\<lambda>d. pid = d_pid d) ds"

definition FindDisplayByServerPid :: "int \<Rightarrow> displays \<Rightarrow> nat option" where
  "FindDisplayByServerPid pid ds = st_find (\<lambda>d. pid = d_serverPid d) ds"

definition FindDisplayBySessionID :: "CARD32 \<Rightarrow> displays \<Rightarrow> nat option" where
  "FindDisplayBySessionID sessionID ds = st_find (\<lambda>d. sessionID = d_sessionID d) ds"

text \<open>A display from XDMCP always has its \<open>from\<close> address; without one the comparison would
  follow a NULL pointer, and counts as no match here.\<close>

definition address_match :: "sockaddr \<Rightarrow> int \<Rightarrow> CARD16 \<Rightarrow> display \<Rightarrow> bool" where
  "address_match addr addrlen displayNumber d \<longleftrightarrow>
     dt_origin (d_displayType d) = FromXDMCP \<and> d_displayNumber d = displayNumber \<and>
     (case d_from d of None \<Rightarrow> False | Some f \<Rightarrow> addressEqual f (d_fromlen d) addr addrlen)"

definition FindDisplayByAddress :: "sockaddr \<Rightarrow> int \<Rightarrow> CARD16 \<Rightarrow> displays \<Rightarrow> nat option" where
  "FindDisplayByAddress addr addrlen displayNumber ds =
     st_find (address_match addr addrlen displayNumber) ds"

definition RemoveDisplay :: "nat \<Rightarrow> 'a world_scheme \<Rightarrow> 'a world_scheme" where
  "RemoveDisplay p w =
     (case st_get (w_displays w) p of
        None \<Rightarrow> w
      | Some d \<Rightarrow>
          (let w' = (case au_authFile (d_auth d) of None \<Rightarrow> w | Some f \<Rightarrow> emit (Unlink f) w)
           in w'\<lparr>w_displays := st_del p (w_displays w')\<rparr>))"

definition new_display :: "string \<Rightarrow> string option \<Rightarrow> display" where
  "new_display name cls =
     \<lparr>d_name = name, d_class = cls,
      d_displayType = \<lparr>dt_location = Foreign, dt_lifetime = Transient, dt_origin = FromXDMCP\<rparr>,
      d_argv = None, d_status = notRunning, d_pid = -1, d_serverPid = -1, d_state = NewEntry,
      d_startTries = 0, d_lastReserv = 0, d_reservTries = 0, d_sessionID = 0, d_peer = None,
      d_peerlen = 0, d_from = None, d_fromlen = 0, d_displayNumber = 0, d_useChooser = False,
      d_clientAddr = [], d_connectionType = 0, d_xdmcpFd = -1,
      d_server = \<lparr>sr_serverAttempts = 0, sr_openDelay = 0, sr_openRepeat = 0, sr_openTimeout = 0,
        sr_startAttempts = 0, sr_reservAttempts = 0, sr_pingInterval = 0, sr_pingTimeout = 0,
        sr_terminateServer = False, sr_grabServer = False, sr_grabTimeout = 0, sr_resetSignal = 0,
        sr_termSignal = 0, sr_resetForAuth = False\<rparr>,
      d_session = \<lparr>se_resources = None, se_xrdb = None, se_setup = None, se_startup = None,
        se_reset = None, se_session = None, se_userPath = None, se_systemPath = None,
        se_systemShell = None, se_failsafeClient = None, se_chooser = None, se_greeter = None\<rparr>,
      d_auth = \<lparr>au_authorize = False, au_authNames = None, au_clientAuthFile = None,
        au_userAuthDir = None, au_authComplain = True, au_authNameNum = 0,
        au_authorizations = None, au_authNum = 0, au_authFile = None\<rparr>,
      d_windowPath = None\<rparr>"

text \<open>The name and the class are copied; \<open>mem\<close> says whether the allocations succeed.\<close>

definition NewDisplay ::
    "bool \<Rightarrow> string \<Rightarrow> string option \<Rightarrow> 'a world_scheme \<Rightarrow> nat option \<times> 'a world_scheme" where
  "NewDisplay mem name cls w =
     (if \<not> mem then (None, w)
      else (let (p, ds) = st_new (new_display name cls) (w_displays w)
            in (Some p, w\<lparr>w_displays := ds\<rparr>)))"

section \<open>Facts\<close>

lemma world_simps [simp]:
  "w_displays (emit e w) = w_displays w" "w_trace (emit e w) = e # w_trace w"
  "w_displays (put_display p d w) = st_set p d (w_displays w)"
  "w_trace (put_display p d w) = w_trace w"
  by (simp_all add: emit_def put_display_def)

lemma get_display_Inr: "get_display p w = Inr d \<longleftrightarrow> st_get (w_displays w) p = Some d"
  by (simp add: get_display_def deref_Inr)

lemma get_display_cases:
  obtains (live) d where "st_get (w_displays w) p = Some d" "get_display p w = Inr d"
  | (freed) "st_get (w_displays w) p = None" "get_display p w = Inl UseAfterFree"
  by (cases "st_get (w_displays w) p") (auto simp: get_display_def deref_def)

lemma RemoveDisplay_displays:
  "w_displays (RemoveDisplay p w) =
    (if st_get (w_displays w) p = None then w_displays w else st_del p (w_displays w))"
  by (auto simp: RemoveDisplay_def Let_def split: option.splits)

lemma RemoveDisplay_ok: "st_ok (w_displays w) \<Longrightarrow> st_ok (w_displays (RemoveDisplay p w))"
  by (simp add: RemoveDisplay_displays nodes.inv_del)

lemma RemoveDisplay_get:
  "st_ok (w_displays w) \<Longrightarrow>
    st_get (w_displays (RemoveDisplay p w)) q = (if q = p then None else st_get (w_displays w) q)"
  by (auto simp: RemoveDisplay_displays nodes.get_del)

text \<open>A walk with a callback that touches only its own display visits every display in the
  state it had before the walk.\<close>

lemma for_ptrs_each:
  assumes "\<And>p w. I w \<Longrightarrow> p \<in> A \<Longrightarrow> get w p \<noteq> None \<Longrightarrow>
      \<exists>w'. f p w = Inr w' \<and> I w' \<and> get w' p = g p (get w p) \<and> (\<forall>q. q \<noteq> p \<longrightarrow> get w' q = get w q)"
    and "I w" "distinct ps" "set ps \<subseteq> A" "\<forall>p \<in> set ps. get w p \<noteq> None"
  shows "\<exists>w'. for_ptrs f ps w = Inr w' \<and> I w' \<and>
    (\<forall>p. get w' p = (if p \<in> set ps then g p (get w p) else get w p))"
  using assms(2-)
proof (induction ps arbitrary: w)
  case (Cons p ps)
  then obtain w1 where w1: "f p w = Inr w1" "I w1" "get w1 p = g p (get w p)"
      "\<And>q. q \<noteq> p \<Longrightarrow> get w1 q = get w q"
    using assms(1) [of w p] by auto
  have "\<forall>q \<in> set ps. get w1 q \<noteq> None"
  proof
    fix q assume "q \<in> set ps"
    with Cons.prems have "q \<noteq> p" "get w q \<noteq> None" by auto
    with w1(4) [of q] show "get w1 q \<noteq> None" by simp
  qed
  with Cons.IH [of w1] Cons.prems w1(2) obtain w' where
    w': "for_ptrs f ps w1 = Inr w'" "I w'" "\<forall>q. get w' q = (if q \<in> set ps then g q (get w1 q) else get w1 q)"
    by auto
  have "get w' q = (if q \<in> set (p # ps) then g q (get w q) else get w q)" for q
    using w'(3) w1(3,4) Cons.prems(2) by (cases "q = p") auto
  with w1(1) w' show ?case by auto
qed auto

end
