(* ===== verification/Util.thy ===== *)
theory Util
  imports Prelude
begin

text \<open>
  The environment and argument-vector helpers of \<open>xdm/util.c\<close>: \<open>makeEnv\<close>, \<open>getEnv\<close>,
  \<open>setEnv\<close>, \<open>putEnv\<close> and \<open>parseArgs\<close>.  A NULL-terminated \<open>char **\<close> is a list of
  strings, and a \<open>char **\<close> that may be NULL is such a list or None.  The argument \<open>mem\<close> of
  an operation says whether its allocations succeed; when they do not, the operation returns
  what the code returns on that path.

  The locale \<open>environ\<close> is the interface the environment builders of \<open>session.c\<close> and
  \<open>verify.c\<close> rely on; it is interpreted on \<open>getEnv\<close> and \<open>setEnv\<close> below.
\<close>

section \<open>Environments\<close>

type_synonym env = "string list option"

definition makeEnv :: "string \<Rightarrow> string \<Rightarrow> string" where
  "makeEnv name v = name @ ''='' @ v"

text \<open>The test both loops make: the entry is longer than the name, starts with it, and the
  name is followed by an equals sign.\<close>

definition env_match :: "string \<Rightarrow> string \<Rightarrow> bool" where
  "env_match name s \<longleftrightarrow>
     length name < length s \<and> take (length name) s = name \<and> s ! length name = CHR ''=''"

definition getEnv :: "env \<Rightarrow> string \<Rightarrow> string option" where
  "getEnv e name =
     (case e of
        None \<Rightarrow> None
      | Some es \<Rightarrow> map_option (drop (length name + 1)) (find_first (env_match name) es))"

definition setEnv :: "bool \<Rightarrow> env \<Rightarrow> string \<Rightarrow> string \<Rightarrow> env" where
  "setEnv mem e name v =
     (if \<not> mem then e
      else case e of
             None \<Rightarrow> Some [makeEnv name v]
           | Some es \<Rightarrow>
               (if find_first (env_match name) es \<noteq> None
                then Some (update_first (env_match name) (\<lambda>_. makeEnv name v) es)
                else Some (es @ [makeEnv name v])))"

text \<open>\<open>mem\<close> is the allocation of the name, \<open>mem'\<close> those of \<open>setEnv\<close>.\<close>

definition putEnv :: "bool \<Rightarrow> bool \<Rightarrow> string \<Rightarrow> env \<Rightarrow> env" where
  "putEnv mem mem' s e =
     (case strchr s CHR ''='' of
        None \<Rightarrow> None
      | Some (n, v) \<Rightarrow> if mem then setEnv mem' e n v else None)"

text \<open>Names that can be environment variables: no equals sign.\<close>

definition env_name :: "string \<Rightarrow> bool" where
  "env_name n \<longleftrightarrow> CHR ''='' \<notin> set n"

lemma env_match_iff: "env_match n s \<longleftrightarrow> (\<exists>v. s = n @ CHR ''='' # v)"
proof
  assume "env_match n s"
  then have l: "length n < length s" and t: "take (length n) s = n" and i: "s ! length n = CHR ''=''"
    by (auto simp: env_match_def)
  from id_take_nth_drop [OF l] have "s = n @ CHR ''='' # drop (Suc (length n)) s"
    unfolding t i .
  then show "\<exists>v. s = n @ CHR ''='' # v" by metis
next
  assume "\<exists>v. s = n @ CHR ''='' # v"
  then show "env_match n s" by (auto simp: env_match_def)
qed

lemma env_match_makeEnv: "env_match n (makeEnv m v) \<longleftrightarrow> (\<exists>w. m @ CHR ''='' # v = n @ CHR ''='' # w)"
  by (simp add: env_match_iff makeEnv_def)

lemma eq_split_unique:
  "c \<notin> set a \<Longrightarrow> c \<notin> set b \<Longrightarrow> a @ c # x = b @ c # y \<longleftrightarrow> a = b \<and> x = y"
  by (auto simp: append_eq_append_conv2 Cons_eq_append_conv append_eq_Cons_conv)

lemma env_match_same [simp]: "env_match n (makeEnv n v)"
  by (auto simp: env_match_makeEnv)

lemma env_match_other:
  "env_name n \<Longrightarrow> env_name m \<Longrightarrow> n \<noteq> m \<Longrightarrow> \<not> env_match n (makeEnv m v)"
  by (auto simp: env_match_makeEnv env_name_def eq_split_unique)

lemma drop_makeEnv [simp]: "drop (Suc (length n)) (makeEnv n v) = v"
  by (simp add: makeEnv_def)

lemma env_match_two_names:
  "env_name n \<Longrightarrow> env_name m \<Longrightarrow> env_match n s \<Longrightarrow> env_match m s \<Longrightarrow> n = m"
  by (auto simp: env_match_iff env_name_def eq_split_unique)

lemma find_first_update_same:
  "find_first P es \<noteq> None \<Longrightarrow> P s \<Longrightarrow> find_first P (update_first P (\<lambda>_. s) es) = Some s"
  by (induction es) auto

lemma find_first_update_other:
  "(\<And>x. Q x \<Longrightarrow> \<not> P x) \<Longrightarrow> \<not> P s \<Longrightarrow> find_first P (update_first Q (\<lambda>_. s) es) = find_first P es"
  by (induction es) auto

lemma getEnv_setEnv_same: "getEnv (setEnv True e n v) n = Some v"
  by (auto simp: getEnv_def setEnv_def find_first_append find_first_update_same
      split: option.splits)

lemma getEnv_setEnv_other:
  assumes "env_name n" "env_name m" "n \<noteq> m"
  shows "getEnv (setEnv mem e m v) n = getEnv e n"
proof -
  have other: "\<not> env_match n (makeEnv m v)" using assms by (rule env_match_other)
  have excl: "\<And>x. env_match m x \<Longrightarrow> \<not> env_match n x"
    using assms env_match_two_names by blast
  show ?thesis
    using other find_first_update_other [of "env_match m" "env_match n", OF excl other]
    by (auto simp: getEnv_def setEnv_def find_first_append split: option.splits)
qed

text \<open>No name has two entries: the shape every \<open>setEnv\<close> keeps.\<close>

definition env_unique :: "env \<Rightarrow> bool" where
  "env_unique e \<longleftrightarrow>
     (case e of None \<Rightarrow> True
      | Some es \<Rightarrow> (\<forall>n. env_name n \<longrightarrow> length (filter (env_match n) es) \<le> 1))"

lemma filter_update_first_same:
  "find_first P es \<noteq> None \<Longrightarrow> P s \<Longrightarrow>
    length (filter P (update_first P (\<lambda>_. s) es)) = length (filter P es)"
  by (induction es) auto

lemma filter_update_first_other:
  "(\<And>x. Q x \<Longrightarrow> \<not> P x) \<Longrightarrow> \<not> P s \<Longrightarrow> filter P (update_first Q (\<lambda>_. s) es) = filter P es"
  by (induction es) auto

lemma filter_none: "find_first P es = None \<Longrightarrow> filter P es = []"
  by (auto simp: find_first_None_iff filter_empty_conv)

lemma env_unique_setEnv:
  assumes "env_unique e" "env_name m"
  shows "env_unique (setEnv mem e m v)"
proof (cases e)
  case None
  then show ?thesis by (simp add: setEnv_def env_unique_def)
next
  case (Some es)
  have *: "length (filter (env_match n) (the (setEnv mem e m v))) \<le> 1" if n: "env_name n" for n
  proof (cases "n = m")
    case True
    with assms Some n show ?thesis
      by (auto simp: env_unique_def setEnv_def filter_update_first_same filter_none)
  next
    case False
    have other: "\<not> env_match n (makeEnv m v)" using n assms(2) False by (rule env_match_other)
    have excl: "\<And>x. env_match m x \<Longrightarrow> \<not> env_match n x"
      using n assms(2) False env_match_two_names by blast
    have "filter (env_match n) (the (setEnv mem e m v)) = filter (env_match n) es"
      using Some other filter_update_first_other [of "env_match m" "env_match n", OF excl other]
      by (simp add: setEnv_def)
    with assms(1) Some n show ?thesis by (simp add: env_unique_def)
  qed
  have "setEnv mem e m v \<noteq> None" using Some by (simp add: setEnv_def)
  then obtain es' where es': "setEnv mem e m v = Some es'" by blast
  show ?thesis using * unfolding env_unique_def es' by simp
qed

section \<open>The interface of an environment\<close>

locale environ =
  fixes get :: "'e \<Rightarrow> 'n \<Rightarrow> 'v option"
    and put :: "'e \<Rightarrow> 'n \<Rightarrow> 'v \<Rightarrow> 'e"
    and valid :: "'n \<Rightarrow> bool"
  assumes get_put_same: "get (put e n v) n = Some v"
    and get_put_other: "valid n \<Longrightarrow> valid m \<Longrightarrow> n \<noteq> m \<Longrightarrow> get (put e m v) n = get e n"
begin

text \<open>A sequence of assignments: the last one to a name wins, and other names keep the value
  they had before.\<close>

lemma get_puts:
  assumes "valid n" and "\<forall>(m, v) \<in> set kvs. valid m"
  shows "get (fold (\<lambda>(m, v) e. put e m v) kvs e) n =
    (case map_of (rev kvs) n of Some v \<Rightarrow> Some v | None \<Rightarrow> get e n)"
  using assms(2)
proof (induction kvs arbitrary: e rule: rev_induct)
  case Nil
  then show ?case by simp
next
  case (snoc kv kvs)
  obtain m v where kv: "kv = (m, v)" by (cases kv)
  show ?case
  proof (cases "m = n")
    case True
    with kv show ?thesis by (simp add: get_put_same)
  next
    case False
    have "valid m" and rest: "\<forall>(m, v) \<in> set kvs. valid m" using snoc.prems kv by auto
    then have "get (put (fold (\<lambda>(m, v) e. put e m v) kvs e) m v) n =
        get (fold (\<lambda>(m, v) e. put e m v) kvs e) n"
      using get_put_other assms(1) False by blast
    with snoc.IH [OF rest] kv False show ?thesis by simp
  qed
qed

end

interpretation env_ops: environ getEnv "setEnv True" env_name
  by unfold_locales (simp_all add: getEnv_setEnv_same getEnv_setEnv_other)

section \<open>Argument vectors\<close>

text \<open>The macro \<open>isblank\<close> of the file: a space or a tab.\<close>

definition isblank :: "char \<Rightarrow> bool" where
  "isblank c \<longleftrightarrow> c = CHR '' '' \<or> c = CHR 0x09"

text \<open>The loop of \<open>parseArgs\<close>: \<open>w\<close> is the text between \<open>word\<close> and \<open>string\<close>.\<close>

fun parse_words :: "string \<Rightarrow> string \<Rightarrow> string list" where
  "parse_words w [] = (if w \<noteq> [] then [w] else [])"
| "parse_words w (c # cs) =
     (if isblank c then (if w \<noteq> [] then w # parse_words [] cs else parse_words [] cs)
      else parse_words (w @ [c]) cs)"

definition parseArgs :: "bool \<Rightarrow> string list option \<Rightarrow> string \<Rightarrow> string list option" where
  "parseArgs mem argv s =
     (let ws = parse_words [] s
      in if \<not> mem \<and> (argv = None \<or> ws \<noteq> []) then None
         else Some ((case argv of None \<Rightarrow> [] | Some a \<Rightarrow> a) @ ws))"

lemma parse_words_no_blank:
  "(\<forall>c \<in> set w. \<not> isblank c) \<Longrightarrow>
    (\<forall>x \<in> set (parse_words w s). x \<noteq> [] \<and> (\<forall>c \<in> set x. \<not> isblank c))"
proof (induction s arbitrary: w)
  case Nil
  then show ?case by simp
next
  case (Cons c cs)
  show ?case
  proof (cases "isblank c")
    case True
    have "\<forall>x \<in> set (parse_words [] cs). x \<noteq> [] \<and> (\<forall>c \<in> set x. \<not> isblank c)"
      by (rule Cons.IH) simp
    with True Cons.prems show ?thesis by simp
  next
    case False
    have "\<forall>x \<in> set (parse_words (w @ [c]) cs). x \<noteq> [] \<and> (\<forall>c \<in> set x. \<not> isblank c)"
      by (rule Cons.IH) (use Cons.prems False in auto)
    with False show ?thesis by simp
  qed
qed

lemma concat_parse_words:
  "(\<forall>c \<in> set w. \<not> isblank c) \<Longrightarrow> concat (parse_words w s) = w @ filter (\<lambda>c. \<not> isblank c) s"
  by (induction w s rule: parse_words.induct) auto

lemma parse_words_word:
  "(\<forall>c \<in> set x. \<not> isblank c) \<Longrightarrow> parse_words w (x @ s) = parse_words (w @ x) s"
  by (induction x arbitrary: w) auto

text \<open>Words written one after the other, each after the first behind a separator.\<close>

fun join_words :: "char \<Rightarrow> string list \<Rightarrow> string" where
  "join_words c [] = []"
| "join_words c [w] = w"
| "join_words c (w # ws) = w @ c # join_words c ws"

lemma parse_words_join:
  "isblank c \<Longrightarrow> (\<forall>w \<in> set ws. w \<noteq> [] \<and> (\<forall>x \<in> set w. \<not> isblank x)) \<Longrightarrow>
    parse_words [] (join_words c ws) = ws"
proof (induction c ws rule: join_words.induct)
  case (2 c w)
  then have "parse_words [] (w @ []) = parse_words ([] @ w) []"
    by (intro parse_words_word) simp
  with 2 show ?case by simp
next
  case (3 c w v ws)
  have w: "w \<noteq> []" "\<forall>x \<in> set w. \<not> isblank x" using "3.prems"(2) by auto
  have ih: "parse_words [] (join_words c (v # ws)) = v # ws"
    by (rule "3.IH") (use "3.prems" in auto)
  have "parse_words [] (w @ c # join_words c (v # ws)) =
      parse_words ([] @ w) (c # join_words c (v # ws))"
    by (rule parse_words_word) (rule w(2))
  also have "\<dots> = w # v # ws"
    by (simp only: parse_words.simps "3.prems"(1) w(1) ih if_True append_Nil not_False_eq_True simp_thms)
  finally show ?case by (simp only: join_words.simps)
qed simp

lemma parseArgs_append:
  "parseArgs True argv s = Some ((case argv of None \<Rightarrow> [] | Some a \<Rightarrow> a) @ parse_words [] s)"
  by (simp add: parseArgs_def)

end
