(* ===== verification/Address.thy ===== *)
theory Address
  imports Netaddr
begin

text \<open>
  Host addresses: \<open>getLocalAddress\<close> and \<open>isLocalAddress\<close> of \<open>xdm/access.c\<close> and
  \<open>NetworkAddressToHostname\<close> of \<open>xdm/xdmcp.c\<close>.

  The record \<open>ext\<close> holds everything these and later functions take from outside the program:
  libXdmcp's counted arrays, the resolver, the list of interfaces and the allocator.  What the
  code relies on of them is stated as hypotheses of the theorems that need it, and
  \<open>ext_ok\<close> collects the ones that recur.
\<close>

section \<open>The outside world\<close>

record ext =
  x_array8_equal :: "ARRAY8 \<Rightarrow> ARRAY8 \<Rightarrow> bool"
  x_array8_copy :: "ARRAY8 \<Rightarrow> ARRAY8 option"
  x_array8_alloc :: "nat \<Rightarrow> bool"
  x_getaddrinfo :: "string \<Rightarrow> (sockaddr \<times> sockaddr list) option"
  x_gethostbyaddr :: "nat \<Rightarrow> ARRAY8 \<Rightarrow> string option"
  x_getifaddrs :: "sockaddr option list option"
  x_inet_ntop :: "nat \<Rightarrow> CARD8 list \<Rightarrow> string"
  x_hostname :: string
  x_xhostname :: string
  x_past_end :: CARD8
  x_strdup :: "string \<Rightarrow> string option"
  x_calloc :: "nat \<Rightarrow> bool"

text \<open>
  The documented behaviour: \<open>XdmcpARRAY8Equal\<close> compares lengths and bytes,
  \<open>XdmcpCopyARRAY8\<close> copies or reports that memory ran out, and so does \<open>strdup\<close>; the
  resolver and the kernel hand out addresses of their family's size.
\<close>

definition ext_ok :: "ext \<Rightarrow> bool" where
  "ext_ok E \<longleftrightarrow>
     (\<forall>a b. x_array8_equal E a b \<longleftrightarrow> a = b) \<and>
     (\<forall>a. x_array8_copy E a \<in> {None, Some a}) \<and>
     (\<forall>s. x_strdup E s \<in> {None, Some s}) \<and>
     (\<forall>s a as. x_getaddrinfo E s = Some (a, as) \<longrightarrow> (\<forall>sa \<in> set (a # as). wf_sockaddr sa)) \<and>
     (\<forall>ifs. x_getifaddrs E = Some ifs \<longrightarrow> (\<forall>sa. Some sa \<in> set ifs \<longrightarrow> wf_sockaddr sa))"

lemma ext_ok_equal: "ext_ok E \<Longrightarrow> x_array8_equal E a b \<longleftrightarrow> a = b"
  by (simp add: ext_ok_def)

lemma ext_ok_copy: "ext_ok E \<Longrightarrow> x_array8_copy E a = Some b \<Longrightarrow> b = a"
  unfolding ext_ok_def by (metis insertE option.distinct(1) option.inject singletonD)

text \<open>A world in which the documented behaviour holds, for evaluating the model: memory never
  runs out, nothing resolves, and the host has the two loopback interfaces and 10.0.0.5.\<close>

definition std_ext :: ext where
  "std_ext =
     \<lparr>x_array8_equal = (\<lambda>a b. a = b), x_array8_copy = Some, x_array8_alloc = (\<lambda>_. True),
      x_getaddrinfo = (\<lambda>_. None), x_gethostbyaddr = (\<lambda>_ _. None),
      x_getifaddrs = Some [Some (SockIn [0, 0] [127, 0, 0, 1]), None,
                           Some (SockIn [0, 0] [10, 0, 0, 5])],
      x_inet_ntop = (\<lambda>af a. if af = AF_INET then ''10.0.0.9'' else ''::9''),
      x_hostname = ''here'', x_xhostname = ''here'', x_past_end = 0,
      x_strdup = Some, x_calloc = (\<lambda>_. True)\<rparr>"

lemma ext_ok_std: "ext_ok std_ext"
  by (auto simp: ext_ok_def std_ext_def)

definition localHostname :: "ext \<Rightarrow> string" where
  "localHostname E = x_hostname E"

section \<open>The local host's addresses\<close>

text \<open>The static variables \<open>localAddress\<close> and \<open>haveLocalAddress\<close>: the address once it is
  known.  Until then the function returns the empty array.\<close>

type_synonym local_address = "ARRAY8 option"

definition getLocalAddress :: "ext \<Rightarrow> local_address \<Rightarrow> ARRAY8 \<times> local_address" where
  "getLocalAddress E st =
     (let st' =
       (case st of
          Some a \<Rightarrow> Some a
        | None \<Rightarrow>
            (case x_getaddrinfo E (localHostname E) of
               None \<Rightarrow> if x_array8_alloc E 4 then Some [127, 0, 0, 1] else None
             | Some (SockIn _ a, _) \<Rightarrow> if x_array8_alloc E 4 then Some a else None
             | Some (SockIn6 _ a _, _) \<Rightarrow> if x_array8_alloc E 16 then Some a else None
             | Some _ \<Rightarrow> None))
      in (case st' of Some a \<Rightarrow> a | None \<Rightarrow> [], st'))"

abbreviation loopback4 :: ARRAY8 where "loopback4 \<equiv> [127, 0, 0, 1]"
abbreviation loopback6 :: ARRAY8 where "loopback6 \<equiv> replicate 15 0 @ [1]"

text \<open>The bytes the interface loop compares: those of an address of the wanted family.\<close>

fun if_bytes :: "nat \<Rightarrow> sockaddr option \<Rightarrow> ARRAY8 option" where
  "if_bytes family (Some (SockIn _ a)) = (if family = AF_INET then Some a else None)"
| "if_bytes family (Some (SockIn6 _ a _)) = (if family = AF_INET6 then Some a else None)"
| "if_bytes family _ = None"

lemma if_bytes_Some_iff:
  "if_bytes f ifa = Some a \<longleftrightarrow>
    f = AF_INET \<and> (\<exists>p. ifa = Some (SockIn p a)) \<or> f = AF_INET6 \<and> (\<exists>p s. ifa = Some (SockIn6 p a s))"
  by (cases "(f, ifa)" rule: if_bytes.cases) auto

definition has_interface :: "ext \<Rightarrow> nat \<Rightarrow> ARRAY8 \<Rightarrow> bool" where
  "has_interface E family address =
     (case x_getifaddrs E of
        None \<Rightarrow> False
      | Some ifas \<Rightarrow>
          list_ex (\<lambda>ifa. case if_bytes family ifa of
            None \<Rightarrow> False | Some a \<Rightarrow> x_array8_equal E a address) ifas)"

definition isLocalAddress :: "ext \<Rightarrow> ARRAY8 \<Rightarrow> CARD16 \<Rightarrow> bool" where
  "isLocalAddress E address connectionType =
     (if connectionType = FamilyLocal \<or> connectionType = FamilyLocalHost \<or>
         connectionType = FamilyWild then True
      else if connectionType = FamilyInternet \<or> connectionType = FamilyInternet6 then
        (if length address = 4 then address = loopback4 \<or> has_interface E AF_INET address
         else if length address = 16 then address = loopback6 \<or> has_interface E AF_INET6 address
         else False)
      else False)"

section \<open>Names of hosts\<close>

definition same_address :: "ARRAY8 \<Rightarrow> nat \<Rightarrow> sockaddr \<Rightarrow> bool" where
  "same_address addr af_type sa \<longleftrightarrow>
     (case sa of
        SockIn _ a \<Rightarrow> af_type = AF_INET \<and> length addr = 4 \<and> addr = a
      | SockIn6 _ a _ \<Rightarrow> af_type = AF_INET6 \<and> length addr = 16 \<and> addr = a
      | _ \<Rightarrow> False)"

text \<open>\<open>inet_ntop\<close> reads as many bytes as the family has, whatever the array's length says.\<close>

definition inet_ntop :: "ext \<Rightarrow> nat \<Rightarrow> ARRAY8 \<Rightarrow> c_error + string" where
  "inet_ntop E af addr =
     (let n = (if af = AF_INET6 then 16 else 4)
      in if length addr < n then Inl OutOfBounds else Inr (x_inet_ntop E af (take n addr)))"

text \<open>
  The name the access list is matched against.  A forward lookup that does not contain the
  address is only logged: \<open>local_name\<close> is the reverse lookup's name all the same.  None is
  the NULL the caller reads as the empty string.
\<close>

definition NetworkAddressToHostname ::
    "ext \<Rightarrow> CARD16 \<Rightarrow> ARRAY8 \<Rightarrow> c_error + string option" where
  "NetworkAddressToHostname E connectionType addr =
     (if isLocalAddress E addr connectionType then Inr (x_strdup E ''localhost'')
      else if connectionType = FamilyInternet \<or> connectionType = FamilyInternet6 then
        (let af_type = (if connectionType = FamilyInternet6 then AF_INET6 else AF_INET)
         in case x_gethostbyaddr E af_type addr of
              None \<Rightarrow> bindE (inet_ntop E af_type addr) (\<lambda>dotted. Inr (x_strdup E dotted))
            | Some h_name \<Rightarrow>
                (case x_getaddrinfo E h_name of
                   None \<Rightarrow> bindE (inet_ntop E af_type addr) (\<lambda>dotted. Inr (x_strdup E dotted))
                 | Some (ai, ais) \<Rightarrow>
                     (if find_first (same_address addr af_type) (ai # ais) \<noteq> None
                      then Inr (x_strdup E h_name)
                      else bindE (inet_ntop E af_type addr) (\<lambda>_. Inr (x_strdup E h_name)))))
      else Inr None)"

lemma loopback_is_local:
  "ct = FamilyInternet \<or> ct = FamilyInternet6 \<Longrightarrow> a = loopback4 \<or> a = loopback6 \<Longrightarrow>
    isLocalAddress E a ct"
  by (auto simp: isLocalAddress_def)

text \<open>Whether an address is local depends on its bytes, not on which of the two Internet
  families it came with.\<close>

lemma isLocalAddress_family:
  "isLocalAddress E a FamilyInternet = isLocalAddress E a FamilyInternet6"
  by (simp add: isLocalAddress_def)

lemma isLocalAddress_iff:
  assumes "ext_ok E" "ct = FamilyInternet \<or> ct = FamilyInternet6"
  shows "isLocalAddress E a ct \<longleftrightarrow>
    a = loopback4 \<or> a = loopback6 \<or>
    (\<exists>ifs p. x_getifaddrs E = Some ifs \<and> Some (SockIn p a) \<in> set ifs) \<or>
    (\<exists>ifs p s. x_getifaddrs E = Some ifs \<and> Some (SockIn6 p a s) \<in> set ifs)"
proof -
  have eq: "x_array8_equal E b c \<longleftrightarrow> b = c" for b c using assms(1) by (simp add: ext_ok_def)
  have wf: "wf_sockaddr sa" if "x_getifaddrs E = Some ifs" "Some sa \<in> set ifs" for ifs sa
    using assms(1) that by (auto simp: ext_ok_def)
  have ex: "has_interface E f a \<longleftrightarrow>
      (\<exists>ifs ifa. x_getifaddrs E = Some ifs \<and> ifa \<in> set ifs \<and> if_bytes f ifa = Some a)" for f
    by (auto simp: has_interface_def eq list_ex_iff split: option.splits)
  have in4: "has_interface E AF_INET a \<longleftrightarrow>
      (\<exists>ifs p. x_getifaddrs E = Some ifs \<and> Some (SockIn p a) \<in> set ifs)"
    unfolding ex if_bytes_Some_iff by auto
  have in6: "has_interface E AF_INET6 a \<longleftrightarrow>
      (\<exists>ifs p s. x_getifaddrs E = Some ifs \<and> Some (SockIn6 p a s) \<in> set ifs)"
    unfolding ex if_bytes_Some_iff by auto
  have l4: "length a = 4" if "x_getifaddrs E = Some ifs" "Some (SockIn p a) \<in> set ifs" for ifs p
    using wf [OF that] by simp
  have l6: "length a = 16" if "x_getifaddrs E = Some ifs" "Some (SockIn6 p a s) \<in> set ifs" for ifs p s
    using wf [OF that] by simp
  have h4: "has_interface E AF_INET a \<Longrightarrow> length a = 4" using in4 l4 by blast
  have h6: "has_interface E AF_INET6 a \<Longrightarrow> length a = 16" using in6 l6 by blast
  have "isLocalAddress E a ct \<longleftrightarrow>
      a = loopback4 \<or> a = loopback6 \<or> has_interface E AF_INET a \<or> has_interface E AF_INET6 a"
    using assms(2) h4 h6 by (auto simp: isLocalAddress_def)
  then show ?thesis unfolding in4 in6 .
qed

end
