(* ===== verification/Resource.thy ===== *)
theory Resource
  imports Dpylist Util Address
begin

text \<open>
  The configuration, \<open>xdm/resource.c\<close>: reading one resource, the tables that say where the
  resources of the daemon, of a display's server and of its sessions are kept, and the
  loading of a whole table.

  A pointer into a structure together with the type tag of a table entry is a reading and a
  writing function.  The locale \<open>offsets\<close> states what the loops need of a table, that no two
  entries overlap; it is interpreted on the three tables.

  The X resource database and the Latin-1 lower case function are libraries, held in the record
  \<open>xlib\<close>; the defaults the build sets are \<open>x_macro\<close>.
\<close>

section \<open>One resource\<close>

datatype resource =
    R_STRING "string option"
  | R_INT int
  | R_BOOL bool
  | R_ARGV "string list option"

text \<open>\<open>XrmGetResource\<close> gives the string at \<open>value.addr\<close> and \<open>value.size\<close>, which is not
  always its length.\<close>

record 'db xlib =
  x_XrmGetResource :: "'db \<Rightarrow> string \<Rightarrow> string \<Rightarrow> (string \<times> nat) option"
  x_XrmGetFileDatabase :: "string \<Rightarrow> 'db option"
  x_XrmEmpty :: 'db
  x_parse_config :: "'db \<Rightarrow> string list \<Rightarrow> 'db \<times> string list"
  x_parse_options :: "'db \<Rightarrow> string list \<Rightarrow> 'db \<times> string list"
  x_Lowered :: "string \<Rightarrow> string"
  x_macro :: "string \<Rightarrow> string"

definition atoi :: "string \<Rightarrow> int" where
  "atoi s = to_int32 (strtol s)"

text \<open>The bytes \<open>string\<close> and \<open>len\<close> stand for.\<close>

definition resource_text :: "'db xlib \<Rightarrow> 'db option \<Rightarrow> string \<Rightarrow> string \<Rightarrow> string \<Rightarrow> string \<times> nat" where
  "resource_text X db name cls default_value =
     (case Option.bind db (\<lambda>b. x_XrmGetResource X b name cls) of
        Some v \<Rightarrow> v
      | None \<Rightarrow> (default_value, length default_value))"

definition bool_text :: "string \<Rightarrow> bool option" where
  "bool_text s =
     (if s = ''true'' \<or> s = ''on'' \<or> s = ''yes'' then Some True
      else if s = ''false'' \<or> s = ''off'' \<or> s = ''no'' then Some False
      else None)"

text \<open>When memory runs out, an old string has been freed and stays in its field: the next use of
  it is a use after free, reported here at once.\<close>

definition GetResource ::
    "ext \<Rightarrow> 'db xlib \<Rightarrow> 'db option \<Rightarrow> string \<Rightarrow> string \<Rightarrow> resource \<Rightarrow> string \<Rightarrow> c_error + resource" where
  "GetResource E X db name cls valuep default_value =
     (let (s, len) = resource_text X db name cls default_value;
          str_buf = take 49 s
      in case valuep of
           R_STRING old \<Rightarrow>
             (if old \<noteq> None \<and> length (the old) = len \<and> the old = take len s then Inr valuep
              else if \<not> x_calloc E 0 then (if old = None then Inr valuep else Inl UseAfterFree)
              else Inr (R_STRING (Some (take len s))))
         | R_INT _ \<Rightarrow> Inr (R_INT (atoi str_buf))
         | R_BOOL old \<Rightarrow>
             (case bool_text (x_Lowered X str_buf) of
                Some b \<Rightarrow> Inr (R_BOOL b) | None \<Rightarrow> Inr (R_BOOL old))
         | R_ARGV _ \<Rightarrow> Inr (R_ARGV (parseArgs (x_calloc E 0) None s)))"

section \<open>Tables\<close>

record 'r entry =
  e_name :: string
  e_class :: string
  e_get :: "'r \<Rightarrow> resource"
  e_set :: "resource \<Rightarrow> 'r \<Rightarrow> 'r"
  e_default :: string

text \<open>The four kinds of field; \<open>upd\<close> is the field's update function.\<close>

definition string_entry where
  "string_entry name cls get upd dflt =
     \<lparr>e_name = name, e_class = cls, e_get = (\<lambda>r. R_STRING (get r)),
      e_set = (\<lambda>v r. case v of R_STRING s \<Rightarrow> upd (\<lambda>_. s) r | _ \<Rightarrow> r), e_default = dflt\<rparr>"

definition int_entry where
  "int_entry name cls get upd dflt =
     \<lparr>e_name = name, e_class = cls, e_get = (\<lambda>r. R_INT (get r)),
      e_set = (\<lambda>v r. case v of R_INT i \<Rightarrow> upd (\<lambda>_. i) r | _ \<Rightarrow> r), e_default = dflt\<rparr>"

definition bool_entry where
  "bool_entry name cls get upd dflt =
     \<lparr>e_name = name, e_class = cls, e_get = (\<lambda>r. R_BOOL (get r)),
      e_set = (\<lambda>v r. case v of R_BOOL b \<Rightarrow> upd (\<lambda>_. b) r | _ \<Rightarrow> r), e_default = dflt\<rparr>"

definition argv_entry where
  "argv_entry name cls get upd dflt =
     \<lparr>e_name = name, e_class = cls, e_get = (\<lambda>r. R_ARGV (get r)),
      e_set = (\<lambda>v r. case v of R_ARGV a \<Rightarrow> upd (\<lambda>_. a) r | _ \<Rightarrow> r), e_default = dflt\<rparr>"

definition serverResources :: "(string \<Rightarrow> string) \<Rightarrow> display entry list" where
  "serverResources macro =
     (let srv_int = (\<lambda>n c get upd. int_entry n c (get \<circ> d_server) (d_server_update \<circ> upd));
          srv_bool = (\<lambda>n c get upd. bool_entry n c (get \<circ> d_server) (d_server_update \<circ> upd));
          auth_bool = (\<lambda>n c get upd. bool_entry n c (get \<circ> d_auth) (d_auth_update \<circ> upd))
      in [srv_int ''serverAttempts'' ''ServerAttempts'' sr_serverAttempts sr_serverAttempts_update ''1'',
          srv_int ''openDelay'' ''OpenDelay'' sr_openDelay sr_openDelay_update ''15'',
          srv_int ''openRepeat'' ''OpenRepeat'' sr_openRepeat sr_openRepeat_update ''5'',
          srv_int ''openTimeout'' ''OpenTimeout'' sr_openTimeout sr_openTimeout_update ''120'',
          srv_int ''startAttempts'' ''StartAttempts'' sr_startAttempts sr_startAttempts_update ''4'',
          srv_int ''reservAttempts'' ''ReservAttempts'' sr_reservAttempts sr_reservAttempts_update ''2'',
          srv_int ''pingInterval'' ''PingInterval'' sr_pingInterval sr_pingInterval_update ''5'',
          srv_int ''pingTimeout'' ''PingTimeout'' sr_pingTimeout sr_pingTimeout_update ''5'',
          srv_bool ''terminateServer'' ''TerminateServer'' sr_terminateServer sr_terminateServer_update ''false'',
          srv_bool ''grabServer'' ''GrabServer'' sr_grabServer sr_grabServer_update ''false'',
          srv_int ''grabTimeout'' ''GrabTimeout'' sr_grabTimeout sr_grabTimeout_update ''3'',
          srv_int ''resetSignal'' ''Signal'' sr_resetSignal sr_resetSignal_update ''1'',
          srv_int ''termSignal'' ''Signal'' sr_termSignal sr_termSignal_update ''15'',
          srv_bool ''resetForAuth'' ''ResetForAuth'' sr_resetForAuth sr_resetForAuth_update ''false'',
          auth_bool ''authorize'' ''Authorize'' au_authorize au_authorize_update ''true'',
          auth_bool ''authComplain'' ''AuthComplain'' au_authComplain au_authComplain_update ''true'',
          argv_entry ''authName'' ''AuthName'' (au_authNames \<circ> d_auth)
            (d_auth_update \<circ> au_authNames_update) (macro ''DEF_AUTH_NAME''),
          string_entry ''authFile'' ''AuthFile'' (au_clientAuthFile \<circ> d_auth)
            (d_auth_update \<circ> au_clientAuthFile_update) ''''])"

definition sessionResources :: "(string \<Rightarrow> string) \<Rightarrow> display entry list" where
  "sessionResources macro =
     (let ses = (\<lambda>n c get upd. string_entry n c (get \<circ> d_session) (d_session_update \<circ> upd))
      in [ses ''resources'' ''Resources'' se_resources se_resources_update '''',
          ses ''xrdb'' ''Xrdb'' se_xrdb se_xrdb_update (macro ''XRDB_PROGRAM''),
          ses ''setup'' ''Setup'' se_setup se_setup_update '''',
          ses ''startup'' ''Startup'' se_startup se_startup_update '''',
          ses ''reset'' ''Reset'' se_reset se_reset_update '''',
          ses ''session'' ''Session'' se_session se_session_update (macro ''DEF_SESSION''),
          ses ''userPath'' ''Path'' se_userPath se_userPath_update (macro ''DEF_USER_PATH''),
          ses ''systemPath'' ''Path'' se_systemPath se_systemPath_update (macro ''DEF_SYSTEM_PATH''),
          ses ''systemShell'' ''Shell'' se_systemShell se_systemShell_update (macro ''DEF_SYSTEM_SHELL''),
          ses ''failsafeClient'' ''FailsafeClient'' se_failsafeClient se_failsafeClient_update
            (macro ''DEF_FAILSAFE_CLIENT''),
          string_entry ''userAuthDir'' ''UserAuthDir'' (au_userAuthDir \<circ> d_auth)
            (d_auth_update \<circ> au_userAuthDir_update) (macro ''DEF_USER_AUTH_DIR''),
          ses ''chooser'' ''Chooser'' se_chooser se_chooser_update (macro ''DEF_CHOOSER''),
          ses ''greeter'' ''Greeter'' se_greeter se_greeter_update (macro ''DEF_GREETER'')])"

text \<open>The global variables of \<open>resource.c\<close>.\<close>

record dm_globals =
  g_config :: "string option"
  g_servers :: "string option"
  g_request_port :: int
  g_debugLevel :: int
  g_errorLogFile :: "string option"
  g_daemonMode :: bool
  g_pidFile :: "string option"
  g_lockPidFile :: bool
  g_authDir :: "string option"
  g_autoRescan :: bool
  g_removeDomainname :: bool
  g_keyFile :: "string option"
  g_accessFile :: "string option"
  g_exportList :: "string list option"
  g_randomFile :: "string option"
  g_prngdSocket :: "string option"
  g_prngdPort :: int
  g_randomDevice :: "string option"
  g_greeterLib :: "string option"
  g_choiceTimeout :: int
  g_sourceAddress :: bool
  g_willing :: "string option"

definition DmResources :: "(string \<Rightarrow> string) \<Rightarrow> dm_globals entry list" where
  "DmResources macro =
     [string_entry ''servers'' ''Servers'' g_servers g_servers_update (macro ''DEF_SERVER_LINE''),
      int_entry ''requestPort'' ''RequestPort'' g_request_port g_request_port_update ''177'',
      int_entry ''debugLevel'' ''DebugLevel'' g_debugLevel g_debugLevel_update ''0'',
      string_entry ''errorLogFile'' ''ErrorLogFile'' g_errorLogFile g_errorLogFile_update '''',
      bool_entry ''daemonMode'' ''DaemonMode'' g_daemonMode g_daemonMode_update ''true'',
      string_entry ''pidFile'' ''PidFile'' g_pidFile g_pidFile_update '''',
      bool_entry ''lockPidFile'' ''LockPidFile'' g_lockPidFile g_lockPidFile_update ''true'',
      string_entry ''authDir'' ''authDir'' g_authDir g_authDir_update (macro ''DEF_AUTH_DIR''),
      bool_entry ''autoRescan'' ''AutoRescan'' g_autoRescan g_autoRescan_update ''true'',
      bool_entry ''removeDomainname'' ''RemoveDomainname'' g_removeDomainname g_removeDomainname_update ''true'',
      string_entry ''keyFile'' ''KeyFile'' g_keyFile g_keyFile_update (macro ''DEF_KEY_FILE''),
      string_entry ''accessFile'' ''AccessFile'' g_accessFile g_accessFile_update (macro ''DEF_ACCESS_FILE''),
      argv_entry ''exportList'' ''ExportList'' g_exportList g_exportList_update '''',
      string_entry ''randomFile'' ''RandomFile'' g_randomFile g_randomFile_update (macro ''DEF_RANDOM_FILE''),
      string_entry ''prngdSocket'' ''PrngdSocket'' g_prngdSocket g_prngdSocket_update (macro ''DEF_PRNGD_SOCKET''),
      int_entry ''prngdPort'' ''PrngdPort'' g_prngdPort g_prngdPort_update (macro ''DEF_PRNGD_PORT''),
      string_entry ''randomDevice'' ''RandomDevice'' g_randomDevice g_randomDevice_update (macro ''DEV_RANDOM''),
      string_entry ''greeterLib'' ''GreeterLib'' g_greeterLib g_greeterLib_update (macro ''DEF_GREETER_LIB''),
      int_entry ''choiceTimeout'' ''ChoiceTimeout'' g_choiceTimeout g_choiceTimeout_update ''15'',
      bool_entry ''sourceAddress'' ''SourceAddress'' g_sourceAddress g_sourceAddress_update ''false'',
      string_entry ''willing'' ''Willing'' g_willing g_willing_update '''']"

section \<open>Loading a table\<close>

text \<open>The loop of both loaders: the names of a resource are made from a prefix.\<close>

primrec load_entries ::
    "ext \<Rightarrow> 'db xlib \<Rightarrow> 'db option \<Rightarrow> string \<Rightarrow> string \<Rightarrow> 'r entry list \<Rightarrow> 'r \<Rightarrow> c_error + 'r" where
  "load_entries E X db np cp [] r = Inr r"
| "load_entries E X db np cp (e # es) r =
     bindE (GetResource E X db (snprintf_keep 1024 (np @ ''.'' @ e_name e))
              (snprintf_keep 1024 (cp @ ''.'' @ e_class e)) (e_get e r) (e_default e))
       (\<lambda>v. load_entries E X db np cp es (e_set e v r))"

definition LoadDMResources :: "ext \<Rightarrow> 'db xlib \<Rightarrow> 'db option \<Rightarrow> dm_globals \<Rightarrow> c_error + dm_globals" where
  "LoadDMResources E X db g =
     load_entries E X db ''DisplayManager'' ''DisplayManager'' (DmResources (x_macro X)) g"

definition CleanUpName :: "string \<Rightarrow> nat \<Rightarrow> string" where
  "CleanUpName src len = map (\<lambda>c. if c = CHR '':'' \<or> c = CHR ''.'' then CHR ''_'' else c) (take (len - 1) src)"

definition LoadDisplayResources ::
    "ext \<Rightarrow> 'db xlib \<Rightarrow> 'db option \<Rightarrow> display entry list \<Rightarrow> display \<Rightarrow> c_error + display" where
  "LoadDisplayResources E X db resources d =
     (let dpyName = CleanUpName (d_name d) 512;
          dpyClass = CleanUpName (case d_class d of Some c \<Rightarrow> c | None \<Rightarrow> d_name d) 512
      in load_entries E X db (''DisplayManager.'' @ dpyName) (''DisplayManager.'' @ dpyClass) resources d)"

definition LoadServerResources :: "ext \<Rightarrow> 'db xlib \<Rightarrow> 'db option \<Rightarrow> display \<Rightarrow> c_error + display" where
  "LoadServerResources E X db d = LoadDisplayResources E X db (serverResources (x_macro X)) d"

definition LoadSessionResources :: "ext \<Rightarrow> 'db xlib \<Rightarrow> 'db option \<Rightarrow> display \<Rightarrow> c_error + display" where
  "LoadSessionResources E X db d = LoadDisplayResources E X db (sessionResources (x_macro X)) d"

text \<open>Reading the configuration again: the database is built from the command line, replaced by
  the file it names if that can be read, and overlaid with the command line.  The result is the
  database, the globals and the arguments that are complained about; None is the panic.\<close>

definition ReinitResources ::
    "ext \<Rightarrow> 'db xlib \<Rightarrow> string list \<Rightarrow> dm_globals \<Rightarrow> c_error + ('db \<times> dm_globals \<times> string list) option" where
  "ReinitResources E X originalArgv g =
     (if \<not> x_calloc E 1 then Inr None
      else
        (let (db, argv) = x_parse_config X (x_XrmEmpty X) originalArgv
         in bindE (GetResource E X (Some db) ''DisplayManager.configFile'' ''DisplayManager.ConfigFile''
                     (R_STRING (g_config g)) (x_macro X ''DEF_XDM_CONFIG''))
              (\<lambda>v. let g' = (case v of R_STRING s \<Rightarrow> g\<lparr>g_config := s\<rparr> | _ \<Rightarrow> g);
                       db' = (case Option.bind (g_config g') (x_XrmGetFileDatabase X) of
                                Some newDB \<Rightarrow> newDB | None \<Rightarrow> db);
                       (db'', argv') = x_parse_options X db' argv
                   in Inr (Some (db'', g', drop 1 argv')))))"

definition InitResources ::
    "ext \<Rightarrow> 'db xlib \<Rightarrow> string list \<Rightarrow> dm_globals \<Rightarrow> c_error + ('db \<times> dm_globals \<times> string list) option" where
  "InitResources E X argv g = ReinitResources E X argv g"

section \<open>Tables whose entries do not overlap\<close>

primrec same_type :: "resource \<Rightarrow> resource \<Rightarrow> bool" where
  "same_type (R_STRING _) w = (\<exists>x. w = R_STRING x)"
| "same_type (R_INT _) w = (\<exists>x. w = R_INT x)"
| "same_type (R_BOOL _) w = (\<exists>x. w = R_BOOL x)"
| "same_type (R_ARGV _) w = (\<exists>x. w = R_ARGV x)"

locale offsets =
  fixes table :: "'r entry list"
  assumes named: "distinct (map e_name table)"
    and own: "e \<in> set table \<Longrightarrow> same_type (e_get e r) v \<Longrightarrow> e_get e (e_set e v r) = v"
    and apart: "e \<in> set table \<Longrightarrow> e' \<in> set table \<Longrightarrow> e_name e \<noteq> e_name e' \<Longrightarrow>
      e_get e (e_set e' v r) = e_get e r"

text \<open>What a resource is set to when memory suffices.\<close>

definition configured ::
    "'db xlib \<Rightarrow> 'db option \<Rightarrow> string \<Rightarrow> string \<Rightarrow> resource \<Rightarrow> string \<Rightarrow> resource" where
  "configured X db name cls old dflt =
     (let (s, len) = resource_text X db name cls dflt
      in case old of
           R_STRING _ \<Rightarrow> R_STRING (Some (take len s))
         | R_INT _ \<Rightarrow> R_INT (atoi (take 49 s))
         | R_BOOL b \<Rightarrow> R_BOOL (case bool_text (x_Lowered X (take 49 s)) of Some c \<Rightarrow> c | None \<Rightarrow> b)
         | R_ARGV _ \<Rightarrow> R_ARGV (Some (parse_words [] s)))"

lemma GetResource_configured:
  "\<forall>t. x_calloc E t \<Longrightarrow> GetResource E X db name cls old dflt = Inr (configured X db name cls old dflt)"
  by (cases old)
    (auto simp: GetResource_def configured_def Let_def parseArgs_def split: prod.splits option.splits)

lemma same_type_configured: "same_type old (configured X db name cls old dflt)"
  by (cases old) (simp_all add: configured_def split: prod.split)

text \<open>The value a table entry gets from the database under two prefixes.\<close>

definition entry_value :: "'db xlib \<Rightarrow> 'db option \<Rightarrow> string \<Rightarrow> string \<Rightarrow> 'r entry \<Rightarrow> 'r \<Rightarrow> resource" where
  "entry_value X db np cp e r =
     configured X db (snprintf_keep 1024 (np @ ''.'' @ e_name e)) (snprintf_keep 1024 (cp @ ''.'' @ e_class e))
       (e_get e r) (e_default e)"

context offsets
begin

lemma load_all:
  assumes "\<forall>t. x_calloc E t" "set es \<subseteq> set table" "distinct (map e_name es)"
  shows "\<exists>r'. load_entries E X db np cp es r = Inr r' \<and>
    (\<forall>e \<in> set es. e_get e r' = entry_value X db np cp e r) \<and>
    (\<forall>e \<in> set table. e_name e \<notin> e_name ` set es \<longrightarrow> e_get e r' = e_get e r)"
  using assms(2,3)
proof (induction es arbitrary: r)
  case (Cons e es)
  let ?r1 = "e_set e (entry_value X db np cp e r) r"
  have eq: "load_entries E X db np cp (e # es) r = load_entries E X db np cp es ?r1"
    by (simp add: GetResource_configured [OF assms(1)] entry_value_def)
  obtain r' where r': "load_entries E X db np cp es ?r1 = Inr r'"
    "\<forall>e \<in> set es. e_get e r' = entry_value X db np cp e ?r1"
    "\<forall>e' \<in> set table. e_name e' \<notin> e_name ` set es \<longrightarrow> e_get e' r' = e_get e' ?r1"
    using Cons.IH [of ?r1] Cons.prems by auto
  have e: "e \<in> set table" "e_name e \<notin> e_name ` set es" using Cons.prems by auto
  have "e_get e r' = entry_value X db np cp e r"
    using r'(3) e own [OF e(1) same_type_configured] by (simp add: entry_value_def)
  moreover have "e_get e' ?r1 = e_get e' r" if "e' \<in> set table" "e_name e' \<noteq> e_name e" for e'
    using apart [OF that(1) e(1) that(2)] .
  moreover have "entry_value X db np cp e' ?r1 = entry_value X db np cp e' r" if "e' \<in> set es" for e'
  proof -
    have "e' \<in> set table" "e_name e' \<noteq> e_name e" using that Cons.prems by (auto, metis image_eqI)
    then show ?thesis using apart [OF _ e(1)] by (simp add: entry_value_def)
  qed
  ultimately show ?case using r' eq by auto
qed simp

lemma load_table:
  assumes "\<forall>t. x_calloc E t"
  shows "\<exists>r'. load_entries E X db np cp table r = Inr r' \<and>
    (\<forall>e \<in> set table. e_get e r' = entry_value X db np cp e r)"
  using load_all [OF assms order.refl named] by blast

end

lemma load_entries_frame:
  assumes "\<And>e v r. e \<in> set es \<Longrightarrow> f (e_set e v r) = f r" "load_entries E X db np cp es r = Inr r'"
  shows "f r' = f r"
  using assms
proof (induction es arbitrary: r)
  case (Cons e es)
  then obtain v where "load_entries E X db np cp es (e_set e v r) = Inr r'"
    by (cases "GetResource E X db (snprintf_keep 1024 (np @ ''.'' @ e_name e))
        (snprintf_keep 1024 (cp @ ''.'' @ e_class e)) (e_get e r) (e_default e)") auto
  with Cons show ?case by (metis list.set_intros)
qed simp

lemmas entry_defs = string_entry_def int_entry_def bool_entry_def argv_entry_def

interpretation server_table: offsets "serverResources macro" for macro
proof
  show "distinct (map e_name (serverResources macro))"
    by (simp add: serverResources_def entry_defs)
  show "e \<in> set (serverResources macro) \<Longrightarrow> same_type (e_get e r) v \<Longrightarrow> e_get e (e_set e v r) = v" for e r v
    by (auto simp: serverResources_def entry_defs)
  have "\<forall>e \<in> set (serverResources macro). \<forall>e' \<in> set (serverResources macro). e_name e \<noteq> e_name e' \<longrightarrow>
      e_get e (e_set e' v r) = e_get e r" for v r
    by (cases v) (simp_all add: serverResources_def entry_defs)
  then show "e \<in> set (serverResources macro) \<Longrightarrow> e' \<in> set (serverResources macro) \<Longrightarrow> e_name e \<noteq> e_name e' \<Longrightarrow>
      e_get e (e_set e' v r) = e_get e r" for e e' v r by blast
qed

interpretation session_table: offsets "sessionResources macro" for macro
proof
  show "distinct (map e_name (sessionResources macro))"
    by (simp add: sessionResources_def entry_defs)
  show "e \<in> set (sessionResources macro) \<Longrightarrow> same_type (e_get e r) v \<Longrightarrow> e_get e (e_set e v r) = v" for e r v
    by (auto simp: sessionResources_def entry_defs)
  have "\<forall>e \<in> set (sessionResources macro). \<forall>e' \<in> set (sessionResources macro). e_name e \<noteq> e_name e' \<longrightarrow>
      e_get e (e_set e' v r) = e_get e r" for v r
    by (cases v) (simp_all add: sessionResources_def entry_defs)
  then show "e \<in> set (sessionResources macro) \<Longrightarrow> e' \<in> set (sessionResources macro) \<Longrightarrow> e_name e \<noteq> e_name e' \<Longrightarrow>
      e_get e (e_set e' v r) = e_get e r" for e e' v r by blast
qed

interpretation daemon_table: offsets "DmResources macro" for macro
proof
  show "distinct (map e_name (DmResources macro))"
    by (simp add: DmResources_def entry_defs)
  show "e \<in> set (DmResources macro) \<Longrightarrow> same_type (e_get e r) v \<Longrightarrow> e_get e (e_set e v r) = v" for e r v
    by (auto simp: DmResources_def entry_defs)
  have "\<forall>e \<in> set (DmResources macro). \<forall>e' \<in> set (DmResources macro). e_name e \<noteq> e_name e' \<longrightarrow>
      e_get e (e_set e' v r) = e_get e r" for v r
    by (cases v) (simp_all add: DmResources_def entry_defs)
  then show "e \<in> set (DmResources macro) \<Longrightarrow> e' \<in> set (DmResources macro) \<Longrightarrow> e_name e \<noteq> e_name e' \<Longrightarrow>
      e_get e (e_set e' v r) = e_get e r" for e e' v r by blast
qed

section \<open>A display's resources\<close>

lemma CleanUpName_chars: "c \<in> set (CleanUpName src len) \<Longrightarrow> c \<noteq> CHR '':'' \<and> c \<noteq> CHR ''.''"
  by (auto simp: CleanUpName_def split: if_splits)

lemma length_CleanUpName: "length (CleanUpName src len) \<le> len - 1"
  by (simp add: CleanUpName_def)

lemma table_names:
  "e \<in> set (serverResources macro) \<union> set (sessionResources macro) \<Longrightarrow>
    length (e_name e) \<le> 15 \<and> length (e_class e) \<le> 15"
  by (auto simp: serverResources_def sessionResources_def entry_defs)

lemma entry_value_display:
  "e \<in> set (serverResources macro) \<union> set (sessionResources macro) \<Longrightarrow> length n \<le> 511 \<Longrightarrow> length c \<le> 511 \<Longrightarrow>
    entry_value X db (''DisplayManager.'' @ n) (''DisplayManager.'' @ c) e d =
      configured X db (''DisplayManager.'' @ n @ ''.'' @ e_name e) (''DisplayManager.'' @ c @ ''.'' @ e_class e)
        (e_get e d) (e_default e)"
  using table_names [of e macro] by (simp add: entry_value_def snprintf_keep_short)

text \<open>What a display is apart from its resources.\<close>

definition apart_from_resources :: "display \<Rightarrow> display" where
  "apart_from_resources d = d\<lparr>d_server := d_server (new_display '''' None),
     d_session := d_session (new_display '''' None),
     d_auth := (d_auth (new_display '''' None))\<lparr>au_authNameNum := au_authNameNum (d_auth d),
       au_authorizations := au_authorizations (d_auth d), au_authNum := au_authNum (d_auth d),
       au_authFile := au_authFile (d_auth d)\<rparr>\<rparr>"

lemma table_frame:
  "e \<in> set (serverResources macro) \<union> set (sessionResources macro) \<Longrightarrow>
    apart_from_resources (e_set e v d) = apart_from_resources d"
  by (cases v) (auto simp: serverResources_def sessionResources_def entry_defs apart_from_resources_def)

text \<open>C29: Loading a display's server or session resources sets every field of the table to what
  the database says under \<open>DisplayManager\<close>, the display's name and the resource's name, or under
  the classes, and to the default otherwise; the names are never cut, the display's part of them
  holds no colon and no dot, and nothing else of the display changes.\<close>

theorem LoadDisplayResources_spec:
  assumes "\<forall>t. x_calloc E t" "table = serverResources macro \<or> table = sessionResources macro"
  shows "\<exists>d' n c. LoadDisplayResources E X db table d = Inr d' \<and>
    n = CleanUpName (d_name d) 512 \<and>
    c = CleanUpName (case d_class d of Some c \<Rightarrow> c | None \<Rightarrow> d_name d) 512 \<and>
    set (n @ c) \<inter> {CHR '':'', CHR ''.''} = {} \<and>
    (\<forall>e \<in> set table. e_get e d' =
       configured X db (''DisplayManager.'' @ n @ ''.'' @ e_name e)
         (''DisplayManager.'' @ c @ ''.'' @ e_class e) (e_get e d) (e_default e)) \<and>
    apart_from_resources d' = apart_from_resources d"
proof -
  let ?n = "CleanUpName (d_name d) 512"
  let ?c = "CleanUpName (case d_class d of Some c \<Rightarrow> c | None \<Rightarrow> d_name d) 512"
  have sub: "e \<in> set (serverResources macro) \<union> set (sessionResources macro)" if "e \<in> set table" for e
    using assms(2) that by auto
  obtain d' where d': "load_entries E X db (''DisplayManager.'' @ ?n) (''DisplayManager.'' @ ?c) table d = Inr d'"
    "\<forall>e \<in> set table. e_get e d' = entry_value X db (''DisplayManager.'' @ ?n) (''DisplayManager.'' @ ?c) e d"
    using assms(2) server_table.load_table [OF assms(1)] session_table.load_table [OF assms(1)] by metis
  have len: "length ?n \<le> 511" "length ?c \<le> 511"
    using length_CleanUpName [of "d_name d" 512]
      length_CleanUpName [of "case d_class d of Some c \<Rightarrow> c | None \<Rightarrow> d_name d" 512] by simp_all
  have "LoadDisplayResources E X db table d = Inr d'"
    using d'(1) by (simp add: LoadDisplayResources_def Let_def)
  moreover have "\<forall>e \<in> set table. e_get e d' =
       configured X db (''DisplayManager.'' @ ?n @ ''.'' @ e_name e)
         (''DisplayManager.'' @ ?c @ ''.'' @ e_class e) (e_get e d) (e_default e)"
    using d'(2) entry_value_display [OF sub len] by metis
  moreover have "apart_from_resources d' = apart_from_resources d"
    using load_entries_frame [OF _ d'(1), of apart_from_resources] table_frame [OF sub] by blast
  moreover have "set (?n @ ?c) \<inter> {CHR '':'', CHR ''.''} = {}"
    using CleanUpName_chars by (auto dest: CleanUpName_chars)
  ultimately show ?thesis by blast
qed

text \<open>A database that answers for one display.\<close>

definition sample_xlib :: "(string \<times> string) list xlib" where
  "sample_xlib =
     \<lparr>x_XrmGetResource = (\<lambda>db name cls. map_option (\<lambda>v. (v, length v)) (map_of db name)),
      x_XrmGetFileDatabase = (\<lambda>_. None), x_XrmEmpty = [], x_parse_config = Pair, x_parse_options = Pair,
      x_Lowered = id, x_macro = id\<rparr>"

lemma LoadDisplayResources_spec_witness:
  "\<exists>d'. LoadServerResources std_ext sample_xlib (Some [(''DisplayManager._0.startAttempts'', ''7'')])
     (new_display '':0'' None) = Inr d' \<and>
     sr_startAttempts (d_server d') = 7 \<and> sr_openDelay (d_server d') = 15"
proof -
  let ?db = "Some [(''DisplayManager._0.startAttempts'', ''7'')]"
  have m: "\<forall>t. x_calloc std_ext t" by (simp add: std_ext_def)
  have n: "CleanUpName ''_0'' 512 = ''_0''" "CleanUpName '':0'' 512 = ''_0''" by code_simp+
  have v: "configured sample_xlib ?db ''DisplayManager._0.startAttempts'' c (R_INT i) ''4'' = R_INT 7"
    "configured sample_xlib ?db ''DisplayManager._0.openDelay'' c (R_INT i) ''15'' = R_INT 15" for c i
    by (simp_all add: configured_def resource_text_def sample_xlib_def) code_simp+
  from LoadDisplayResources_spec [OF m disjI1 [OF refl], of sample_xlib ?db "x_macro sample_xlib" "new_display '':0'' None"]
  obtain d' where d': "LoadServerResources std_ext sample_xlib ?db (new_display '':0'' None) = Inr d'"
    "\<forall>e \<in> set (serverResources (x_macro sample_xlib)). e_get e d' =
       configured sample_xlib ?db (''DisplayManager._0.'' @ e_name e) (''DisplayManager._0.'' @ e_class e)
         (e_get e (new_display '':0'' None)) (e_default e)"
    by (auto simp: LoadServerResources_def n new_display_def)
  show ?thesis
    using d' by (intro exI [of _ d']) (simp add: serverResources_def entry_defs v)
qed

lemma LoadServerResources_loads:
  assumes "\<forall>t. x_calloc E t"
  shows "\<exists>d'. LoadServerResources E X db d = Inr d' \<and> apart_from_resources d' = apart_from_resources d"
proof -
  let ?np = "''DisplayManager.'' @ CleanUpName (d_name d) 512"
  let ?cp = "''DisplayManager.'' @ CleanUpName (case d_class d of Some c \<Rightarrow> c | None \<Rightarrow> d_name d) 512"
  obtain d' where d': "load_entries E X db ?np ?cp (serverResources (x_macro X)) d = Inr d'"
    using server_table.load_table [OF assms] by blast
  have "apart_from_resources d' = apart_from_resources d"
    by (rule load_entries_frame [OF _ d']) (rule table_frame [of _ "x_macro X"], simp)
  with d' show ?thesis by (simp add: LoadServerResources_def LoadDisplayResources_def Let_def)
qed

lemma apart_from_resources_fields:
  assumes "apart_from_resources d' = apart_from_resources d"
  shows "d_name d' = d_name d" "d_class d' = d_class d" "d_displayType d' = d_displayType d"
    "d_argv d' = d_argv d" "d_status d' = d_status d" "d_pid d' = d_pid d" "d_serverPid d' = d_serverPid d"
    "d_state d' = d_state d" "d_startTries d' = d_startTries d" "d_lastReserv d' = d_lastReserv d"
    "d_reservTries d' = d_reservTries d" "d_sessionID d' = d_sessionID d" "d_from d' = d_from d"
    "d_fromlen d' = d_fromlen d" "d_displayNumber d' = d_displayNumber d" "d_useChooser d' = d_useChooser d"
    "d_clientAddr d' = d_clientAddr d" "d_connectionType d' = d_connectionType d" "d_xdmcpFd d' = d_xdmcpFd d"
    "au_authorizations (d_auth d') = au_authorizations (d_auth d)" "au_authNum (d_auth d') = au_authNum (d_auth d)"
    "au_authFile (d_auth d') = au_authFile (d_auth d)"
proof -
  have "f d' = f d" if "\<And>d. f d = f (apart_from_resources d)" for f :: "display \<Rightarrow> 'z"
    using that [of d] that [of d'] assms by simp
  note * = this
  show "d_name d' = d_name d" "d_class d' = d_class d" "d_displayType d' = d_displayType d"
    "d_argv d' = d_argv d" "d_status d' = d_status d" "d_pid d' = d_pid d" "d_serverPid d' = d_serverPid d"
    "d_state d' = d_state d" "d_startTries d' = d_startTries d" "d_lastReserv d' = d_lastReserv d"
    "d_reservTries d' = d_reservTries d" "d_sessionID d' = d_sessionID d" "d_from d' = d_from d"
    "d_fromlen d' = d_fromlen d" "d_displayNumber d' = d_displayNumber d" "d_useChooser d' = d_useChooser d"
    "d_clientAddr d' = d_clientAddr d" "d_connectionType d' = d_connectionType d" "d_xdmcpFd d' = d_xdmcpFd d"
    by (rule *, simp add: apart_from_resources_def)+
  show "au_authorizations (d_auth d') = au_authorizations (d_auth d)" "au_authNum (d_auth d') = au_authNum (d_auth d)"
    "au_authFile (d_auth d') = au_authFile (d_auth d)"
    by (rule * [of "\<lambda>d. au_authorizations (d_auth d)"], simp add: apart_from_resources_def)
      (rule * [of "\<lambda>d. au_authNum (d_auth d)"], simp add: apart_from_resources_def,
       rule * [of "\<lambda>d. au_authFile (d_auth d)"], simp add: apart_from_resources_def)
qed

end
