(* ===== verification/Servers_File.thy ===== *)
theory Servers_File
  imports Dpylist Address
begin

text \<open>
  The servers file, \<open>xdm/file.c\<close>: one line names a display, its type and the command of its
  server, and either updates the display of that name or adds one.  Allocations ask
  \<open>x_calloc\<close> of \<open>ext\<close>: 0 for the words of the line, 1 for a new display, 2 for the copy of
  the argument vector.
\<close>

section \<open>Words and types\<close>

function split_words :: "string \<Rightarrow> string list" where
  "split_words s =
     (let a = dropWhile isspace s
      in if a = [] \<or> first_is CHR ''#'' a then []
         else (let w = takeWhile (\<lambda>c. c \<noteq> CHR ''#'' \<and> \<not> isspace c) a
               in w # split_words (drop (length w) a)))"
  by pat_completeness auto

termination
proof (relation "measure length", goal_cases)
  case (2 s a w)
  from 2(2) obtain c cs where a1: "a = c # cs" by (cases a) simp_all
  from 2(2) have "c \<noteq> CHR ''#''" unfolding a1 by (simp add: first_is_def)
  note a = a1 this
  have "\<not> isspace c" using 2(1) a(1) by (metis dropWhile_eq_Cons_conv)
  with a 2 have "0 < length w" by simp
  moreover have "length a \<le> length s" using 2(1) by (simp add: length_dropWhile_le)
  moreover have "0 < length a" using a by simp
  ultimately show ?case unfolding in_measure length_drop by linarith
qed simp

declare split_words.simps [simp del]

definition splitIntoWords :: "bool \<Rightarrow> string \<Rightarrow> string list option" where
  "splitIntoWords mem s =
     (let ws = split_words s in if ws = [] \<or> \<not> mem then None else Some ws)"

definition copyArgs :: "bool \<Rightarrow> string list \<Rightarrow> string list option" where
  "copyArgs mem args = (if mem then Some args else None)"

definition displayTypes :: "(string \<times> DisplayType) list" where
  "displayTypes =
     [(''local'', \<lparr>dt_location = Local, dt_lifetime = Permanent, dt_origin = FromFile\<rparr>),
      (''foreign'', \<lparr>dt_location = Foreign, dt_lifetime = Permanent, dt_origin = FromFile\<rparr>),
      (''dynamic'', \<lparr>dt_location = Local, dt_lifetime = Transient, dt_origin = FromFile\<rparr>)]"

text \<open>The type and \<open>usedDefault\<close>.\<close>

definition parseDisplayType :: "string \<Rightarrow> DisplayType \<times> bool" where
  "parseDisplayType s =
     (case find_first (\<lambda>m. fst m = s) displayTypes of
        Some (_, t) \<Rightarrow> (t, False)
      | None \<Rightarrow> (\<lparr>dt_location = Local, dt_lifetime = Permanent, dt_origin = FromFile\<rparr>, True))"

definition DisplayTypeMatch :: "DisplayType \<Rightarrow> DisplayType \<Rightarrow> bool" where
  "DisplayTypeMatch d1 d2 \<longleftrightarrow>
     dt_location d1 = dt_location d2 \<and> dt_lifetime d1 = dt_lifetime d2 \<and> dt_origin d1 = dt_origin d2"

section \<open>A line\<close>

text \<open>Type, class and argument vector of the words behind the name: when the first is no type
  and the second is one, the first is the class.\<close>

definition display_words ::
    "string \<Rightarrow> string list \<Rightarrow> DisplayType \<times> string option \<times> string list" where
  "display_words w1 rest =
     (let (t1, default1) = parseDisplayType w1
      in case rest of
           [] \<Rightarrow> (t1, None, rest)
         | w2 # rest2 \<Rightarrow>
             (if default1 then
                (let (t2, default2) = parseDisplayType w2
                 in if default2 then (t2, None, rest) else (t2, Some w1, rest2))
              else (t1, None, rest)))"

text \<open>The class of a display that is already there: \<open>strcmp\<close> is called on the old one, which
  may be NULL.\<close>

definition update_class :: "ext \<Rightarrow> string option \<Rightarrow> string option \<Rightarrow> c_error + string option" where
  "update_class E old cls =
     (case cls of
        None \<Rightarrow> Inr old
      | Some c \<Rightarrow>
          (case old of
             None \<Rightarrow> Inl NullDeref
           | Some c' \<Rightarrow>
               Inr (if c' = c then old
                    else (case x_strdup E c of None \<Rightarrow> old | Some n \<Rightarrow> Some n))))"

text \<open>The types that are acceptable only decide about a message.\<close>

definition ParseDisplay :: "ext \<Rightarrow> string \<Rightarrow> 'a world_scheme \<Rightarrow> c_error + 'a world_scheme" where
  "ParseDisplay E source w =
     (case splitIntoWords (x_calloc E 0) source of
        None \<Rightarrow> Inr w
      | Some args \<Rightarrow>
          (case args of
             name # w1 # ws \<Rightarrow>
               (let (displayType, cls, argv) = display_words w1 ws
                in case FindDisplayByName name (w_displays w) of
                     Some p \<Rightarrow>
                       bindE (get_display p w) (\<lambda>d.
                       bindE (update_class E (d_class d) cls) (\<lambda>c.
                         if d_argv d = None then Inl NullDeref
                         else Inr (put_display p
                           (d\<lparr>d_state := OldEntry, d_class := c, d_displayType := displayType,
                              d_argv := copyArgs (x_calloc E 2) argv\<rparr>) w)))
                   | None \<Rightarrow>
                       (case NewDisplay (x_calloc E 1) name cls w of
                          (None, _) \<Rightarrow> Inl NullDeref
                        | (Some p, w') \<Rightarrow>
                            bindE (get_display p w') (\<lambda>d.
                              Inr (put_display p (d\<lparr>d_displayType := displayType,
                                 d_argv := copyArgs (x_calloc E 2) argv\<rparr>) w'))))
           | _ \<Rightarrow> Inr w))"

section \<open>Facts\<close>

definition plain_server_word :: "string \<Rightarrow> bool" where
  "plain_server_word w \<longleftrightarrow> w \<noteq> [] \<and> (\<forall>c \<in> set w. c \<noteq> CHR ''#'' \<and> \<not> isspace c)"

text \<open>Words behind single blanks are split as they were written.\<close>

lemma takeWhile_word:
  "(\<forall>c \<in> set w. P c) \<Longrightarrow> (s = [] \<or> \<not> P (hd s)) \<Longrightarrow> takeWhile P (w @ s) = w"
  by (induction w) (auto, cases s, auto)

lemma split_words_line:
  "(\<forall>w \<in> set ws. plain_server_word w) \<Longrightarrow> split_words (concat (map (Cons CHR '' '') ws)) = ws"
proof (induction ws)
  case Nil
  then show ?case by (simp add: split_words.simps)
next
  case (Cons w ws)
  let ?t = "concat (map (Cons CHR '' '') ws)"
  have w: "w \<noteq> []" "\<forall>c \<in> set w. c \<noteq> CHR ''#'' \<and> \<not> isspace c"
    using Cons.prems by (auto simp: plain_server_word_def)
  then obtain c cs where c: "w = c # cs" "c \<noteq> CHR ''#''" "\<not> isspace c" by (cases w) auto
  have sp: "isspace CHR '' ''" by (simp add: isspace_def)
  have "dropWhile isspace (CHR '' '' # w @ ?t) = w @ ?t" using c sp by simp
  moreover have "takeWhile (\<lambda>c. c \<noteq> CHR ''#'' \<and> \<not> isspace c) (w @ ?t) = w"
    by (rule takeWhile_word) (use w sp in \<open>cases ws; auto\<close>)+
  moreover have "\<not> first_is CHR ''#'' (w @ ?t)" "w @ ?t \<noteq> []" using c by (simp_all add: first_is_def)
  moreover have "split_words ?t = ws" using Cons by simp
  ultimately show ?case by (subst split_words.simps) (simp add: Let_def)
qed

section \<open>Properties\<close>

text \<open>A line for a display that is already there changes its state, class, type and
  arguments and nothing else, and it crashes exactly when a class is given and the display has
  none, or the display has no arguments to free.\<close>

theorem ParseDisplay_existing:
  assumes "splitIntoWords (x_calloc E 0) source = Some (name # w1 # ws)"
    and "FindDisplayByName name (w_displays w) = Some p"
    and "st_get (w_displays w) p = Some d" "display_words w1 ws = (ty, cls, argv)"
  shows "case ParseDisplay E source w of
      Inl e \<Rightarrow> e = NullDeref \<and> (cls \<noteq> None \<and> d_class d = None \<or> d_argv d = None)
    | Inr w' \<Rightarrow> (cls = None \<or> d_class d \<noteq> None) \<and> d_argv d \<noteq> None \<and>
        (\<exists>c. update_class E (d_class d) cls = Inr c \<and> w' = put_display p (d\<lparr>d_state := OldEntry, d_class := c, d_displayType := ty,
           d_argv := copyArgs (x_calloc E 2) argv\<rparr>) w)"
proof -
  have "get_display p w = Inr d" using assms(3) by (simp add: get_display_Inr)
  with assms show ?thesis
    by (cases "update_class E (d_class d) cls")
      (auto simp: ParseDisplay_def update_class_def split: option.splits)
qed

definition sample_world :: world where
  "sample_world = snd (NewDisplay True '':0'' None \<lparr>w_displays = st_empty, w_trace = []\<rparr>)"

definition sample_server_world :: world where
  "sample_server_world = put_display 0 (new_display '':0'' None\<lparr>d_argv := Some [''/bin/X'']\<rparr>) sample_world"

lemma ParseDisplay_existing_witness:
  "ParseDisplay std_ext '':0 Tower local /bin/X'' sample_server_world = Inl NullDeref"
proof -
  have s: "splitIntoWords (x_calloc std_ext 0) '':0 Tower local /bin/X'' =
      Some ['':0'', ''Tower'', ''local'', ''/bin/X'']" by code_simp
  have f: "FindDisplayByName '':0'' (w_displays sample_server_world) = Some 0" by code_simp
  have g: "st_get (w_displays sample_server_world) 0 = Some (new_display '':0'' None\<lparr>d_argv := Some [''/bin/X'']\<rparr>)"
    by (simp add: sample_server_world_def sample_world_def NewDisplay_def st_new_def st_empty_def st_set_def st_get_def)
  have d: "display_words ''Tower'' [''local'', ''/bin/X''] =
      (\<lparr>dt_location = Local, dt_lifetime = Permanent, dt_origin = FromFile\<rparr>, Some ''Tower'', [''/bin/X''])"
    by code_simp
  have c: "d_class (new_display '':0'' None\<lparr>d_argv := Some [''/bin/X'']\<rparr>) = None"
    by (simp add: new_display_def)
  from ParseDisplay_existing [OF s f g d] show ?thesis
    unfolding c by (auto split: sum.splits)
qed

text \<open>A line of plain words adds a display with the name, class, type and arguments it
  states, in front of the others, which it leaves alone.\<close>

theorem ParseDisplay_new:
  assumes "\<forall>t. x_calloc E t" "\<forall>v \<in> set (name # w1 # ws). plain_server_word v"
    and "FindDisplayByName name (w_displays w) = None" "st_ok (w_displays w)"
    and "display_words w1 ws = (ty, cls, argv)"
  shows "\<exists>w'. ParseDisplay E (concat (map (Cons CHR '' '') (name # w1 # ws))) w = Inr w' \<and>
    FindDisplayByName name (w_displays w') = Some (st_next (w_displays w)) \<and>
    st_get (w_displays w') (st_next (w_displays w)) =
      Some ((new_display name cls)\<lparr>d_displayType := ty, d_argv := Some argv\<rparr>) \<and>
    (\<forall>q. q \<noteq> st_next (w_displays w) \<longrightarrow> st_get (w_displays w') q = st_get (w_displays w) q)"
proof -
  have split: "splitIntoWords True (concat (map (Cons CHR '' '') (name # w1 # ws))) = Some (name # w1 # ws)"
    unfolding splitIntoWords_def split_words_line [OF assms(2)] by simp
  let ?S = "w_displays w"
  let ?S1 = "snd (st_new (new_display name cls) ?S)"
  let ?d = "(new_display name cls)\<lparr>d_displayType := ty, d_argv := Some argv\<rparr>"
  have new: "NewDisplay True name cls w = (Some (st_next ?S), w\<lparr>w_displays := ?S1\<rparr>)"
    by (simp add: NewDisplay_def st_new_def)
  have get: "st_get ?S1 (st_next ?S) = Some (new_display name cls)" by (simp add: st_get_new)
  have "ParseDisplay E (concat (map (Cons CHR '' '') (name # w1 # ws))) w =
      Inr (put_display (st_next ?S) ?d (w\<lparr>w_displays := ?S1\<rparr>))"
    using assms(1,3,5) get unfolding ParseDisplay_def
    by (simp add: split new copyArgs_def get_display_def deref_def del: map_append list.map concat.simps)
  moreover have "FindDisplayByName name (st_set (st_next ?S) ?d ?S1) = Some (st_next ?S)"
    by (simp add: FindDisplayByName_def st_find_def st_set_def st_new_def new_display_def)
  ultimately show ?thesis
    using get by (auto simp: st_get_set st_get_new)
qed

lemma ParseDisplay_new_witness:
  "\<exists>w'. ParseDisplay std_ext '' :1 Tower local /bin/X :1'' sample_world = Inr w' \<and>
     FindDisplayByName '':1'' (w_displays w') = Some 1"
proof -
  have p: "\<forall>v \<in> set ['':1'', ''Tower'', ''local'', ''/bin/X'', '':1'']. plain_server_word v" by code_simp
  have f: "FindDisplayByName '':1'' (w_displays sample_world) = None" by code_simp
  have k: "st_ok (w_displays sample_world)"
    by (simp add: sample_world_def NewDisplay_def st_new_def st_empty_def st_ok_def st_ptrs_def)
  have n: "st_next (w_displays sample_world) = 1"
    by (simp add: sample_world_def NewDisplay_def st_new_def st_empty_def)
  have d: "display_words ''Tower'' [''local'', ''/bin/X'', '':1''] =
      (\<lparr>dt_location = Local, dt_lifetime = Permanent, dt_origin = FromFile\<rparr>, Some ''Tower'', [''/bin/X'', '':1''])"
    by code_simp
  have m: "\<forall>t. x_calloc std_ext t" by (simp add: std_ext_def)
  from ParseDisplay_new [OF m p f k d] show ?thesis by (auto simp: n)
qed

end
