(* ===== verification/Protodpy.thy ===== *)
theory Protodpy
  imports Store Address Xdmcplib
begin

text \<open>
  Displays between Request and Manage, \<open>xdm/protodpy.c\<close>: a list of records found by address
  and display number, from which entries older than \<open>PROTO_TIMEOUT\<close> are thrown out whenever
  a new one is made.
\<close>

section \<open>State\<close>

record protoDisplay =
  p_address :: sockaddr
  p_addrlen :: int
  p_date :: int
  p_displayNumber :: CARD16
  p_connectionType :: CARD16
  p_connectionAddress :: ARRAY8
  p_sessionID :: CARD32
  p_fileAuthorization :: "Xauth option"
  p_xdmcpAuthorization :: "Xauth option"
  p_authenticationName :: ARRAY8
  p_authenticationData :: ARRAY8
  p_key :: "CARD8 list"

type_synonym protoDisplays = "protoDisplay store"

abbreviation PROTO_TIMEOUT :: int where "PROTO_TIMEOUT \<equiv> 1800"

section \<open>Operations\<close>

definition proto_match :: "sockaddr \<Rightarrow> int \<Rightarrow> CARD16 \<Rightarrow> protoDisplay \<Rightarrow> bool" where
  "proto_match address addrlen displayNumber p \<longleftrightarrow>
     p_displayNumber p = displayNumber \<and> addressEqual address addrlen (p_address p) (p_addrlen p)"

definition FindProtoDisplay :: "sockaddr \<Rightarrow> int \<Rightarrow> CARD16 \<Rightarrow> protoDisplays \<Rightarrow> nat option" where
  "FindProtoDisplay address addrlen displayNumber S =
     st_find (proto_match address addrlen displayNumber) S"

definition DisposeProtoDisplay :: "nat \<Rightarrow> protoDisplays \<Rightarrow> protoDisplays" where
  "DisposeProtoDisplay p S = st_del p S"

text \<open>The dates are unsigned, so the difference is taken modulo 2 ^ 64.\<close>

definition proto_old :: "int \<Rightarrow> protoDisplay \<Rightarrow> bool" where
  "proto_old now p \<longleftrightarrow> p_date p < (now - PROTO_TIMEOUT) mod 2 ^ 64"

definition timeout_one :: "int \<Rightarrow> nat \<Rightarrow> protoDisplays \<Rightarrow> protoDisplays" where
  "timeout_one now p S =
     (case st_get S p of
        None \<Rightarrow> S
      | Some x \<Rightarrow> if proto_old now x then DisposeProtoDisplay p S else S)"

definition TimeoutProtoDisplays :: "int \<Rightarrow> protoDisplays \<Rightarrow> protoDisplays" where
  "TimeoutProtoDisplays now S = fold (timeout_one now) (st_ptrs S) S"

definition NewProtoDisplay ::
    "ext \<Rightarrow> int \<Rightarrow> sockaddr \<Rightarrow> int \<Rightarrow> CARD16 \<Rightarrow> CARD16 \<Rightarrow> ARRAY8 \<Rightarrow> CARD32 \<Rightarrow> protoDisplays \<Rightarrow>
     nat option \<times> protoDisplays" where
  "NewProtoDisplay E date address addrlen displayNumber connectionType connectionAddress sessionID S =
     (let S' = TimeoutProtoDisplays date S
      in if \<not> x_calloc E (length (st_nodes S')) then (None, S')
         else case x_array8_copy E connectionAddress of
                None \<Rightarrow> (None, S')
              | Some ca \<Rightarrow>
                  map_prod Some id (st_new
                    \<lparr>p_address = address, p_addrlen = addrlen, p_date = date mod 2 ^ 64,
                     p_displayNumber = displayNumber, p_connectionType = connectionType,
                     p_connectionAddress = ca, p_sessionID = sessionID,
                     p_fileAuthorization = None, p_xdmcpAuthorization = None,
                     p_authenticationName = [], p_authenticationData = [],
                     p_key = replicate 8 0\<rparr> S'))"

section \<open>Facts\<close>

lemma timeout_one_ok: "st_ok S \<Longrightarrow> st_ok (timeout_one now p S)"
  by (auto simp: timeout_one_def DisposeProtoDisplay_def nodes.inv_del split: option.splits)

lemma timeout_fold:
  "st_ok S \<Longrightarrow> st_ok (fold (timeout_one now) ps S) \<and>
    st_get (fold (timeout_one now) ps S) q =
      (if q \<in> set ps \<and> (\<exists>x. st_get S q = Some x \<and> proto_old now x) then None else st_get S q)"
proof (induction ps arbitrary: S)
  case (Cons p ps)
  have "st_ok (timeout_one now p S)" using Cons.prems by (rule timeout_one_ok)
  note IH = Cons.IH [OF this]
  have "st_get (timeout_one now p S) q =
      (if q = p \<and> (\<exists>x. st_get S q = Some x \<and> proto_old now x) then None else st_get S q)"
    using Cons.prems
    by (auto simp: timeout_one_def DisposeProtoDisplay_def nodes.get_del split: option.splits)
  with IH show ?case by auto
qed simp

lemma TimeoutProtoDisplays_get:
  "st_ok S \<Longrightarrow> st_get (TimeoutProtoDisplays now S) q =
    (case st_get S q of None \<Rightarrow> None | Some x \<Rightarrow> if proto_old now x then None else Some x)"
  using timeout_fold [of S now "st_ptrs S" q] st_get_ptrs [of S q]
  by (auto simp: TimeoutProtoDisplays_def split: option.splits)

lemma TimeoutProtoDisplays_ok: "st_ok S \<Longrightarrow> st_ok (TimeoutProtoDisplays now S)"
  using timeout_fold [of S now "st_ptrs S"] by (simp add: TimeoutProtoDisplays_def)

lemma NewProtoDisplay_ok:
  "st_ok S \<Longrightarrow> st_ok (snd (NewProtoDisplay E t a l n ct ca sid S))"
  by (auto simp: NewProtoDisplay_def Let_def TimeoutProtoDisplays_ok nodes.inv_new split: option.splits)

lemma NewProtoDisplay_result:
  assumes "st_ok S" "ext_ok E" "wf_sockaddr a"
    and "NewProtoDisplay E t a l n ct ca sid S = (Some p, S')"
  shows "st_ok S' \<and> FindProtoDisplay a l n S' = Some p \<and>
    (\<forall>q. q \<noteq> p \<longrightarrow> st_get S' q =
       (case st_get S q of None \<Rightarrow> None | Some x \<Rightarrow> if proto_old t x then None else Some x)) \<and>
    (\<exists>x. st_get S' p = Some x \<and> p_sessionID x = sid \<and> p_connectionType x = ct \<and>
       p_connectionAddress x = ca \<and> p_displayNumber x = n \<and> p_fileAuthorization x = None)"
proof -
  let ?T = "TimeoutProtoDisplays t S"
  obtain x where new: "(p, S') = st_new x ?T" and x: "p_sessionID x = sid" "p_connectionType x = ct"
      "p_connectionAddress x = ca" "p_displayNumber x = n" "p_address x = a" "p_addrlen x = l"
      "p_fileAuthorization x = None"
  proof -
    obtain c where c: "x_array8_copy E ca = Some c"
      using assms(4) by (auto simp: NewProtoDisplay_def Let_def split: option.splits if_splits)
    with assms(2) have "c = ca" by (rule ext_ok_copy)
    let ?x = "\<lparr>p_address = a, p_addrlen = l, p_date = t mod 2 ^ 64, p_displayNumber = n,
      p_connectionType = ct, p_connectionAddress = ca, p_sessionID = sid,
      p_fileAuthorization = None, p_xdmcpAuthorization = None, p_authenticationName = [],
      p_authenticationData = [], p_key = replicate 8 0\<rparr>"
    have "(p, S') = st_new ?x ?T"
      using assms(4) c \<open>c = ca\<close>
      by (auto simp: NewProtoDisplay_def Let_def map_prod_def split: prod.splits if_splits)
    then show thesis by (rule that) simp_all
  qed
  have ok: "st_ok ?T" using assms(1) by (rule TimeoutProtoDisplays_ok)
  have S': "S' = snd (st_new x ?T)" "p = fst (st_new x ?T)" using new by (metis snd_conv, metis fst_conv)
  have "FindProtoDisplay a l n S' = Some p"
    using assms(3) x by (simp add: S' FindProtoDisplay_def st_find_def st_new_def proto_match_def
        addressEqual_refl)
  moreover have "st_get S' q = st_get ?T q" if "q \<noteq> p" for q
    using that unfolding S' by (simp add: nodes.get_new [OF ok])
  moreover have "st_get S' p = Some x" unfolding S' by (simp add: nodes.get_new [OF ok])
  moreover have "st_ok S'" unfolding S' by (rule nodes.inv_new [OF ok])
  ultimately show ?thesis using x TimeoutProtoDisplays_get [OF assms(1)] by auto
qed

text \<open>With memory to spare a new entry is made.\<close>

lemma NewProtoDisplay_made:
  "\<forall>i. x_calloc E i \<Longrightarrow> x_array8_copy E ca = Some c \<Longrightarrow>
    \<exists>p S'. NewProtoDisplay E t a l n ct ca sid S = (Some p, S')"
  by (simp add: NewProtoDisplay_def Let_def map_prod_def split: prod.split)

text \<open>Once it is disposed of there is no entry for its address and number.\<close>

lemma NewProtoDisplay_disposed:
  assumes "st_ok S" "ext_ok E" "wf_sockaddr a" "FindProtoDisplay a l n S = None"
    and "NewProtoDisplay E t a l n ct ca sid S = (Some p, S')"
  shows "FindProtoDisplay a l n (DisposeProtoDisplay p S') = None"
proof -
  from NewProtoDisplay_result [OF assms(1-3,5)] have S': "st_ok S'"
    "\<And>q. q \<noteq> p \<Longrightarrow> st_get S' q =
       (case st_get S q of None \<Rightarrow> None | Some x \<Rightarrow> if proto_old t x then None else Some x)" by auto
  have "st_get S q = Some x" if "st_get (st_del p S') q = Some x" for q x
    using that S' by (auto simp: nodes.get_del [OF S'(1)] split: if_splits option.splits)
  then show ?thesis
    using assms(4) unfolding FindProtoDisplay_def DisposeProtoDisplay_def
      st_find_None_iff [OF assms(1)] st_find_None_iff [OF nodes.inv_del [OF S'(1)]] by blast
qed

section \<open>Properties\<close>

text \<open>Making a new entry throws out exactly the entries that are too old, keeps the
  others as they were, and the new one can be found under its address and number at once.\<close>

theorem NewProtoDisplay_spec:
  assumes "st_ok S" "ext_ok E" "wf_sockaddr a"
    and "NewProtoDisplay E t a l n ct ca sid S = (Some p, S')"
  shows "st_ok S' \<and> FindProtoDisplay a l n S' = Some p \<and>
    (\<forall>q. q \<noteq> p \<longrightarrow> st_get S' q =
       (case st_get S q of None \<Rightarrow> None | Some x \<Rightarrow> if proto_old t x then None else Some x)) \<and>
    (\<exists>x. st_get S' p = Some x \<and> p_sessionID x = sid \<and> p_connectionType x = ct \<and>
       p_connectionAddress x = ca)"
  using NewProtoDisplay_result [OF assms] by blast

definition sample_protos :: protoDisplays where
  "sample_protos = snd (st_new
     \<lparr>p_address = SockIn [0, 177] [10, 0, 0, 7], p_addrlen = 16, p_date = 1000,
      p_displayNumber = 0, p_connectionType = 0, p_connectionAddress = [10, 0, 0, 7],
      p_sessionID = 5, p_fileAuthorization = None, p_xdmcpAuthorization = None,
      p_authenticationName = [], p_authenticationData = [], p_key = replicate 8 0\<rparr> st_empty)"

lemma st_ok_sample_protos: "st_ok sample_protos"
  unfolding sample_protos_def by (rule nodes.inv_new) (rule st_ok_empty)

lemma NewProtoDisplay_spec_witness:
  "st_get (snd (NewProtoDisplay std_ext 4000 (SockIn [0, 177] [10, 0, 0, 8]) 16 0 0 [10, 0, 0, 8] 6
     sample_protos)) 0 = None"
proof -
  have r: "NewProtoDisplay std_ext 4000 (SockIn [0, 177] [10, 0, 0, 8]) 16 0 0 [10, 0, 0, 8] 6 sample_protos =
      (Some 1, snd (NewProtoDisplay std_ext 4000 (SockIn [0, 177] [10, 0, 0, 8]) 16 0 0 [10, 0, 0, 8] 6
        sample_protos))"
    by (simp add: NewProtoDisplay_def TimeoutProtoDisplays_def sample_protos_def st_new_def st_empty_def
        timeout_one_def st_get_def st_ptrs_def proto_old_def DisposeProtoDisplay_def st_del_def std_ext_def)
  have old: "\<exists>x. st_get sample_protos 0 = Some x \<and> proto_old 4000 x"
    by (simp add: sample_protos_def st_new_def st_empty_def st_get_def proto_old_def)
  have wf: "wf_sockaddr (SockIn [0, 177] [10, 0, 0, 8])" by simp
  have "\<forall>q. q \<noteq> 1 \<longrightarrow> st_get (snd (NewProtoDisplay std_ext 4000 (SockIn [0, 177] [10, 0, 0, 8]) 16 0 0
      [10, 0, 0, 8] 6 sample_protos)) q =
    (case st_get sample_protos q of None \<Rightarrow> None | Some x \<Rightarrow> if proto_old 4000 x then None else Some x)"
    using NewProtoDisplay_spec [OF st_ok_sample_protos ext_ok_std wf r] by blast
  then show ?thesis using old by auto
qed

end
