(* ===== verification/Genauth.thy ===== *)
theory Genauth
  imports Prelude
begin

text \<open>
  Generating authorization data, \<open>xdm/genauth.c\<close>, for a build without \<open>arc4random\<close>: the
  entropy pool, the MD5-like mixing function, the key of the generator and the generator
  itself.  The DES routines of libXdmcp (\<open>_XdmcpAuthSetup\<close>, \<open>_XdmcpAuthDoIt\<close>,
  \<open>_XdmcpWrapperToOddParity\<close>), the random device, the prngd daemon, the files read for
  entropy and the clock are parameters.
\<close>

section \<open>The entropy pool\<close>

record entropy =
  epool :: "CARD32 list"
  erotate :: CARD32
  eadd_ptr :: CARD32

definition entropy_init :: entropy where
  "entropy_init = \<lparr>epool = replicate 32 0, erotate = 0, eadd_ptr = 0\<rparr>"

definition twist_table :: "CARD32 list" where
  "twist_table = [0, 0x3B6E20C8, 0x76DC4190, 0x4DB26158,
     0xEDB88320, 0xD6D6A3E8, 0x9B64C2B0, 0xA00AE278]"

text \<open>The rotation \<open>w<<r | w>>(32-r)\<close>.  For a rotation of zero the right shift is by the
  width of its operand, which C leaves undefined: \<open>shr32\<close> is what the machine makes of it.\<close>

definition rotate_word :: "(CARD32 \<Rightarrow> CARD32) \<Rightarrow> CARD32 \<Rightarrow> CARD32 \<Rightarrow> CARD32" where
  "rotate_word shr32 w r =
     push_bit (unat r) w OR (if r = 0 then shr32 w else drop_bit (32 - unat r) w)"

definition add_word :: "(CARD32 \<Rightarrow> CARD32) \<Rightarrow> CARD32 \<Rightarrow> entropy \<Rightarrow> entropy" where
  "add_word shr32 w0 e =
     (let i = (eadd_ptr e - 1) AND 31;
          new_rotate = (if i \<noteq> 0 then erotate e + 7 else erotate e + 14);
          p = (\<lambda>k. epool e ! unat k);
          w = rotate_word shr32 w0 (erotate e) XOR p ((i + 26) AND 31) XOR p ((i + 20) AND 31)
                XOR p ((i + 14) AND 31) XOR p ((i + 7) AND 31) XOR p ((i + 1) AND 31) XOR p i
      in \<lparr>epool = (epool e)[unat i := drop_bit 3 w XOR twist_table ! unat (w AND 7)],
          erotate = new_rotate AND 31, eadd_ptr = i\<rparr>)"

definition add_entropy :: "(CARD32 \<Rightarrow> CARD32) \<Rightarrow> CARD32 list \<Rightarrow> entropy \<Rightarrow> entropy" where
  "add_entropy shr32 ws e = fold (add_word shr32) ws e"

section \<open>The mixing function\<close>

type_synonym md5_state = "CARD32 \<times> CARD32 \<times> CARD32 \<times> CARD32"

definition F1 :: "CARD32 \<Rightarrow> CARD32 \<Rightarrow> CARD32 \<Rightarrow> CARD32" where
  "F1 x y z = z XOR (x AND (y XOR z))"

definition F2 :: "CARD32 \<Rightarrow> CARD32 \<Rightarrow> CARD32 \<Rightarrow> CARD32" where
  "F2 x y z = F1 z x y"

definition F3 :: "CARD32 \<Rightarrow> CARD32 \<Rightarrow> CARD32 \<Rightarrow> CARD32" where
  "F3 x y z = x XOR y XOR z"

definition F4 :: "CARD32 \<Rightarrow> CARD32 \<Rightarrow> CARD32 \<Rightarrow> CARD32" where
  "F4 x y z = y XOR (x OR NOT z)"

definition pmd5_fun :: "nat \<Rightarrow> CARD32 \<Rightarrow> CARD32 \<Rightarrow> CARD32 \<Rightarrow> CARD32" where
  "pmd5_fun k = (if k = 1 then F1 else if k = 2 then F2 else if k = 3 then F3 else F4)"

text \<open>One step.  The variables \<open>a\<close>, \<open>b\<close>, \<open>c\<close>, \<open>d\<close> take turns as \<open>w\<close>; the model rotates
  the tuple instead, which is back in place after four steps.\<close>

definition pmd5_step :: "CARD32 list \<Rightarrow> nat \<times> nat \<times> CARD32 \<times> nat \<Rightarrow> md5_state \<Rightarrow> md5_state" where
  "pmd5_step inp = (\<lambda>(f, i, k, s) (w, x, y, z).
     let w1 = w + ((pmd5_fun f x y z + (inp ! i + k)) AND 0xFFFFFFFF);
         w2 = push_bit s w1 OR drop_bit (32 - s) w1
     in (z, w2 + x, x, y))"

text \<open>The sixty-four steps: function, index of the input word, constant and shift.\<close>

definition pmd5_steps :: "(nat \<times> nat \<times> CARD32 \<times> nat) list" where
  "pmd5_steps =
    [(1, 0, 0xD76AA478, 7), (1, 1, 0xE8C7B756, 12), (1, 2, 0x242070DB, 17), (1, 3, 0xC1BDCEEE, 22),
     (1, 4, 0xF57C0FAF, 7), (1, 5, 0x4787C62A, 12), (1, 6, 0xA8304613, 17), (1, 7, 0xFD469501, 22),
     (1, 8, 0x698098D8, 7), (1, 9, 0x8B44F7AF, 12), (1, 10, 0xFFFF5BB1, 17), (1, 11, 0x895CD7BE, 22),
     (1, 12, 0x6B901122, 7), (1, 13, 0xFD987193, 12), (1, 14, 0xA679438E, 17), (1, 15, 0x49B40821, 22),
     (2, 1, 0xF61E2562, 5), (2, 6, 0xC040B340, 9), (2, 11, 0x265E5A51, 14), (2, 0, 0xE9B6C7AA, 20),
     (2, 5, 0xD62F105D, 5), (2, 10, 0x02441453, 9), (2, 15, 0xD8A1E681, 14), (2, 4, 0xE7D3FBC8, 20),
     (2, 9, 0x21E1CDE6, 5), (2, 14, 0xC33707D6, 9), (2, 3, 0xF4D50D87, 14), (2, 8, 0x455A14ED, 20),
     (2, 13, 0xA9E3E905, 5), (2, 2, 0xFCEFA3F8, 9), (2, 7, 0x676F02D9, 14), (2, 12, 0x8D2A4C8A, 20),
     (3, 5, 0xFFFA3942, 4), (3, 8, 0x8771F681, 11), (3, 11, 0x6D9D6122, 16), (3, 14, 0xFDE5380C, 23),
     (3, 1, 0xA4BEEA44, 4), (3, 4, 0x4BDECFA9, 11), (3, 7, 0xF6BB4B60, 16), (3, 10, 0xBEBFBC70, 23),
     (3, 13, 0x289B7EC6, 4), (3, 0, 0xEAA127FA, 11), (3, 3, 0xD4EF3085, 16), (3, 6, 0x04881D05, 23),
     (3, 9, 0xD9D4D039, 4), (3, 12, 0xE6DB99E5, 11), (3, 15, 0x1FA27CF8, 16), (3, 2, 0xC4AC5665, 23),
     (4, 0, 0xF4292244, 6), (4, 7, 0x432AFF97, 10), (4, 14, 0xAB9423A7, 15), (4, 5, 0xFC93A039, 21),
     (4, 12, 0x655B59C3, 6), (4, 3, 0x8F0CCC92, 10), (4, 10, 0xFFEFF47D, 15), (4, 1, 0x85845DD1, 21),
     (4, 8, 0x6FA87E4F, 6), (4, 15, 0xFE2CE6E0, 10), (4, 6, 0xA3014314, 15), (4, 13, 0x4E0811A1, 21),
     (4, 4, 0xF7537E82, 6), (4, 11, 0xBD3AF235, 10), (4, 2, 0x2AD7D2BB, 15), (4, 9, 0xEB86D391, 21)]"

definition pmd5_hash :: "md5_state \<Rightarrow> CARD32 list \<Rightarrow> md5_state" where
  "pmd5_hash out inp =
     (let (oa, ob, oc, od) = out; (a, b, c, d) = fold (pmd5_step inp) pmd5_steps out
      in (oa + a, ob + b, oc + c, od + d))"

section \<open>The generator\<close>

text \<open>The DES routines: encryption under a key and the spreading of 56 bits to eight bytes
  with parity.\<close>

record des =
  des_doit :: "CARD8 list \<Rightarrow> CARD8 list \<Rightarrow> CARD8 list"
  des_odd_parity :: "CARD8 list \<Rightarrow> CARD8 list"

record generator =
  g_entropy :: entropy
  g_key :: "CARD8 list"
  g_inited :: bool

definition longtochars :: "64 word \<Rightarrow> CARD8 list" where
  "longtochars l = [ucast (drop_bit 24 l), ucast (drop_bit 16 l), ucast (drop_bit 8 l), ucast l]"

text \<open>The sources of the key in the order they are tried: the random device, the daemon, and
  the pool stirred with \<open>pre\<close>, the words \<open>AddPreGetEntropy\<close> enters.  \<open>sum0\<close> is what the
  uninitialised array \<open>sum\<close> holds.\<close>

definition InitXdmcpWrapper ::
    "des \<Rightarrow> (CARD32 \<Rightarrow> CARD32) \<Rightarrow> CARD8 list option \<Rightarrow> CARD8 list option \<Rightarrow> CARD32 list \<Rightarrow>
     md5_state \<Rightarrow> generator \<Rightarrow> generator" where
  "InitXdmcpWrapper des shr32 device prngd pre sum0 g =
     (case device of
        Some k \<Rightarrow> g\<lparr>g_key := des_odd_parity des (k[0 := 0])\<rparr>
      | None \<Rightarrow>
          (case prngd of
             Some k \<Rightarrow> g\<lparr>g_key := des_odd_parity des (k[0 := 0])\<rparr>
           | None \<Rightarrow>
               (let e1 = add_entropy shr32 pre (g_entropy g);
                    s1 = pmd5_hash sum0 (take 16 (epool e1));
                    e2 = add_entropy shr32 [fst s1] e1;
                    s2 = pmd5_hash s1 (drop 16 (epool e2));
                    e3 = add_entropy shr32 [fst (snd (snd s2))] e2;
                    tmpkey = longtochars (ucast (fst s2)) @ longtochars (ucast (fst (snd s2)))
                in g\<lparr>g_entropy := e3, g_key := des_odd_parity des (tmpkey[0 := 0])\<rparr>)))"

text \<open>The inner loop: eight encryptions, each of which decides one bit.\<close>

definition gen_bit :: "des \<Rightarrow> CARD8 list \<Rightarrow> nat \<Rightarrow> CARD8 list \<times> CARD8 \<Rightarrow> CARD8 list \<times> CARD8" where
  "gen_bit des key b = (\<lambda>(data, byte).
     let data' = des_doit des key data
     in (data', if bit (unat (data' ! 0) + unat (data' ! 1)) 2 then byte OR push_bit b 1 else byte))"

definition gen_byte :: "des \<Rightarrow> CARD8 list \<Rightarrow> CARD8 list \<Rightarrow> CARD8 list \<times> CARD8" where
  "gen_byte des key data = fold (gen_bit des key) [0..<8] (data, 0)"

primrec gen_bytes :: "des \<Rightarrow> CARD8 list \<Rightarrow> nat \<Rightarrow> CARD8 list \<Rightarrow> CARD8 list" where
  "gen_bytes des key 0 data = []"
| "gen_bytes des key (Suc n) data =
     (let (data', byte) = gen_byte des key data in byte # gen_bytes des key n data')"

text \<open>The result is the bytes stored through \<open>auth\<close> and the new state; the function always
  returns 1.  \<open>usec\<close> and \<open>sec\<close> are the clock.\<close>

definition GenerateAuthData ::
    "des \<Rightarrow> (CARD32 \<Rightarrow> CARD32) \<Rightarrow> CARD8 list option \<Rightarrow> CARD8 list option \<Rightarrow> CARD32 list \<Rightarrow>
     md5_state \<Rightarrow> 64 word \<Rightarrow> 64 word \<Rightarrow> nat \<Rightarrow> generator \<Rightarrow> CARD8 list \<times> generator" where
  "GenerateAuthData des shr32 device prngd pre sum0 usec sec len g =
     (let g' = (if g_inited g then g
                else (InitXdmcpWrapper des shr32 device prngd pre sum0 g)\<lparr>g_inited := True\<rparr>)
      in (gen_bytes des (g_key g') len (longtochars usec @ longtochars sec), g'))"

section \<open>MD5 as RFC 1321 states it\<close>

definition md5_T :: "CARD32 list" where
  "md5_T =
    [0xD76AA478, 0xE8C7B756, 0x242070DB, 0xC1BDCEEE, 0xF57C0FAF, 0x4787C62A, 0xA8304613, 0xFD469501,
     0x698098D8, 0x8B44F7AF, 0xFFFF5BB1, 0x895CD7BE, 0x6B901122, 0xFD987193, 0xA679438E, 0x49B40821,
     0xF61E2562, 0xC040B340, 0x265E5A51, 0xE9B6C7AA, 0xD62F105D, 0x02441453, 0xD8A1E681, 0xE7D3FBC8,
     0x21E1CDE6, 0xC33707D6, 0xF4D50D87, 0x455A14ED, 0xA9E3E905, 0xFCEFA3F8, 0x676F02D9, 0x8D2A4C8A,
     0xFFFA3942, 0x8771F681, 0x6D9D6122, 0xFDE5380C, 0xA4BEEA44, 0x4BDECFA9, 0xF6BB4B60, 0xBEBFBC70,
     0x289B7EC6, 0xEAA127FA, 0xD4EF3085, 0x04881D05, 0xD9D4D039, 0xE6DB99E5, 0x1FA27CF8, 0xC4AC5665,
     0xF4292244, 0x432AFF97, 0xAB9423A7, 0xFC93A039, 0x655B59C3, 0x8F0CCC92, 0xFFEFF47D, 0x85845DD1,
     0x6FA87E4F, 0xFE2CE6E0, 0xA3014314, 0x4E0811A1, 0xF7537E82, 0xBD3AF235, 0x2AD7D2BB, 0xEB86D391]"

definition md5_shift :: "nat \<Rightarrow> nat" where
  "md5_shift i = [[7, 12, 17, 22], [5, 9, 14, 20], [4, 11, 16, 23], [6, 10, 15, 21]] ! (i div 16) ! (i mod 4)"

definition md5_index :: "nat \<Rightarrow> nat" where
  "md5_index i = [i, 5 * i + 1, 3 * i + 5, 7 * i] ! (i div 16) mod 16"

definition md5_fun :: "nat \<Rightarrow> CARD32 \<Rightarrow> CARD32 \<Rightarrow> CARD32 \<Rightarrow> CARD32" where
  "md5_fun r x y z =
     (if r = 0 then (x AND y) OR (NOT x AND z)
      else if r = 1 then (x AND z) OR (y AND NOT z)
      else if r = 2 then x XOR y XOR z
      else y XOR (x OR NOT z))"

definition md5_round :: "CARD32 list \<Rightarrow> nat \<Rightarrow> md5_state \<Rightarrow> md5_state" where
  "md5_round block i = (\<lambda>(a, b, c, d).
     (d, b + word_rotl (md5_shift i) (a + md5_fun (i div 16) b c d + block ! md5_index i + md5_T ! i), b, c))"

definition md5_compress :: "md5_state \<Rightarrow> CARD32 list \<Rightarrow> md5_state" where
  "md5_compress out block =
     (let (oa, ob, oc, od) = out; (a, b, c, d) = fold (md5_round block) [0..<64] out
      in (oa + a, ob + b, oc + c, od + d))"

section \<open>Facts\<close>

lemma shift_pair_rotl:
  assumes "0 < s" "s < 32"
  shows "push_bit s w OR drop_bit (32 - s) w = word_rotl s (w :: CARD32)"
proof (rule bit_word_eqI)
  fix n assume "n < LENGTH(32)"
  then have n: "n < 32" by simp
  have lhs: "bit (push_bit s w OR drop_bit (32 - s) w) n \<longleftrightarrow>
      (s \<le> n \<and> bit w (n - s)) \<or> bit w (32 - s + n)"
    using n by (simp add: bit_or_iff bit_push_bit_iff bit_drop_bit_eq)
  have rhs: "bit (word_rotl s w) n \<longleftrightarrow> bit w ((n + (32 - s)) mod 32)"
    using n assms by (simp add: bit_word_rotl_iff)
  show "bit (push_bit s w OR drop_bit (32 - s) w) n \<longleftrightarrow> bit (word_rotl s w) n"
  proof (cases "s \<le> n")
    case True
    have "(n + (32 - s)) mod 32 = n - s" using True n assms by (simp add: mod_if)
    moreover have "\<not> bit w (32 - s + n)"
      using bit_imp_le_length [of w "32 - s + n"] True n by auto
    ultimately show ?thesis unfolding lhs rhs using True by simp
  next
    case False
    then have "(n + (32 - s)) mod 32 = 32 - s + n" using n assms by simp
    then show ?thesis unfolding lhs rhs using False by simp
  qed
qed

lemma pmd5_fun_md5: "pmd5_fun (Suc r) x y z = md5_fun r x y z"
  by (rule bit_word_eqI)
    (auto simp: pmd5_fun_def md5_fun_def F1_def F2_def F3_def F4_def bit_simps)

lemma pmd5_step_md5:
  assumes "0 < md5_shift i" "md5_shift i < 32"
  shows "pmd5_step inp (Suc (i div 16), md5_index i, md5_T ! i, md5_shift i) st = md5_round inp i st"
proof -
  obtain a b c d where st: "st = (a, b, c, d)" by (metis surj_pair)
  have mask: "v AND 0xFFFFFFFF = v" for v :: CARD32
  proof -
    have "(0xFFFFFFFF :: CARD32) = - 1" by simp
    then show ?thesis by (simp only: and.right_neutral)
  qed
  show ?thesis
    by (simp add: st pmd5_step_def md5_round_def pmd5_fun_md5 shift_pair_rotl [OF assms] mask algebra_simps)
qed

lemma pmd5_steps_md5:
  "pmd5_steps = map (\<lambda>i. (Suc (i div 16), md5_index i, md5_T ! i, md5_shift i)) [0..<64]"
  by code_simp

lemma md5_shift_range: "i < 64 \<Longrightarrow> 0 < md5_shift i \<and> md5_shift i < 32"
proof -
  have "\<forall>i \<in> set [0..<64]. 0 < md5_shift i \<and> md5_shift i < 32" by code_simp
  then show "i < 64 \<Longrightarrow> 0 < md5_shift i \<and> md5_shift i < 32" by simp
qed

definition pool_ok :: "entropy \<Rightarrow> bool" where
  "pool_ok e \<longleftrightarrow> length (epool e) = 32 \<and> unat (erotate e) < 32 \<and> unat (eadd_ptr e) < 32"

lemma and31: "unat (x AND 31 :: CARD32) < 32"
proof -
  have "x AND 31 \<le> 31" by (rule word_and_le1)
  then have "unat (x AND 31) \<le> unat (31 :: CARD32)" by (simp only: word_le_nat_alt)
  then show ?thesis by simp
qed

lemma add_word_ok: "pool_ok e \<Longrightarrow> pool_ok (add_word shr32 w e)"
  by (simp add: pool_ok_def add_word_def Let_def and31)

lemma gen_bits_iterate:
  "fst (fold (gen_bit des key) [0..<n] (data, 0)) = (des_doit des key ^^ n) data"
  by (induction n) (auto simp: gen_bit_def Let_def split_def)

lemma gen_bit_snd:
  "snd (gen_bit des key n st) =
    (let d = des_doit des key (fst st)
     in if bit (unat (d ! 0) + unat (d ! 1)) 2 then snd st OR push_bit n 1 else snd st)"
  by (simp add: gen_bit_def Let_def split_def)

lemma gen_bits_bit:
  "n \<le> 8 \<Longrightarrow> j < 8 \<Longrightarrow> bit (snd (fold (gen_bit des key) [0..<n] (data, 0))) j \<longleftrightarrow>
     j < n \<and> (let d = (des_doit des key ^^ Suc j) data in bit (unat (d ! 0) + unat (d ! 1)) 2)"
proof (induction n)
  case (Suc n)
  let ?F = "fold (gen_bit des key) [0..<n] (data, 0)"
  let ?d = "(des_doit des key ^^ Suc n) data"
  have step: "snd (fold (gen_bit des key) [0..<Suc n] (data, 0)) =
      (if bit (unat (?d ! 0) + unat (?d ! 1)) 2 then snd ?F OR push_bit n 1 else snd ?F)"
    by (simp add: gen_bit_snd gen_bits_iterate Let_def)
  have one: "bit ((2 :: CARD8) ^ n) j \<longleftrightarrow> j = n"
    using Suc.prems by (auto simp: bit_exp_iff possible_bit_word)
  have IH: "bit (snd ?F) j \<longleftrightarrow>
      j < n \<and> (let d = (des_doit des key ^^ Suc j) data in bit (unat (d ! 0) + unat (d ! 1)) 2)"
    using Suc by simp
  show ?case unfolding step using IH one
    by (cases "j = n") (auto simp: bit_or_iff less_Suc_eq Let_def)
qed simp

lemma gen_byte_data: "fst (gen_byte des key data) = (des_doit des key ^^ 8) data"
  unfolding gen_byte_def by (rule gen_bits_iterate)

lemma length_gen_bytes: "length (gen_bytes des key n data) = n"
  by (induction n arbitrary: data) (auto simp: Let_def split: prod.splits)

lemma gen_bytes_bit:
  "i < n \<Longrightarrow> j < 8 \<Longrightarrow> bit (gen_bytes des key n data ! i) j \<longleftrightarrow>
    (let d = (des_doit des key ^^ (8 * i + Suc j)) data in bit (unat (d ! 0) + unat (d ! 1)) 2)"
proof (induction n arbitrary: i data)
  case (Suc n)
  show ?case
  proof (cases i)
    case 0
    with Suc.prems gen_bits_bit [of 8 j des key data] show ?thesis
      by (simp add: Let_def split_def gen_byte_def del: funpow.simps upt_Suc)
  next
    case (Suc k)
    have e: "8 * i + Suc j = (8 * k + Suc j) + 8" using Suc by simp
    have "(des_doit des key ^^ (8 * i + Suc j)) data =
        (des_doit des key ^^ (8 * k + Suc j)) ((des_doit des key ^^ 8) data)"
      unfolding e funpow_add by (rule comp_apply)
    with Suc Suc.IH [of k "(des_doit des key ^^ 8) data"] Suc.prems show ?thesis
      by (simp add: Let_def split_def gen_byte_data del: funpow.simps)
  qed
qed simp

section \<open>Properties\<close>

text \<open>C32: the mixing function is the compression function of MD5.\<close>

theorem pmd5_hash_md5: "pmd5_hash out inp = md5_compress out inp"
proof -
  have "fold (pmd5_step inp) pmd5_steps st = fold (md5_round inp) [0..<64] st" for st
    unfolding pmd5_steps_md5 fold_map
    by (rule fold_cong) (auto simp: fun_eq_iff pmd5_step_md5 md5_shift_range)
  then show ?thesis by (simp add: pmd5_hash_def md5_compress_def)
qed

text \<open>entering words keeps the pool, the rotation and the position in range, so that no
  access to the pool or to the table leaves its array, whatever an over-wide shift yields.\<close>

theorem add_entropy_bounds:
  assumes "pool_ok e"
  shows "pool_ok (add_entropy shr32 ws e) \<and>
    (\<forall>k. unat (k AND 31 :: CARD32) < length (epool e)) \<and>
    (\<forall>w. unat (w AND 7 :: CARD32) < length twist_table)"
proof -
  have "pool_ok (fold (add_word shr32) ws e)"
    using assms by (induction ws arbitrary: e) (simp_all add: add_word_ok)
  moreover have "unat (w AND 7) < 8" for w :: CARD32
  proof -
    have "w AND 7 \<le> 7" by (rule word_and_le1)
    then have "unat (w AND 7) \<le> unat (7 :: CARD32)" by (simp only: word_le_nat_alt)
    then show ?thesis by simp
  qed
  moreover have "length twist_table = 8" by (simp add: twist_table_def)
  ultimately show ?thesis
    using assms by (simp add: add_entropy_def pool_ok_def and31)
qed

lemma add_entropy_bounds_witness:
  "pool_ok (add_entropy (\<lambda>w. w) [1, 2, 0xDEADBEEF] entropy_init)"
proof -
  have "pool_ok entropy_init" by (simp add: pool_ok_def entropy_init_def)
  from add_entropy_bounds [OF this, of "\<lambda>w. w" "[1, 2, 0xDEADBEEF]"] show ?thesis by blast
qed

text \<open>authorization data is as long as was asked for, and bit \<open>j\<close> of byte \<open>i\<close> is bit 2
  of the sum of the first two bytes after \<open>8 * i + j + 1\<close> encryptions of the clock: apart from
  the key, the time of the call determines everything.\<close>

theorem GenerateAuthData_bits:
  "(let (auth, g') = GenerateAuthData des shr32 device prngd pre sum0 usec sec len g
    in length auth = len \<and> g_inited g' \<and>
       (\<forall>i < len. \<forall>j < 8. bit (auth ! i) j \<longleftrightarrow>
          (let d = (des_doit des (g_key g') ^^ (8 * i + Suc j)) (longtochars usec @ longtochars sec)
           in bit (unat (d ! 0) + unat (d ! 1)) 2)))"
  by (simp add: GenerateAuthData_def Let_def length_gen_bytes gen_bytes_bit split_def del: funpow.simps)

lemma GenerateAuthData_bits_witness:
  "length (fst (GenerateAuthData \<lparr>des_doit = \<lambda>k d. rotate1 d, des_odd_parity = id\<rparr> (\<lambda>w. w)
     (Some [1, 2, 3, 4, 5, 6, 7, 8]) None [] (0, 0, 0, 0) 77 99 16
     \<lparr>g_entropy = entropy_init, g_key = [], g_inited = False\<rparr>)) = 16"
  using GenerateAuthData_bits [of "\<lparr>des_doit = \<lambda>k d. rotate1 d, des_odd_parity = id\<rparr>" "\<lambda>w. w"
      "Some [1, 2, 3, 4, 5, 6, 7, 8]" None "[]" "(0, 0, 0, 0)" 77 99 16
      "\<lparr>g_entropy = entropy_init, g_key = [], g_inited = False\<rparr>"]
  by (simp add: Let_def split_def)

end
