(* ===== verification/Choose.thy ===== *)
theory Choose
  imports Address Util Xdmcplib
begin

text \<open>
  The choices made for indirect XDMCP clients, \<open>xdm/choose.c\<close>: the list of clients that
  asked through an IndirectQuery, the list of choices the chooser reported back, the text
  forms in which addresses are handed to the chooser program, and the socket on which it
  answers.

  \<open>indirectUsers\<close> is a list of records.  \<open>choices\<close> is a list of nodes where None is a
  node that has been freed while still linked: following it is a use after free.  Every
  operation that fails for lack of memory does so through \<open>x_calloc\<close> or
  \<open>x_array8_copy\<close> of \<open>ext\<close>.
\<close>

section \<open>Text forms of addresses\<close>

definition HexChars :: string where
  "HexChars = ''0123456789abcdef''"

definition hex_byte :: "CARD8 \<Rightarrow> string" where
  "hex_byte b = [HexChars ! unat (drop_bit 4 b AND 0xF), HexChars ! unat (b AND 0xF)]"

definition FormatBytes :: "CARD8 list \<Rightarrow> nat \<Rightarrow> string option" where
  "FormatBytes data buflen =
     (if buflen < length data * 2 + 1 then None else Some (concat (map hex_byte data)))"

definition FormatARRAY8 :: "ARRAY8 \<Rightarrow> nat \<Rightarrow> string option" where
  "FormatARRAY8 a buflen = FormatBytes a buflen"

text \<open>The result is what the buffer holds, None where the function returns 0; a buffer that
  is too small is left with the truncated text and is not used by the callers.\<close>

definition ARRAY8ToDottedDecimal :: "ARRAY8 \<Rightarrow> nat \<Rightarrow> string option" where
  "ARRAY8ToDottedDecimal a buflen =
     (case a of
        [b0, b1, b2, b3] \<Rightarrow>
          (let s = show_nat (unat b0) @ ''.'' @ show_nat (unat b1) @ ''.'' @
                   show_nat (unat b2) @ ''.'' @ show_nat (unat b3)
           in if length s \<ge> buflen then None else Some s)
      | _ \<Rightarrow> None)"

text \<open>The chooser's listening socket and this host's address, in the hexadecimal form of the
  \<open>-xdmaddress\<close> argument; \<open>chooser_addr\<close> is what \<open>GetChooserAddr\<close> stores.\<close>

definition FormatChooserArgument ::
    "ext \<Rightarrow> sockaddr option \<Rightarrow> local_address \<Rightarrow> nat \<Rightarrow> string option \<times> local_address" where
  "FormatChooserArgument E chooser_addr la len =
     (case chooser_addr of
        None \<Rightarrow> (None, la)
      | Some addr \<Rightarrow>
          (if NetaddrFamily addr = AF_INET \<or> NetaddrFamily addr = AF_INET6 then
             (let (localAddress, la') = getLocalAddress E la;
                  netfamily = (if length localAddress = 16 then AF_INET6 else AF_INET)
              in case NetaddrPort addr of
                   (Some port, _) \<Rightarrow>
                     (FormatBytes
                        ([word_of_nat (netfamily div 256), word_of_nat (netfamily mod 256),
                          port ! 0, port ! 1] @ localAddress) len, la')
                 | (None, _) \<Rightarrow> (None, la'))
           else (None, la)))"

text \<open>\<open>AddChooserHost\<close>, the callback that turns one host of an access list into an argument
  of the chooser; \<open>args\<close> is \<open>*argp\<close>.\<close>

definition AddChooserHost ::
    "ext \<Rightarrow> CARD16 \<Rightarrow> ARRAY8 \<Rightarrow> string list option \<Rightarrow> string list option" where
  "AddChooserHost E connectionType addr args =
     (if addr = bytes_of ''BROADCAST'' then parseArgs (x_calloc E 0) args ''BROADCAST''
      else if length addr = 16 then parseArgs (x_calloc E 0) args (x_inet_ntop E AF_INET6 addr)
      else case ARRAY8ToDottedDecimal addr 1024 of
             Some s \<Rightarrow> parseArgs (x_calloc E 0) args s
           | None \<Rightarrow> args)"

section \<open>Indirect clients\<close>

record indirect_user =
  iu_client :: ARRAY8
  iu_connectionType :: CARD16

definition iu_match :: "ext \<Rightarrow> ARRAY8 \<Rightarrow> CARD16 \<Rightarrow> indirect_user \<Rightarrow> bool" where
  "iu_match E a ct i \<longleftrightarrow> x_array8_equal E a (iu_client i) \<and> ct = iu_connectionType i"

definition RememberIndirectClient ::
    "ext \<Rightarrow> ARRAY8 \<Rightarrow> CARD16 \<Rightarrow> indirect_user list \<Rightarrow> bool \<times> indirect_user list" where
  "RememberIndirectClient E a ct users =
     (case find_first (iu_match E a ct) users of
        Some _ \<Rightarrow> (True, users)
      | None \<Rightarrow>
          (if \<not> x_calloc E (length users) then (False, users)
           else case x_array8_copy E a of
                  None \<Rightarrow> (False, users)
                | Some c \<Rightarrow> (True, \<lparr>iu_client = c, iu_connectionType = ct\<rparr> # users)))"

definition ForgetIndirectClient ::
    "ext \<Rightarrow> ARRAY8 \<Rightarrow> CARD16 \<Rightarrow> indirect_user list \<Rightarrow> indirect_user list" where
  "ForgetIndirectClient E a ct users = remove_first (iu_match E a ct) users"

definition IsIndirectClient :: "ext \<Rightarrow> ARRAY8 \<Rightarrow> CARD16 \<Rightarrow> indirect_user list \<Rightarrow> bool" where
  "IsIndirectClient E a ct users \<longleftrightarrow> find_first (iu_match E a ct) users \<noteq> None"

section \<open>Choices\<close>

record ChoiceRec =
  ch_client :: ARRAY8
  ch_connectionType :: CARD16
  ch_choice :: ARRAY8
  ch_time :: int

type_synonym choices = "ChoiceRec option list"

definition ch_match :: "ext \<Rightarrow> ARRAY8 \<Rightarrow> CARD16 \<Rightarrow> ChoiceRec \<Rightarrow> bool" where
  "ch_match E a ct c \<longleftrightarrow> x_array8_equal E a (ch_client c) \<and> ct = ch_connectionType c"

text \<open>Looking a choice up also unlinks the expired nodes the walk meets; the result is the
  choice, if any, and the list left behind.\<close>

primrec IndirectChoice ::
    "ext \<Rightarrow> int \<Rightarrow> int \<Rightarrow> ARRAY8 \<Rightarrow> CARD16 \<Rightarrow> choices \<Rightarrow> c_error + (ARRAY8 option \<times> choices)" where
  "IndirectChoice E now choiceTimeout a ct [] = Inr (None, [])"
| "IndirectChoice E now choiceTimeout a ct (n # cs) =
     (case n of
        None \<Rightarrow> Inl UseAfterFree
      | Some c \<Rightarrow>
          (if now - ch_time c > choiceTimeout then IndirectChoice E now choiceTimeout a ct cs
           else if ch_match E a ct c then Inr (Some (ch_choice c), n # cs)
           else mapE (\<lambda>(r, cs'). (r, n # cs')) (IndirectChoice E now choiceTimeout a ct cs)))"

text \<open>The walk that looks for the node to overwrite: how many nodes precede it.\<close>

primrec find_choice :: "ext \<Rightarrow> ARRAY8 \<Rightarrow> CARD16 \<Rightarrow> choices \<Rightarrow> c_error + nat option" where
  "find_choice E a ct [] = Inr None"
| "find_choice E a ct (n # cs) =
     (case n of
        None \<Rightarrow> Inl UseAfterFree
      | Some c \<Rightarrow> if ch_match E a ct c then Inr (Some 0)
                  else mapE (map_option Suc) (find_choice E a ct cs))"

definition RegisterIndirectChoice ::
    "ext \<Rightarrow> int \<Rightarrow> ARRAY8 \<Rightarrow> CARD16 \<Rightarrow> ARRAY8 \<Rightarrow> choices \<Rightarrow> c_error + (bool \<times> choices)" where
  "RegisterIndirectChoice E now a ct choice cs =
     bindE (find_choice E a ct cs) (\<lambda>pos.
       case pos of
         None \<Rightarrow>
           (if \<not> x_calloc E (length cs) then Inr (False, cs)
            else case x_array8_copy E a of
                   None \<Rightarrow> Inr (False, cs)
                 | Some client \<Rightarrow>
                     (case x_array8_copy E choice of
                        None \<Rightarrow> Inr (False, cs)
                      | Some v \<Rightarrow>
                          Inr (True, Some \<lparr>ch_client = client, ch_connectionType = ct,
                                           ch_choice = v, ch_time = now\<rparr> # cs)))
       | Some i \<Rightarrow>
           (case x_array8_copy E choice of
              None \<Rightarrow> Inr (False, cs[i := None])
            | Some v \<Rightarrow>
                Inr (True, cs[i := map_option (\<lambda>c. c\<lparr>ch_choice := v, ch_time := now\<rparr>) (cs ! i)])))"

text \<open>The chooser's answer: \<open>input\<close> is what \<open>accept\<close> and \<open>read\<close> deliver, None when
  either fails or nothing arrives.\<close>

definition ProcessChooserSocket ::
    "ext \<Rightarrow> 'b reader \<Rightarrow> int \<Rightarrow> CARD8 list option \<Rightarrow> choices \<Rightarrow> c_error + choices" where
  "ProcessChooserSocket E R now input cs =
     (case input of
        None \<Rightarrow> Inr cs
      | Some bytes \<Rightarrow>
          (if bytes = [] then Inr cs
           else case r_array8 R (r_buffer R bytes) of
                  None \<Rightarrow> Inr cs
                | Some (clientAddress, b1) \<Rightarrow>
                    (case r_card16 R b1 of
                       None \<Rightarrow> Inr cs
                     | Some (connectionType, b2) \<Rightarrow>
                         (case r_array8 R b2 of
                            None \<Rightarrow> Inr cs
                          | Some (choice, b3) \<Rightarrow>
                              mapE snd (RegisterIndirectChoice E now clientAddress
                                connectionType choice cs)))))"

section \<open>Indirect clients form a set\<close>

text \<open>
  What the query handlers and \<open>WaitForChild\<close> rely on: a set of clients with insertion that
  may fail, deletion and membership.
\<close>

locale client_set =
  fixes inv :: "'s \<Rightarrow> bool"
    and remember :: "'s \<Rightarrow> 'k \<Rightarrow> bool \<times> 's"
    and forget :: "'s \<Rightarrow> 'k \<Rightarrow> 's"
    and member :: "'s \<Rightarrow> 'k \<Rightarrow> bool"
  assumes inv_remember: "inv s \<Longrightarrow> inv (snd (remember s k))"
    and inv_forget: "inv s \<Longrightarrow> inv (forget s k)"
    and member_remember: "inv s \<Longrightarrow>
      member (snd (remember s k)) j \<longleftrightarrow> (j = k \<and> fst (remember s k)) \<or> member s j"
    and member_forget: "inv s \<Longrightarrow> member (forget s k) j \<longleftrightarrow> j \<noteq> k \<and> member s j"
begin

lemma forget_all:
  "inv s \<Longrightarrow> inv (fold (\<lambda>k s. forget s k) ks s) \<and>
    (member (fold (\<lambda>k s. forget s k) ks s) j \<longleftrightarrow> j \<notin> set ks \<and> member s j)"
  by (induction ks arbitrary: s) (auto simp: inv_forget member_forget)

lemma forget_remembered: "inv s \<Longrightarrow> \<not> member (forget (snd (remember s k)) k) k"
  by (simp add: inv_remember member_forget)

lemma remember_forget_other:
  "inv s \<Longrightarrow> j \<noteq> k \<Longrightarrow> member (snd (remember (forget s k) k)) j \<longleftrightarrow> member s j"
  by (simp add: inv_forget member_remember member_forget)

end

definition iu_key :: "indirect_user \<Rightarrow> ARRAY8 \<times> CARD16" where
  "iu_key i = (iu_client i, iu_connectionType i)"

definition users_ok :: "ext \<times> indirect_user list \<Rightarrow> bool" where
  "users_ok w \<longleftrightarrow> ext_ok (fst w) \<and> distinct (map iu_key (snd w))"

lemma iu_match_key: "ext_ok E \<Longrightarrow> iu_match E a ct i \<longleftrightarrow> iu_key i = (a, ct)"
  by (auto simp: iu_match_def iu_key_def ext_ok_equal)

lemma iu_match_fun: "ext_ok E \<Longrightarrow> iu_match E a ct = (\<lambda>i. iu_key i = (a, ct))"
  by (simp add: fun_eq_iff iu_match_key)

lemma IsIndirectClient_iff:
  "ext_ok E \<Longrightarrow> IsIndirectClient E a ct us \<longleftrightarrow> (\<exists>i \<in> set us. iu_key i = (a, ct))"
  by (auto simp: IsIndirectClient_def find_first_None_iff iu_match_key)

lemma RememberIndirectClient_cases:
  assumes "ext_ok E"
  obtains (present) "\<exists>i \<in> set us. iu_key i = (a, ct)" "RememberIndirectClient E a ct us = (True, us)"
  | (added) "\<forall>i \<in> set us. iu_key i \<noteq> (a, ct)"
      "RememberIndirectClient E a ct us = (True, \<lparr>iu_client = a, iu_connectionType = ct\<rparr> # us)"
  | (failed) "\<forall>i \<in> set us. iu_key i \<noteq> (a, ct)" "RememberIndirectClient E a ct us = (False, us)"
proof (cases "find_first (iu_match E a ct) us")
  case None
  then have out: "\<forall>i \<in> set us. iu_key i \<noteq> (a, ct)"
    using assms by (auto simp: find_first_None_iff iu_match_key)
  show thesis
  proof (cases "x_array8_copy E a")
    case (Some c)
    with assms have "c = a" by (auto dest: ext_ok_copy)
    with None Some out that show thesis
      by (cases "x_calloc E (length us)") (auto simp: RememberIndirectClient_def)
  qed (use None out that in \<open>auto simp: RememberIndirectClient_def\<close>)
next
  case (Some i)
  with find_first_SomeD [OF Some] assms that show thesis
    by (auto simp: RememberIndirectClient_def iu_match_key)
qed

lemma iu_key_make [simp]: "iu_key \<lparr>iu_client = a, iu_connectionType = ct\<rparr> = (a, ct)"
  by (simp add: iu_key_def)

lemma ForgetIndirectClient_filter:
  "ext_ok E \<Longrightarrow> distinct (map iu_key us) \<Longrightarrow>
    ForgetIndirectClient E a ct us = filter (\<lambda>i. iu_key i \<noteq> (a, ct)) us"
  by (simp add: ForgetIndirectClient_def iu_match_fun remove_first_eq_filter)

interpretation indirect_clients: client_set users_ok
  "\<lambda>(E, us) (a, ct). map_prod id (Pair E) (RememberIndirectClient E a ct us)"
  "\<lambda>(E, us) (a, ct). (E, ForgetIndirectClient E a ct us)"
  "\<lambda>(E, us) (a, ct). IsIndirectClient E a ct us"
proof (unfold_locales, goal_cases)
  case (1 s k)
  obtain E us a ct where s: "s = (E, us)" "k = (a, ct)" by (metis surj_pair)
  with 1 have E: "ext_ok E" "distinct (map iu_key us)" by (auto simp: users_ok_def)
  show ?case
    by (rule RememberIndirectClient_cases [OF E(1), of us a ct]) (use s E in \<open>auto simp: users_ok_def\<close>)
next
  case (2 s k)
  then show ?case
    by (auto simp: users_ok_def ForgetIndirectClient_filter distinct_map_filter split: prod.splits)
next
  case (3 s k j)
  obtain E us a ct where s: "s = (E, us)" "k = (a, ct)" by (metis surj_pair)
  with 3 have E: "ext_ok E" "distinct (map iu_key us)" by (auto simp: users_ok_def)
  show ?case
    by (rule RememberIndirectClient_cases [OF E(1), of us a ct])
      (use s E in \<open>auto simp: IsIndirectClient_iff split: prod.splits\<close>)
next
  case (4 s k j)
  then show ?case
    by (auto simp: users_ok_def ForgetIndirectClient_filter IsIndirectClient_iff split: prod.splits)
      (metis Pair_inject)+
qed

section \<open>Choices: one live node per client\<close>

definition ch_key :: "ChoiceRec \<Rightarrow> ARRAY8 \<times> CARD16" where
  "ch_key c = (ch_client c, ch_connectionType c)"

definition expired :: "int \<Rightarrow> int \<Rightarrow> ChoiceRec \<Rightarrow> bool" where
  "expired now choiceTimeout c \<longleftrightarrow> now - ch_time c > choiceTimeout"

text \<open>What the list stands for at a time: the unexpired choice of each client.\<close>

definition live_choice ::
    "int \<Rightarrow> int \<Rightarrow> ChoiceRec list \<Rightarrow> ARRAY8 \<times> CARD16 \<Rightarrow> ARRAY8 option" where
  "live_choice now choiceTimeout cs k =
     map_option ch_choice (find_first (\<lambda>c. ch_key c = k \<and> \<not> expired now choiceTimeout c) cs)"

text \<open>The list a lookup leaves behind.\<close>

primrec purge ::
    "int \<Rightarrow> int \<Rightarrow> ARRAY8 \<times> CARD16 \<Rightarrow> ChoiceRec list \<Rightarrow> ChoiceRec list" where
  "purge now choiceTimeout k [] = []"
| "purge now choiceTimeout k (c # cs) =
     (if expired now choiceTimeout c then purge now choiceTimeout k cs
      else if ch_key c = k then c # cs else c # purge now choiceTimeout k cs)"

lemma ch_match_key: "ext_ok E \<Longrightarrow> ch_match E a ct c \<longleftrightarrow> ch_key c = (a, ct)"
  by (auto simp: ch_match_def ch_key_def ext_ok_equal)

lemma IndirectChoice_live:
  "ext_ok E \<Longrightarrow> IndirectChoice E now t a ct (map Some cs) =
    Inr (live_choice now t cs (a, ct), map Some (purge now t (a, ct) cs))"
  by (induction cs) (auto simp: live_choice_def expired_def ch_match_key)

lemma live_choice_purge:
  "now \<le> now' \<Longrightarrow> live_choice now' t (purge now t k cs) j = live_choice now' t cs j"
  by (induction cs) (auto simp: live_choice_def expired_def)

lemma purge_subset: "set (purge now t k cs) \<subseteq> set cs"
  by (induction cs) auto

lemma distinct_purge: "distinct (map ch_key cs) \<Longrightarrow> distinct (map ch_key (purge now t k cs))"
proof (induction cs)
  case (Cons c cs)
  with purge_subset [of now t k cs] have "ch_key c \<notin> ch_key ` set (purge now t k cs)" by auto
  with Cons show ?case by auto
qed simp

lemma find_choice_live:
  "ext_ok E \<Longrightarrow> find_choice E a ct (map Some cs) =
    Inr (if \<exists>c \<in> set cs. ch_key c = (a, ct)
         then Some (length (takeWhile (\<lambda>c. ch_key c \<noteq> (a, ct)) cs)) else None)"
  by (induction cs) (auto simp: ch_match_key)

lemma update_at_first:
  "\<exists>c \<in> set cs. P c \<Longrightarrow>
    (let i = length (takeWhile (\<lambda>c. \<not> P c) cs) in i < length cs \<and> P (cs ! i) \<and>
      map Some (update_first P f cs) = (map Some cs)[i := Some (f (cs ! i))])"
  by (induction cs) (auto simp: Let_def)

text \<open>Registering overwrites the client's node or adds one in front.\<close>

definition put_choice :: "int \<Rightarrow> ARRAY8 \<times> CARD16 \<Rightarrow> ARRAY8 \<Rightarrow> ChoiceRec list \<Rightarrow> ChoiceRec list" where
  "put_choice now k v cs =
     (if \<exists>c \<in> set cs. ch_key c = k
      then update_first (\<lambda>c. ch_key c = k) (\<lambda>c. c\<lparr>ch_choice := v, ch_time := now\<rparr>) cs
      else \<lparr>ch_client = fst k, ch_connectionType = snd k, ch_choice = v, ch_time = now\<rparr> # cs)"

lemma ch_key_simps [simp]:
  "ch_key \<lparr>ch_client = a, ch_connectionType = ct, ch_choice = v, ch_time = t\<rparr> = (a, ct)"
  "ch_key (c\<lparr>ch_choice := v, ch_time := t\<rparr>) = ch_key c"
  by (simp_all add: ch_key_def)

lemma distinct_put_choice: "distinct (map ch_key cs) \<Longrightarrow> distinct (map ch_key (put_choice now k v cs))"
  by (cases k) (auto simp: put_choice_def map_update_first)

lemma live_put_choice_update:
  "\<exists>c \<in> set cs. ch_key c = k \<Longrightarrow> distinct (map ch_key cs) \<Longrightarrow>
    live_choice now' t (update_first (\<lambda>c. ch_key c = k) (\<lambda>c. c\<lparr>ch_choice := v, ch_time := now\<rparr>) cs) j =
    (if j = k then (if now' - now > t then None else Some v) else live_choice now' t cs j)"
proof (induction cs)
  case (Cons c cs)
  show ?case
  proof (cases "ch_key c = k")
    case True
    with Cons.prems(2) have "\<forall>x \<in> set cs. ch_key x \<noteq> k"
      by (simp add: image_iff) metis
    then have "find_first (\<lambda>c. ch_key c = k \<and> \<not> expired now' t c) cs = None"
      by (auto simp: find_first_None_iff)
    with True show ?thesis by (auto simp: live_choice_def expired_def)
  next
    case False
    with Cons show ?thesis by (auto simp: live_choice_def)
  qed
qed simp

lemma live_put_choice:
  assumes "distinct (map ch_key cs)"
  shows "live_choice now' t (put_choice now k v cs) j =
    (if j = k then (if now' - now > t then None else Some v) else live_choice now' t cs j)"
proof (cases "\<exists>c \<in> set cs. ch_key c = k")
  case True
  with assms show ?thesis by (simp add: put_choice_def live_put_choice_update)
next
  case False
  then have "find_first (\<lambda>c. ch_key c = k \<and> \<not> expired now' t c) cs = None"
    by (auto simp: find_first_None_iff)
  with False show ?thesis
    by (cases k) (auto simp: put_choice_def live_choice_def expired_def)
qed

lemma RegisterIndirectChoice_True:
  assumes "ext_ok E" and r: "RegisterIndirectChoice E now a ct v (map Some cs) = Inr (True, cs')"
  shows "cs' = map Some (put_choice now (a, ct) v cs)"
proof (cases "\<exists>c \<in> set cs. ch_key c = (a, ct)")
  note copy = ext_ok_copy [OF assms(1)]
  case True
  with r assms(1) update_at_first [OF True, of "\<lambda>c. c\<lparr>ch_choice := v, ch_time := now\<rparr>"]
  show ?thesis
    by (auto simp: RegisterIndirectChoice_def find_choice_live put_choice_def Let_def
        dest!: copy split: option.splits)
next
  note copy = ext_ok_copy [OF assms(1)]
  case False
  with r assms(1) show ?thesis
    by (auto simp: RegisterIndirectChoice_def find_choice_live put_choice_def
        dest!: copy split: option.splits if_splits)
qed

lemma RegisterIndirectChoice_False:
  assumes "ext_ok E" and r: "RegisterIndirectChoice E now a ct v (map Some cs) = Inr (False, cs')"
  shows "cs' = map Some cs \<or>
    (\<exists>i < length cs. ch_key (cs ! i) = (a, ct) \<and> cs' = (map Some cs)[i := None])"
proof (cases "\<exists>c \<in> set cs. ch_key c = (a, ct)")
  case True
  with r assms(1) update_at_first [OF True]
  show ?thesis by (auto simp: RegisterIndirectChoice_def find_choice_live Let_def split: option.splits)
next
  case False
  with r assms(1) show ?thesis
    by (auto simp: RegisterIndirectChoice_def find_choice_live split: option.splits if_splits)
qed

text \<open>No node of the list has been freed, and no client has two.\<close>

definition choices_ok :: "choices \<Rightarrow> bool" where
  "choices_ok cs \<longleftrightarrow> None \<notin> set cs \<and> distinct (map (ch_key \<circ> the) cs)"

lemma choices_ok_iff: "choices_ok cs \<longleftrightarrow> (\<exists>rs. cs = map Some rs \<and> distinct (map ch_key rs))"
proof
  assume ok: "choices_ok cs"
  have "map (Some \<circ> the) cs = cs"
  proof (rule map_idI)
    fix x assume "x \<in> set cs"
    with ok show "(Some \<circ> the) x = x" by (cases x) (auto simp: choices_ok_def)
  qed
  then have "cs = map Some (map the cs)" by simp
  with ok show "\<exists>rs. cs = map Some rs \<and> distinct (map ch_key rs)"
    by (metis choices_ok_def map_map)
qed (auto simp: choices_ok_def comp_def)

definition choice_at :: "int \<Rightarrow> int \<Rightarrow> choices \<Rightarrow> ARRAY8 \<times> CARD16 \<Rightarrow> ARRAY8 option" where
  "choice_at now choiceTimeout cs k = live_choice now choiceTimeout (map the cs) k"

section \<open>Properties\<close>

text \<open>C25: for as long as the list is intact, a lookup returns exactly the client's unexpired
  choice, keeps the list intact, and removing expired nodes on the way is unobservable: any
  lookup at the same or a later time answers as if nothing had been removed.\<close>

theorem IndirectChoice_refines:
  assumes "ext_ok E" "choices_ok cs"
  shows "\<exists>cs'. IndirectChoice E now t a ct cs = Inr (choice_at now t cs (a, ct), cs') \<and>
    choices_ok cs' \<and> (\<forall>now' k. now \<le> now' \<longrightarrow> choice_at now' t cs' k = choice_at now' t cs k)"
proof -
  obtain rs where rs: "cs = map Some rs" "distinct (map ch_key rs)"
    using assms(2) by (auto simp: choices_ok_iff)
  show ?thesis
    using assms(1) rs(2) unfolding rs(1) choices_ok_iff
    by (auto simp: IndirectChoice_live choice_at_def live_choice_purge distinct_purge comp_def)
qed

definition sample_choices :: choices where
  "sample_choices =
     [Some \<lparr>ch_client = [10, 0, 0, 7], ch_connectionType = 0, ch_choice = [10, 0, 0, 1], ch_time = 100\<rparr>,
      Some \<lparr>ch_client = [10, 0, 0, 8], ch_connectionType = 0, ch_choice = [10, 0, 0, 2], ch_time = 130\<rparr>]"

lemma choices_ok_sample: "choices_ok sample_choices"
  by (simp add: sample_choices_def choices_ok_def ch_key_def)

lemma IndirectChoice_refines_witness:
  "\<exists>cs'. IndirectChoice std_ext 120 15 [10, 0, 0, 8] 0 sample_choices =
      Inr (Some [10, 0, 0, 2], cs') \<and> choices_ok cs'"
proof -
  have v: "choice_at 120 15 sample_choices ([10, 0, 0, 8], 0) = Some [10, 0, 0, 2]"
    by (simp add: choice_at_def live_choice_def sample_choices_def ch_key_def expired_def)
  show ?thesis
    using IndirectChoice_refines [OF ext_ok_std choices_ok_sample, of 120 15 "[10, 0, 0, 8]" 0]
    unfolding v by blast
qed

text \<open>A choice that was registered is what the client is told until \<open>choiceTimeout\<close>
  seconds have passed, and nobody else's choice changes.\<close>

theorem RegisterIndirectChoice_success:
  assumes "ext_ok E" "choices_ok cs"
    and "RegisterIndirectChoice E now a ct v cs = Inr (True, cs')"
  shows "choices_ok cs' \<and>
    choice_at now' t cs' k =
      (if k = (a, ct) then (if now' - now > t then None else Some v) else choice_at now' t cs k)"
proof -
  obtain rs where rs: "cs = map Some rs" "distinct (map ch_key rs)"
    using assms(2) by (auto simp: choices_ok_iff)
  have cs': "cs' = map Some (put_choice now (a, ct) v rs)"
    using RegisterIndirectChoice_True [OF assms(1)] assms(3) unfolding rs(1) by blast
  show ?thesis
    using rs(2) distinct_put_choice [OF rs(2)] unfolding rs(1) cs' choices_ok_iff
    by (auto simp: choice_at_def live_put_choice comp_def)
qed

lemma RegisterIndirectChoice_success_witness:
  "(case RegisterIndirectChoice std_ext 140 [10, 0, 0, 7] 0 [10, 0, 0, 3] sample_choices of
      Inr (True, cs') \<Rightarrow> choice_at 150 15 cs' ([10, 0, 0, 7], 0) = Some [10, 0, 0, 3] \<and> choices_ok cs'
    | _ \<Rightarrow> False)"
proof -
  have r: "RegisterIndirectChoice std_ext 140 [10, 0, 0, 7] 0 [10, 0, 0, 3] sample_choices =
      Inr (True, sample_choices[0 := map_option (\<lambda>c. c\<lparr>ch_choice := [10, 0, 0, 3], ch_time := 140\<rparr>)
        (sample_choices ! 0)])"
    by (simp add: RegisterIndirectChoice_def sample_choices_def ch_match_def std_ext_def)
  show ?thesis
    using RegisterIndirectChoice_success [OF ext_ok_std choices_ok_sample r,
        of 150 15 "([10, 0, 0, 7], 0)"]
    unfolding r by simp
qed

text \<open>When memory runs out, either nothing changes or the client's own node is freed while
  it stays linked, and every later walk that reaches it is a use after free.\<close>

theorem RegisterIndirectChoice_failure:
  assumes "ext_ok E" "choices_ok cs"
    and "RegisterIndirectChoice E now a ct v cs = Inr (False, cs')"
  shows "cs' = cs \<or>
    (\<exists>i < length cs. cs' = cs[i := None] \<and> ch_key (the (cs ! i)) = (a, ct) \<and>
       IndirectChoice E now' t a ct cs' = Inl UseAfterFree)"
proof -
  obtain rs where rs: "cs = map Some rs" "distinct (map ch_key rs)"
    using assms(2) by (auto simp: choices_ok_iff)
  consider "cs' = cs" | i where "i < length rs" "ch_key (rs ! i) = (a, ct)" "cs' = (map Some rs)[i := None]"
    using RegisterIndirectChoice_False [OF assms(1)] assms(3) unfolding rs(1) by blast
  then show ?thesis
  proof cases
    case 2
    have "IndirectChoice E now' t a ct cs' = Inl UseAfterFree"
      unfolding 2(3) using 2(1,2) rs(2)
    proof (induction rs arbitrary: i)
      case (Cons c rs)
      then show ?case
        by (cases i) (auto simp: ch_match_key assms(1) ch_key_def)
    qed simp
    with 2 rs(1) show ?thesis by auto
  qed simp
qed

definition full_memory :: ext where
  "full_memory = std_ext\<lparr>x_array8_copy := \<lambda>_. None\<rparr>"

lemma ext_ok_full_memory: "ext_ok full_memory"
  using ext_ok_std by (simp add: ext_ok_def full_memory_def)

lemma RegisterIndirectChoice_failure_witness:
  "\<exists>cs'. RegisterIndirectChoice full_memory 140 [10, 0, 0, 8] 0 [10, 0, 0, 3] sample_choices =
     Inr (False, cs') \<and> IndirectChoice full_memory 141 15 [10, 0, 0, 8] 0 cs' = Inl UseAfterFree"
proof -
  have r: "RegisterIndirectChoice full_memory 140 [10, 0, 0, 8] 0 [10, 0, 0, 3] sample_choices =
      Inr (False, sample_choices[1 := None])"
    by (simp add: RegisterIndirectChoice_def sample_choices_def ch_match_def full_memory_def std_ext_def)
  have "sample_choices[1 := None] \<noteq> sample_choices" by (simp add: sample_choices_def)
  with r RegisterIndirectChoice_failure [OF ext_ok_full_memory choices_ok_sample r, of 141 15]
  show ?thesis by auto
qed

end
