(* ===== verification/Xdmauth.thy ===== *)
theory Xdmauth
  imports Protodpy Genauth Choose
begin

text \<open>
  The two authorization protocols xdm can issue: \<open>xdm/mitauth.c\<close> (a random cookie) and
  \<open>xdm/xdmauth.c\<close> (XDM-AUTHORIZATION-1, a DES key, and XDM-AUTHENTICATION-1, the exchange of
  a random number with the display under a key from the keys file).

  \<open>rng\<close> collects the arguments of \<open>GenerateAuthData\<close>, and \<open>crypt\<close> the three functions of
  libXdmcp that the exchange uses.
\<close>

section \<open>Parameters\<close>

record rng =
  rng_des :: des
  rng_shr32 :: "CARD32 \<Rightarrow> CARD32"
  rng_device :: "CARD8 list option"
  rng_prngd :: "CARD8 list option"
  rng_pre :: "CARD32 list"
  rng_sum0 :: md5_state
  rng_usec :: "64 word"
  rng_sec :: "64 word"

definition gen_auth :: "rng \<Rightarrow> nat \<Rightarrow> generator \<Rightarrow> CARD8 list \<times> generator" where
  "gen_auth R len g =
     GenerateAuthData (rng_des R) (rng_shr32 R) (rng_device R) (rng_prngd R) (rng_pre R) (rng_sum0 R)
       (rng_usec R) (rng_sec R) len g"

record crypt =
  c_wrap :: "CARD8 list \<Rightarrow> CARD8 list \<Rightarrow> CARD8 list"
  c_unwrap :: "CARD8 list \<Rightarrow> CARD8 list \<Rightarrow> CARD8 list"
  c_increment :: "CARD8 list \<Rightarrow> CARD8 list"

section \<open>MIT-MAGIC-COOKIE-1\<close>

abbreviation (input) AUTH_DATA_LEN :: nat where "AUTH_DATA_LEN \<equiv> 16"

definition MitInitAuth :: "CARD8 list \<Rightarrow> CARD8 list" where
  "MitInitAuth name = take 256 name"

definition MitGetAuth :: "ext \<Rightarrow> rng \<Rightarrow> CARD8 list \<Rightarrow> generator \<Rightarrow> Xauth option \<times> generator" where
  "MitGetAuth E R name g =
     (if \<not> x_calloc E 0 then (None, g)
      else (let (bytes, g') = gen_auth R AUTH_DATA_LEN g
            in (Some \<lparr>xa_family = FamilyWild, xa_address = [], xa_number = [], xa_name = name,
                      xa_data = bytes\<rparr>, g')))"

section \<open>XDM-AUTHORIZATION-1\<close>

definition XdmInitAuth :: "CARD8 list \<Rightarrow> CARD8 list" where
  "XdmInitAuth name = take 256 name"

definition XdmGetAuthHelper ::
    "ext \<Rightarrow> rng \<Rightarrow> CARD8 list \<Rightarrow> bool \<Rightarrow> generator \<Rightarrow> Xauth option \<times> generator" where
  "XdmGetAuthHelper E R name includeRho g =
     (if \<not> x_calloc E 0 then (None, g)
      else
        (let len = (if includeRho then 16 else 8);
             (bytes, g') = gen_auth R len g
         in (Some \<lparr>xa_family = FamilyWild, xa_address = [], xa_number = [], xa_name = name,
                   xa_data = bytes[len - 8 := 0]\<rparr>, g')))"

definition XdmGetAuth :: "ext \<Rightarrow> rng \<Rightarrow> CARD8 list \<Rightarrow> generator \<Rightarrow> Xauth option \<times> generator" where
  "XdmGetAuth E R name g = XdmGetAuthHelper E R name True g"

text \<open>Eight bytes are copied from \<open>authenticationData\<close> whatever its length is; an array of
  length zero has a NULL pointer.\<close>

definition first_eight :: "ARRAY8 \<Rightarrow> c_error + CARD8 list" where
  "first_eight a =
     (if a = [] then Inl NullDeref else if length a < 8 then Inl OutOfBounds else Inr (take 8 a))"

definition XdmGetXdmcpAuth ::
    "ext \<Rightarrow> rng \<Rightarrow> crypt \<Rightarrow> CARD8 list \<Rightarrow> protoDisplay \<Rightarrow> generator \<Rightarrow>
     c_error + (protoDisplay \<times> generator)" where
  "XdmGetXdmcpAuth E R C name p g =
     (if p_fileAuthorization p \<noteq> None \<and> p_xdmcpAuthorization p \<noteq> None then Inr (p, g)
      else case XdmGetAuthHelper E R name False g of
             (None, g') \<Rightarrow> Inr (p, g')
           | (Some xdmcpauth, g') \<Rightarrow>
               (if \<not> x_calloc E 1 then Inr (p, g')
                else bindE (first_eight (p_authenticationData p)) (\<lambda>rho.
                  let fileauth = xdmcpauth\<lparr>xa_data := rho @ take 8 (xa_data xdmcpauth)\<rparr>;
                      wrapped = c_wrap C (p_key p) (xa_data xdmcpauth)
                  in Inr (p\<lparr>p_fileAuthorization := Some fileauth,
                             p_xdmcpAuthorization := Some (xdmcpauth\<lparr>xa_data := wrapped\<rparr>)\<rparr>, g'))))"

section \<open>The keys file\<close>

definition atox :: "char \<Rightarrow> nat option" where
  "atox c =
     (let n = of_char c :: nat
      in if 48 \<le> n \<and> n \<le> 57 then Some (n - 48)
         else if 97 \<le> n \<and> n \<le> 102 then Some (n - 97 + 10)
         else if 65 \<le> n \<and> n \<le> 70 then Some (n - 65 + 10)
         else None)"

fun hex_pairs :: "string \<Rightarrow> string option" where
  "hex_pairs [] = Some []"
| "hex_pairs [a] = None"
| "hex_pairs (a # b # s) =
     (case (atox a, atox b) of
        (Some hi, Some lo) \<Rightarrow> map_option (Cons (char_of (16 * hi + lo))) (hex_pairs s)
      | _ \<Rightarrow> None)"

text \<open>The key is overwritten in place, and read back as a string: a zero byte ends it.\<close>

definition HexToBinary :: "string \<Rightarrow> string option" where
  "HexToBinary key = map_option cstr (hex_pairs (drop 2 key))"

text \<open>\<open>sscanf (line, "%s %s", ...)\<close>: the two words, None when there are fewer.\<close>

definition two_words :: "string \<Rightarrow> (string \<times> string) option" where
  "two_words line =
     (let a = dropWhile isspace line;
          w1 = takeWhile (\<lambda>c. \<not> isspace c) a;
          b = dropWhile isspace (drop (length w1) a);
          w2 = takeWhile (\<lambda>c. \<not> isspace c) b
      in if w1 = [] \<or> w2 = [] then None else Some (w1, w2))"

definition key_bytes :: "string \<Rightarrow> CARD8 list" where
  "key_bytes key = take 7 (bytes_of key @ replicate 7 0)"

text \<open>The loop over the lines; the result is \<open>pdpy->key\<close> on success.\<close>

primrec search_keys :: "ARRAY8 \<Rightarrow> string list \<Rightarrow> CARD8 list option" where
  "search_keys displayID [] = None"
| "search_keys displayID (line # lines) =
     (case (if first_is CHR ''#'' line then None else two_words (cstr line)) of
        None \<Rightarrow> search_keys displayID lines
      | Some (ident, key) \<Rightarrow>
          (if bytes_of ident = displayID then
             (if take 2 key = ''0x'' \<or> take 2 key = ''0X''
              then map_option (\<lambda>k. 0 # key_bytes k) (HexToBinary key)
              else Some (0 # key_bytes key))
           else search_keys displayID lines))"

definition XdmGetKey :: "string option \<Rightarrow> ARRAY8 \<Rightarrow> CARD8 list option" where
  "XdmGetKey keys displayID =
     (case keys of None \<Rightarrow> None | Some text \<Rightarrow> search_keys displayID (fgets_lines 1023 text))"

text \<open>The result is the return value, the entry and the array that goes back to the display.\<close>

definition XdmCheckAuthentication ::
    "ext \<Rightarrow> crypt \<Rightarrow> string option \<Rightarrow> ARRAY8 \<Rightarrow> ARRAY8 \<Rightarrow> protoDisplay \<Rightarrow>
     bool \<times> protoDisplay \<times> ARRAY8" where
  "XdmCheckAuthentication E C keys displayID data p =
     (case XdmGetKey keys displayID of
        None \<Rightarrow> (False, p, data)
      | Some k \<Rightarrow>
          (let p1 = p\<lparr>p_key := k\<rparr>
           in if length data \<noteq> 8 then (False, p1, data)
              else
                (let plain = c_unwrap C k data
                 in case x_array8_copy E plain of
                      None \<Rightarrow> (False, p1, plain)
                    | Some rho \<Rightarrow>
                        (True, p1\<lparr>p_authenticationData := rho\<rparr>, c_wrap C k (c_increment C plain)))))"

section \<open>Facts\<close>

lemma length_gen_auth: "length (fst (gen_auth R n g)) = n"
  by (simp add: gen_auth_def GenerateAuthData_def Let_def length_gen_bytes)

lemma key_bytes_length: "length (key_bytes k) = 7"
  by (simp add: key_bytes_def)

lemma search_keys_shape: "search_keys i ls = Some k \<Longrightarrow> length k = 8 \<and> hd k = 0"
  by (induction ls) (auto simp: key_bytes_length split: option.splits prod.splits if_splits)

lemma XdmGetKey_shape: "XdmGetKey keys i = Some k \<Longrightarrow> length k = 8 \<and> hd k = 0"
  by (auto simp: XdmGetKey_def search_keys_shape split: option.splits)

lemma atox_hex: "n < 16 \<Longrightarrow> atox (HexChars ! n) = Some n"
proof -
  have "\<forall>n \<in> set [0..<16]. atox (HexChars ! n) = Some n" by code_simp
  then show "n < 16 \<Longrightarrow> atox (HexChars ! n) = Some n" by simp
qed

lemma hex_byte_nibbles: "hex_byte b = [HexChars ! (unat b div 16), HexChars ! (unat b mod 16)]"
proof -
  have m: "v AND 0xF = take_bit 4 v" for v :: CARD8
    by (simp add: take_bit_eq_mask mask_eq_exp_minus_1)
  have "unat b < 256" using unsigned_less [of b] by simp
  then have "unat (take_bit 4 (drop_bit 4 b)) = unat b div 16"
    by (simp add: unsigned_take_bit_eq take_bit_eq_mod drop_bit_eq_div unat_div unat_mod)
  moreover have "unat (take_bit 4 b) = unat b mod 16"
    by (simp add: unsigned_take_bit_eq take_bit_eq_mod unat_mod)
  ultimately show ?thesis unfolding hex_byte_def m by simp
qed

lemma hex_pairs_byte: "hex_pairs (hex_byte b @ s) = map_option (Cons (char_of (unat b))) (hex_pairs s)"
proof -
  have "unat b < 256" using unsigned_less [of b] by simp
  then have "unat b div 16 < 16" "unat b mod 16 < 16" "16 * (unat b div 16) + unat b mod 16 = unat b"
    by auto
  then show ?thesis unfolding hex_byte_nibbles by (simp add: atox_hex)
qed

lemma hex_pairs_bytes: "hex_pairs (concat (map hex_byte bs)) = Some (map (\<lambda>b. char_of (unat b)) bs)"
  by (induction bs) (simp_all add: hex_pairs_byte)

section \<open>Properties\<close>

text \<open>A key written in hexadecimal is taken up to its first zero byte: the bytes after it
  are lost, and the rest of the key is zero.  A key without a zero byte is taken as it is
  written, up to seven bytes.\<close>

theorem XdmGetKey_hex:
  assumes "two_words (cstr line) = Some (ident, ''0x'' @ concat (map hex_byte bs))"
    and "\<not> first_is CHR ''#'' line" "bytes_of ident = displayID"
  shows "search_keys displayID (line # lines) =
    Some (0 # take 7 (takeWhile (\<lambda>b. b \<noteq> 0) bs @ replicate 7 0))"
proof -
  have cut: "cstr (map (\<lambda>b. char_of (unat b)) bs) =
      map (\<lambda>b. char_of (unat b)) (takeWhile (\<lambda>b. b \<noteq> 0) bs)" for bs :: "CARD8 list"
  proof (induction bs)
    case (Cons b bs)
    have "char_of (unat b) = NUL \<longleftrightarrow> b = 0"
    proof
      assume "char_of (unat b) = NUL"
      then have "of_char (char_of (unat b) :: char) = (of_char NUL :: nat)" by simp
      moreover have "unat b < 256" using unsigned_less [of b] by simp
      ultimately have "unat b = 0" by (simp add: NUL_def)
      then show "b = 0" by (simp add: unat_eq_0)
    qed (simp add: NUL_def char_of_def)
    with Cons show ?case by (simp add: cstr_def)
  qed (simp add: cstr_def)
  have bytes: "bytes_of (map (\<lambda>b. char_of (unat b)) xs) = xs" for xs :: "CARD8 list"
  proof -
    have "(of_char (char_of (unat b) :: char) :: CARD8) = b" for b :: CARD8
    proof -
      have "unat b < 256" using unsigned_less [of b] by simp
      then have "(of_char (char_of (unat b) :: char) :: nat) = unat b" by simp
      then have "of_nat (of_char (char_of (unat b) :: char) :: nat) = b" by (simp only:) simp
      then show ?thesis by (simp only: of_nat_of_char)
    qed
    then show ?thesis by (simp add: bytes_of_def comp_def)
  qed
  show ?thesis
    using assms by (simp add: HexToBinary_def hex_pairs_bytes cut key_bytes_def bytes)
qed

lemma XdmGetKey_hex_witness:
  "search_keys (bytes_of ''term1'') [''term1 0x112200334455'' @ [CHR 0x0A]] =
    Some (0 # [0x11, 0x22, 0, 0, 0, 0, 0])"
proof -
  let ?bs = "[0x11, 0x22, 0, 0x33, 0x44, 0x55] :: CARD8 list"
  have "two_words (cstr (''term1 0x112200334455'' @ [CHR 0x0A])) =
      Some (''term1'', ''0x'' @ concat (map hex_byte ?bs))" by code_simp
  moreover have "\<not> first_is CHR ''#'' (''term1 0x112200334455'' @ [CHR 0x0A])" by code_simp
  ultimately have "search_keys (bytes_of ''term1'') [''term1 0x112200334455'' @ [CHR 0x0A]] =
      Some (0 # take 7 (takeWhile (\<lambda>b. b \<noteq> 0) ?bs @ replicate 7 0))"
    by (rule XdmGetKey_hex) (rule refl)
  moreover have "take 7 (takeWhile (\<lambda>b. b \<noteq> 0) ?bs @ replicate 7 0) = [0x11, 0x22, 0, 0, 0, 0, 0]"
    by code_simp
  ultimately show ?thesis by (simp only:)
qed


definition toy_crypt :: crypt where
  "toy_crypt = \<lparr>c_wrap = \<lambda>k d. rotate1 d, c_unwrap = \<lambda>k d. rev (rotate1 (rev d)),
     c_increment = \<lambda>d. d[7 := d ! 7 + 1]\<rparr>"

lemma toy_crypt_inverse: "c_unwrap toy_crypt k (c_wrap toy_crypt k x) = x"
  by (cases x) (simp_all add: toy_crypt_def)

definition blank_proto :: protoDisplay where
  "blank_proto =
     \<lparr>p_address = SockIn [0, 177] [10, 0, 0, 7], p_addrlen = 16, p_date = 1000,
      p_displayNumber = 0, p_connectionType = 0, p_connectionAddress = [10, 0, 0, 7],
      p_sessionID = 5, p_fileAuthorization = None, p_xdmcpAuthorization = None,
      p_authenticationName = [], p_authenticationData = [], p_key = replicate 8 0\<rparr>"


text \<open>the session key that goes into the server's authority file is the one sent to the
  display, prefixed with the display's random number, and its first byte is zero; but a display
  that has not authenticated has no random number, and then eight bytes are copied through a
  NULL pointer.\<close>

theorem XdmGetXdmcpAuth_spec:
  assumes "\<forall>t. x_calloc E t" "p_fileAuthorization p = None"
  shows "case XdmGetXdmcpAuth E R C name p g of
      Inr (p', _) \<Rightarrow> 8 \<le> length (p_authenticationData p) \<and>
        (\<exists>f x s. p_fileAuthorization p' = Some f \<and> p_xdmcpAuthorization p' = Some x \<and>
           length s = 8 \<and> hd s = 0 \<and> xa_data f = take 8 (p_authenticationData p) @ s \<and>
           xa_data x = c_wrap C (p_key p) s \<and> xa_name f = name \<and> xa_name x = name)
    | Inl e \<Rightarrow> length (p_authenticationData p) < 8 \<and>
        (p_authenticationData p = [] \<longrightarrow> e = NullDeref)"
proof -
  obtain bytes g' where ga: "gen_auth R 8 g = (bytes, g')" by (cases "gen_auth R 8 g")
  have "length bytes = 8" using length_gen_auth [of R 8 g] ga by simp
  then obtain b bs where bytes: "bytes = b # bs" "length bs = 7" by (cases bytes) auto
  have h: "XdmGetAuthHelper E R name False g = (Some \<lparr>xa_family = FamilyWild, xa_address = [],
      xa_number = [], xa_name = name, xa_data = 0 # bs\<rparr>, g')"
    using assms(1) ga bytes by (simp add: XdmGetAuthHelper_def)
  show ?thesis
    using assms bytes by (simp add: XdmGetXdmcpAuth_def h first_eight_def Let_def)
qed

definition sample_rng :: rng where
  "sample_rng = \<lparr>rng_des = \<lparr>des_doit = \<lambda>k d. rotate1 d, des_odd_parity = id\<rparr>, rng_shr32 = \<lambda>w. w,
     rng_device = Some [1, 2, 3, 4, 5, 6, 7, 8], rng_prngd = None, rng_pre = [],
     rng_sum0 = (0, 0, 0, 0), rng_usec = 77, rng_sec = 99\<rparr>"

definition sample_generator :: generator where
  "sample_generator = \<lparr>g_entropy = entropy_init, g_key = [], g_inited = False\<rparr>"

lemma XdmGetXdmcpAuth_spec_witness:
  "XdmGetXdmcpAuth std_ext sample_rng toy_crypt (bytes_of ''XDM-AUTHORIZATION-1'') blank_proto
     sample_generator = Inl NullDeref"
proof -
  have m: "\<forall>t. x_calloc std_ext t" and p: "p_fileAuthorization blank_proto = None"
    by (simp_all add: std_ext_def blank_proto_def)
  have "p_authenticationData blank_proto = []" by (simp add: blank_proto_def)
  with XdmGetXdmcpAuth_spec [OF m p, where R = sample_rng and C = toy_crypt
      and name = "bytes_of ''XDM-AUTHORIZATION-1''" and g = sample_generator]
  show ?thesis by (simp split: sum.splits prod.splits)
qed

end
