(* ===== verification/Auth.thy ===== *)
theory Auth
  imports Dpylist Xdmauth
begin

text \<open>
  Authorization data, \<open>xdm/auth.c\<close>, for the two protocols of \<open>Xdmauth\<close>: choosing a
  protocol by name, the server's authority file, and the user's authority file.

  File contents are lists of \<open>Xauth\<close> records: the calls of \<open>XauWriteAuth\<close> and
  \<open>XauReadAuth\<close> in order.  What the file system answers is an argument of each operation.
\<close>

section \<open>Protocols\<close>

datatype auth_protocol = MitProtocol | XdmProtocol

definition mit_name :: "CARD8 list" where
  "mit_name = bytes_of ''MIT-MAGIC-COOKIE-1''"

definition xdm_name :: "CARD8 list" where
  "xdm_name = bytes_of ''XDM-AUTHORIZATION-1''"

definition findProtocol :: "CARD8 list \<Rightarrow> auth_protocol option" where
  "findProtocol name =
     map_option snd (find_first (\<lambda>p. fst p = name) [(mit_name, MitProtocol), (xdm_name, XdmProtocol)])"

definition ValidAuthorization :: "CARD8 list \<Rightarrow> bool" where
  "ValidAuthorization name \<longleftrightarrow> findProtocol name \<noteq> None"

text \<open>The flags \<open>inited\<close> of the table with the static names the initialisers keep, and the
  generator.\<close>

record auth_state =
  as_mit :: "CARD8 list option"
  as_xdm :: "CARD8 list option"
  as_gen :: generator

definition init_protocol :: "auth_protocol \<Rightarrow> CARD8 list \<Rightarrow> auth_state \<Rightarrow> auth_state" where
  "init_protocol a name s =
     (case a of
        MitProtocol \<Rightarrow> if as_mit s = None then s\<lparr>as_mit := Some (MitInitAuth name)\<rparr> else s
      | XdmProtocol \<Rightarrow> if as_xdm s = None then s\<lparr>as_xdm := Some (XdmInitAuth name)\<rparr> else s)"

definition get_auth ::
    "ext \<Rightarrow> rng \<Rightarrow> auth_protocol \<Rightarrow> CARD8 list \<Rightarrow> auth_state \<Rightarrow> Xauth option \<times> auth_state" where
  "get_auth E R a name s =
     (let (x, g) = (case a of MitProtocol \<Rightarrow> MitGetAuth E R name (as_gen s)
                    | XdmProtocol \<Rightarrow> XdmGetAuth E R name (as_gen s))
      in (x, s\<lparr>as_gen := g\<rparr>))"

definition GenerateAuthorization ::
    "ext \<Rightarrow> rng \<Rightarrow> CARD8 list \<Rightarrow> auth_state \<Rightarrow> Xauth option \<times> auth_state" where
  "GenerateAuthorization E R name s =
     (case findProtocol name of
        None \<Rightarrow> (None, s)
      | Some a \<Rightarrow> get_auth E R a name (init_protocol a name s))"

text \<open>Only XDM-AUTHORIZATION-1 has a \<open>GetXdmcpAuth\<close>.\<close>

definition SetProtoDisplayAuthorization ::
    "ext \<Rightarrow> rng \<Rightarrow> crypt \<Rightarrow> CARD8 list \<Rightarrow> protoDisplay \<Rightarrow> auth_state \<Rightarrow>
     c_error + (protoDisplay \<times> auth_state)" where
  "SetProtoDisplayAuthorization E R C name p s =
     (let p0 = p\<lparr>p_fileAuthorization := None, p_xdmcpAuthorization := None\<rparr>
      in case findProtocol name of
           None \<Rightarrow> Inr (p0, s)
         | Some a \<Rightarrow>
             (let s1 = init_protocol a name s
              in case a of
                   XdmProtocol \<Rightarrow>
                     mapE (\<lambda>(p1, g). (p1, s1\<lparr>as_gen := g\<rparr>)) (XdmGetXdmcpAuth E R C name p0 (as_gen s1))
                 | MitProtocol \<Rightarrow>
                     (let (x, s2) = get_auth E R a name s1
                      in Inr (p0\<lparr>p_fileAuthorization := x\<rparr>, s2))))"

section \<open>The server's authority file\<close>

definition clean_char :: "char \<Rightarrow> char" where
  "clean_char c =
     (let n = of_char c mod 128 :: nat
      in if n = 47 then CHR ''_'' else if n = 45 then CHR ''.'' else char_of n)"

definition CleanUpFileName :: "string \<Rightarrow> nat \<Rightarrow> string" where
  "CleanUpFileName src len = cstr (map clean_char (take (len - 1) src))"

text \<open>The answers of the file system.\<close>

record file_stat =
  fs_is_dir :: bool
  fs_uid :: nat
  fs_mode :: nat

datatype stat_result = Exists file_stat | NoEntry | StatFailed

record files =
  f_stat :: "string \<Rightarrow> stat_result"
  f_mkdir :: "string \<Rightarrow> bool"
  f_mkstemp :: "string \<Rightarrow> string option"
  f_open :: "string \<Rightarrow> bool"
  f_write :: bool

datatype file_event =
    Mkdir string nat
  | Chown string
  | Chmod string nat
  | Removed string
  | Wrote string "Xauth list"

text \<open>The return value, and the directory's status when it was there already.\<close>

definition CheckServerAuthDir ::
    "files \<Rightarrow> string \<Rightarrow> nat \<Rightarrow> int \<times> file_stat option \<times> file_event list" where
  "CheckServerAuthDir F path mode =
     (case f_stat F path of
        Exists st \<Rightarrow> if fs_is_dir st then (0, Some st, []) else (-1, Some st, [])
      | NoEntry \<Rightarrow> if f_mkdir F path then (1, None, [Mkdir path mode]) else (-1, None, [])
      | StatFailed \<Rightarrow> (-1, None, []))"

abbreviation (input) NAMELEN :: nat where "NAMELEN \<equiv> 255"

definition tighten :: "string \<Rightarrow> file_stat \<Rightarrow> file_event list" where
  "tighten path st =
     (if fs_uid st \<noteq> 0 then [Chown path] else []) @
     (if fs_mode st mod 64 \<noteq> 0 then [Chmod path (fs_mode st div 64 mod 8 * 64)] else [])"

definition auth_template :: "string \<Rightarrow> string \<Rightarrow> string" where
  "auth_template authDir cleanname =
     authDir @ ''/authdir/authfiles/A'' @ cleanname @ ''-XXXXXX''"

text \<open>The new \<open>authFile\<close>, whether the stream could be opened, and what was done; None is the
  FALSE of a failure before that, for which \<open>authFile\<close> is what it was, which is NULL.\<close>

definition MakeServerAuthFile ::
    "ext \<Rightarrow> files \<Rightarrow> string \<Rightarrow> display \<Rightarrow> (string \<times> bool) option \<times> file_event list" where
  "MakeServerAuthFile E F authDir d =
     (let reopen = (\<lambda>f ev. (Some (f, f_open F f), ev @ [Removed f]))
      in case au_authFile (d_auth d) of
           Some f \<Rightarrow> reopen f []
         | None \<Rightarrow>
             (case au_clientAuthFile (d_auth d) of
                Some (c # cs) \<Rightarrow>
                  (case x_strdup E (c # cs) of None \<Rightarrow> (None, []) | Some f \<Rightarrow> reopen f [])
              | _ \<Rightarrow>
                  (let cleanname = CleanUpFileName (d_name d) (NAMELEN - 8);
                       (r0, _, ev0) = CheckServerAuthDir F authDir 493
                   in if r0 < 0 then (None, ev0)
                      else if \<not> x_calloc E 0 then (None, ev0)
                      else
                        (let dir1 = authDir @ ''/authdir'';
                             (r1, st, ev1) = CheckServerAuthDir F dir1 448
                         in if r1 < 0 then (None, ev0 @ ev1)
                            else
                              (let ev2 = ev0 @ ev1 @ (if r1 = 0 then tighten dir1 (the st) else []);
                                   (r3, _, ev3) = CheckServerAuthDir F (dir1 @ ''/authfiles'') 448
                               in if r3 < 0 then (None, ev2 @ ev3)
                                  else case f_mkstemp F (auth_template authDir cleanname) of
                                         None \<Rightarrow> (None, ev2 @ ev3)
                                       | Some f \<Rightarrow> (Some (f, f_open F f), ev2 @ ev3))))))"

text \<open>The entries that are written are those with data.  With none to write, dummy data
  tests the file and is truncated away.\<close>

definition SaveServerAuthorizations ::
    "ext \<Rightarrow> files \<Rightarrow> string \<Rightarrow> Xauth list \<Rightarrow> display \<Rightarrow> bool \<times> display \<times> file_event list" where
  "SaveServerAuthorizations E F authDir auths d =
     (let set_file = (\<lambda>f. d\<lparr>d_auth := (d_auth d)\<lparr>au_authFile := f\<rparr>\<rparr>)
      in case MakeServerAuthFile E F authDir d of
           (None, ev) \<Rightarrow> (False, d, ev)
         | (Some (f, opened), ev) \<Rightarrow>
             (if \<not> opened then (False, set_file None, ev)
              else
                (let written = filter (\<lambda>a. xa_data a \<noteq> []) auths;
                     ok = (f_write F \<or> (auths \<noteq> [] \<and> written = []))
                 in if ok then (True, set_file (Some f), ev @ [Wrote f written])
                    else (False, set_file None, ev @ [Wrote f written]))))"

text \<open>One authorization for each name the configuration lists.\<close>

primrec generate_all ::
    "ext \<Rightarrow> rng \<Rightarrow> string list \<Rightarrow> auth_state \<Rightarrow> Xauth list \<times> auth_state" where
  "generate_all E R [] s = ([], s)"
| "generate_all E R (n # ns) s =
     (let (x, s1) = GenerateAuthorization E R (take (length n mod 65536) (bytes_of n)) s;
          (xs, s2) = generate_all E R ns s1
      in (case x of None \<Rightarrow> xs | Some a \<Rightarrow> a # xs, s2))"

definition SetLocalAuthorization ::
    "ext \<Rightarrow> rng \<Rightarrow> files \<Rightarrow> string \<Rightarrow> display \<Rightarrow> auth_state \<Rightarrow>
     display \<times> auth_state \<times> file_event list" where
  "SetLocalAuthorization E R F authDir d s =
     (let d1 = (if au_authorizations (d_auth d) = None then d
                else d\<lparr>d_auth := (d_auth d)\<lparr>au_authorizations := None, au_authNum := 0\<rparr>\<rparr>)
      in case au_authNames (d_auth d1) of
           None \<Rightarrow> (d1, s, [])
         | Some names \<Rightarrow>
             (let d2 = d1\<lparr>d_auth := (d_auth d1)\<lparr>au_authNameNum := int (length names)\<rparr>\<rparr>
              in if \<not> x_calloc E 1 then (d2, s, [])
                 else
                   (let (auths, s1) = generate_all E R names s;
                        (ok, d3, ev) = SaveServerAuthorizations E F authDir auths d2
                    in if ok
                       then (d3\<lparr>d_auth := (d_auth d3)\<lparr>au_authorizations := Some auths,
                                au_authNum := length auths\<rparr>\<rparr>, s1, ev)
                       else (d3, s1, ev))))"

text \<open>The calls of \<open>XSetAuthorization\<close>: those whose data does not depend on a user.\<close>

definition SetAuthorization :: "display \<Rightarrow> Xauth list" where
  "SetAuthorization d =
     (case au_authorizations (d_auth d) of
        None \<Rightarrow> []
      | Some auths \<Rightarrow>
          filter (\<lambda>a. xa_name a \<noteq> bytes_of ''SUN-DES-1'' \<and> xa_name a \<noteq> bytes_of ''MIT-KERBEROS-5'')
            (take (au_authNum (d_auth d)) auths))"

section \<open>Entries of the user's authority file\<close>

record addrList =
  al_family :: CARD16
  al_address :: "CARD8 list"
  al_number :: "CARD8 list"
  al_name :: "CARD8 list"

record auth_writer =
  aw_file :: "Xauth list"
  aw_addrs :: "addrList list"
  aw_doWrite :: bool

definition addr_entry :: "Xauth \<Rightarrow> addrList" where
  "addr_entry a =
     \<lparr>al_family = xa_family a, al_address = xa_address a, al_number = xa_number a,
      al_name = xa_name a\<rparr>"

definition saveEntry :: "ext \<Rightarrow> Xauth \<Rightarrow> auth_writer \<Rightarrow> auth_writer" where
  "saveEntry E a w =
     (if x_calloc E (length (aw_addrs w)) then w\<lparr>aw_addrs := addr_entry a # aw_addrs w\<rparr> else w)"

definition binaryEqual :: "CARD8 list \<Rightarrow> CARD8 list \<Rightarrow> nat \<Rightarrow> bool" where
  "binaryEqual a b len \<longleftrightarrow> take len a = take len b"

definition entry_equal :: "addrList \<Rightarrow> Xauth \<Rightarrow> bool" where
  "entry_equal e a \<longleftrightarrow>
     al_family e = xa_family a \<and>
     length (al_address e) = length (xa_address a) \<and>
     binaryEqual (al_address e) (xa_address a) (length (xa_address a)) \<and>
     length (al_number e) = length (xa_number a) \<and>
     binaryEqual (al_number e) (xa_number a) (length (xa_number a)) \<and>
     length (al_name e) = length (xa_name a) \<and>
     binaryEqual (al_name e) (xa_name a) (length (xa_name a))"

definition checkEntry :: "Xauth \<Rightarrow> addrList list \<Rightarrow> bool" where
  "checkEntry a addrs \<longleftrightarrow> find_first (\<lambda>e. entry_equal e a) addrs \<noteq> None"

definition writeAuth :: "Xauth \<Rightarrow> auth_writer \<Rightarrow> auth_writer" where
  "writeAuth a w = (if aw_doWrite w then w\<lparr>aw_file := aw_file w @ [a]\<rparr> else w)"

text \<open>The entry is overwritten with the address before it is written and saved.\<close>

definition writeAddr ::
    "ext \<Rightarrow> int \<times> CARD8 list \<Rightarrow> Xauth \<times> auth_writer \<Rightarrow> Xauth \<times> auth_writer" where
  "writeAddr E = (\<lambda>(family, addr) (a, w).
     let a' = a\<lparr>xa_family := word_of_int family, xa_address := addr\<rparr>
     in (a', saveEntry E a' (writeAuth a' w)))"

text \<open>Which of the host's interfaces \<open>DefineSelf\<close> writes.  The name is compared with
  \<open>strcmp\<close> although it has no terminator: the byte behind it takes part.\<close>

definition self_address :: "ext \<Rightarrow> CARD8 list \<Rightarrow> sockaddr option \<Rightarrow> (int \<times> CARD8 list) option" where
  "self_address E name ifa =
     (case ConvertAddr ifa of
        (family, Some (len, Some addr)) \<Rightarrow>
          (if family = -1 \<or> family = FamilyLocal then None
           else if family = FamilyInternet \<and> len = 4 \<and> addr ! 0 = 127 then None
           else if family = FamilyInternet6 \<and> addr = loopback6 then None
           else if family = FamilyInternet6 \<and> name = xdm_name \<and> x_past_end E = 0 then None
           else Some (family, addr))
      | _ \<Rightarrow> None)"

definition DefineSelf :: "ext \<Rightarrow> Xauth \<times> auth_writer \<Rightarrow> Xauth \<times> auth_writer" where
  "DefineSelf E aw =
     (case x_getifaddrs E of
        None \<Rightarrow> aw
      | Some ifas \<Rightarrow> fold (writeAddr E) (List.map_filter (self_address E (xa_name (fst aw))) ifas) aw)"

definition DefineLocal :: "ext \<Rightarrow> Xauth \<times> auth_writer \<Rightarrow> Xauth \<times> auth_writer" where
  "DefineLocal E aw = writeAddr E (FamilyLocal, bytes_of (x_xhostname E)) aw"

text \<open>The display number: what follows the last colon, up to a dot.\<close>

definition setAuthNumber :: "ext \<Rightarrow> string \<Rightarrow> Xauth \<Rightarrow> Xauth" where
  "setAuthNumber E name a =
     (case strrchr name CHR '':'' of
        None \<Rightarrow> a
      | Some (_, colon) \<Rightarrow>
          (let number = (case strchr colon CHR ''.'' of Some (n, _) \<Rightarrow> n | None \<Rightarrow> colon)
           in a\<lparr>xa_number := (if x_calloc E 0 then bytes_of number else [])\<rparr>))"

definition writeLocalAuth :: "ext \<Rightarrow> string \<Rightarrow> Xauth \<times> auth_writer \<Rightarrow> Xauth \<times> auth_writer" where
  "writeLocalAuth E name = (\<lambda>(a, w). DefineLocal E (DefineSelf E (setAuthNumber E name a, w)))"

definition writeRemoteAuth ::
    "ext \<Rightarrow> sockaddr option \<Rightarrow> int \<Rightarrow> string \<Rightarrow> Xauth \<times> auth_writer \<Rightarrow>
     c_error + (Xauth \<times> auth_writer)" where
  "writeRemoteAuth E peer peerlen name = (\<lambda>(a, w).
     if peer = None \<or> peerlen < 2 then Inr (a, w)
     else
       (let a1 = setAuthNumber E name a
        in case ConvertAddr peer of
             (family, Some (len, addr)) \<Rightarrow>
               (if family \<noteq> FamilyLocal then
                  (case addr of
                     None \<Rightarrow> Inl NullDeref
                   | Some bytes \<Rightarrow> Inr (writeAddr E (family, bytes) (a1, w)))
                else Inr (writeLocalAuth E name (a1, w)))
           | _ \<Rightarrow> Inr (a1, w)))"

text \<open>What both callers do for one authorization of a display.\<close>

definition write_for ::
    "ext \<Rightarrow> display \<Rightarrow> Xauth \<times> auth_writer \<Rightarrow> c_error + (Xauth \<times> auth_writer)" where
  "write_for E d aw =
     (if dt_location (d_displayType d) = Local then Inr (writeLocalAuth E (d_name d) aw)
      else writeRemoteAuth E (d_peer d) (d_peerlen d) (d_name d) aw)"

section \<open>The user's authority file\<close>

record verify_info =
  vi_uid :: int
  vi_gid :: int
  vi_argv :: "string list option"
  vi_userEnviron :: env
  vi_systemEnviron :: env

text \<open>What the locks and the file system answer: for the file in the home directory whether it
  could be locked, whether the new file could be created, and what the old one holds; the same
  for the backup, which \<open>mkstemp\<close> creates empty; and whether \<open>link\<close> succeeds.\<close>

record user_files =
  u_home_lock :: bool
  u_home_create :: bool
  u_home_old :: "Xauth list option"
  u_mkstemp :: "string \<Rightarrow> string option"
  u_backup_lock :: bool
  u_backup_create :: bool
  u_link :: bool

text \<open>\<open>openFiles\<close> builds the new name in a buffer of 1024 bytes without checking; \<open>old\<close> is
  the stream that is already open, or what opening the file gives.\<close>

definition openFiles ::
    "string \<Rightarrow> bool \<Rightarrow> Xauth list option \<Rightarrow> c_error + (string \<times> Xauth list option) option" where
  "openFiles name create old =
     (if length name + 3 > 1024 then Inl OutOfBounds
      else Inr (if create then Some (name @ ''-n'', old) else None))"

definition home_target ::
    "user_files \<Rightarrow> verify_info \<Rightarrow> c_error + (string \<times> Xauth list) option" where
  "home_target U v =
     (case getEnv (vi_userEnviron v) ''HOME'' of
        None \<Rightarrow> Inr None
      | Some home \<Rightarrow>
          (let name = snprintf_keep 1024 (home @ ''/.Xauthority'')
           in if \<not> u_home_lock U then Inr None
              else mapE (\<lambda>r. case r of Some (_, Some old) \<Rightarrow> Some (name, old) | _ \<Rightarrow> None)
                     (openFiles name (u_home_create U) (u_home_old U))))"

definition backup_target ::
    "user_files \<Rightarrow> display \<Rightarrow> c_error + (string \<times> Xauth list) option" where
  "backup_target U d =
     (let dir = (case au_userAuthDir (d_auth d) of Some s \<Rightarrow> s | None \<Rightarrow> ''(null)'')
      in case u_mkstemp U (snprintf_keep 1024 (dir @ ''/.XauthXXXXXX'')) of
           None \<Rightarrow> Inr None
         | Some name \<Rightarrow>
             (if \<not> u_backup_lock U then Inr None
              else mapE (\<lambda>r. case r of Some (_, Some old) \<Rightarrow> Some (name, old) | _ \<Rightarrow> None)
                     (openFiles name (u_backup_create U) (Some []))))"

text \<open>The loop over the authorizations from index \<open>i\<close>, without the one at \<open>skip\<close>; \<open>prep\<close>
  is what is done to an entry for the time of the call.\<close>

primrec write_list ::
    "ext \<Rightarrow> display \<Rightarrow> (Xauth \<Rightarrow> Xauth) \<Rightarrow> nat option \<Rightarrow> nat \<Rightarrow> Xauth list \<Rightarrow> auth_writer \<Rightarrow>
     c_error + (Xauth list \<times> auth_writer)" where
  "write_list E d prep skip i [] w = Inr ([], w)"
| "write_list E d prep skip i (a # auths) w =
     (if skip = Some i then mapE (map_prod (Cons a) id) (write_list E d prep skip (Suc i) auths w)
      else bindE (write_for E d (prep a, w)) (\<lambda>(a', w').
             mapE (map_prod (Cons (a'\<lparr>xa_data := xa_data a\<rparr>)) id)
               (write_list E d prep skip (Suc i) auths w')))"

definition kerberos_blank :: "Xauth \<Rightarrow> Xauth" where
  "kerberos_blank a = (if xa_name a = bytes_of ''MIT-KERBEROS-5'' then a\<lparr>xa_data := []\<rparr> else a)"

definition magic_index :: "Xauth list \<Rightarrow> nat option" where
  "magic_index auths =
     (let i = length (takeWhile (\<lambda>a. xa_name a \<noteq> mit_name) auths)
      in if i < length auths then Some i else None)"

text \<open>The magic cookie first, then the others.\<close>

definition write_new ::
    "ext \<Rightarrow> display \<Rightarrow> Xauth list \<Rightarrow> auth_writer \<Rightarrow> c_error + (Xauth list \<times> auth_writer)" where
  "write_new E d auths w =
     (case magic_index auths of
        None \<Rightarrow> write_list E d kerberos_blank None 0 auths w
      | Some m \<Rightarrow>
          bindE (write_for E d (auths ! m, w)) (\<lambda>(a, w').
            write_list E d kerberos_blank (Some m) 0 (auths[m := a]) w'))"

definition copy_entry :: "Xauth \<Rightarrow> auth_writer \<Rightarrow> auth_writer" where
  "copy_entry e w = (if checkEntry e (aw_addrs w) then w else writeAuth e w)"

definition new_writer :: "bool \<Rightarrow> auth_writer" where
  "new_writer write = \<lparr>aw_file = [], aw_addrs = [], aw_doWrite = write\<rparr>"

text \<open>The result: the display with its entries as the writing left them, the environments, and
  the file that was written, by name.  None when no file could be locked.\<close>

definition SetUserAuthorization ::
    "ext \<Rightarrow> user_files \<Rightarrow> display \<Rightarrow> verify_info \<Rightarrow>
     c_error + (display \<times> verify_info \<times> (string \<times> Xauth list) option)" where
  "SetUserAuthorization E U d v =
     (case au_authorizations (d_auth d) of
        None \<Rightarrow> Inr (d, v, None)
      | Some auths \<Rightarrow>
          bindE (home_target U v) (\<lambda>home.
          bindE (case home of
                   Some (n, old) \<Rightarrow> Inr (Some (n, old, False))
                 | None \<Rightarrow> mapE (map_option (\<lambda>(n, old). (n, old, True))) (backup_target U d))
            (\<lambda>target.
            case target of
              None \<Rightarrow> Inr (d, v, None)
            | Some (name, old, backup) \<Rightarrow>
                bindE (write_new E d auths (new_writer True)) (\<lambda>(auths', w).
                  let w' = fold copy_entry old w;
                      envname = (if u_link U then name else name @ ''-n'');
                      set = (backup \<or> \<not> u_link U);
                      v' = (if set
                            then v\<lparr>vi_userEnviron := setEnv (x_calloc E 0) (vi_userEnviron v) ''XAUTHORITY'' envname,
                                   vi_systemEnviron := setEnv (x_calloc E 0) (vi_systemEnviron v) ''XAUTHORITY'' envname\<rparr>
                            else v)
                  in Inr (d\<lparr>d_auth := (d_auth d)\<lparr>au_authorizations := Some auths'\<rparr>\<rparr>, v',
                          Some (envname, aw_file w'))))))"

definition RemoveUserAuthorization ::
    "ext \<Rightarrow> user_files \<Rightarrow> display \<Rightarrow> verify_info \<Rightarrow>
     c_error + (display \<times> (string \<times> Xauth list) option)" where
  "RemoveUserAuthorization E U d v =
     (case au_authorizations (d_auth d) of
        None \<Rightarrow> Inr (d, None)
      | Some auths \<Rightarrow>
          (case getEnv (vi_userEnviron v) ''HOME'' of
             None \<Rightarrow> Inr (d, None)
           | Some home \<Rightarrow>
               (let name = snprintf_keep 1024 (home @ ''/.Xauthority'')
                in if \<not> u_home_lock U then Inr (d, None)
                   else
                     bindE (openFiles name (u_home_create U) (u_home_old U)) (\<lambda>r.
                     case r of
                       None \<Rightarrow> Inr (d, None)
                     | Some (new_name, old) \<Rightarrow>
                         bindE (write_list E d id None 0 auths (new_writer False)) (\<lambda>(auths', w).
                           let w1 = w\<lparr>aw_doWrite := True\<rparr>;
                               w2 = fold copy_entry (case old of None \<Rightarrow> [] | Some es \<Rightarrow> es) w1
                           in Inr (d\<lparr>d_auth := (d_auth d)\<lparr>au_authorizations := Some auths'\<rparr>\<rparr>,
                                   Some (if u_link U then name else new_name, aw_file w2)))))))"

section \<open>What the writing writes\<close>

text \<open>The addresses an authorization is written for, and the entries that makes.\<close>

definition auth_addresses :: "ext \<Rightarrow> display \<Rightarrow> CARD8 list \<Rightarrow> (int \<times> CARD8 list) list" where
  "auth_addresses E d name =
     (let here = (case x_getifaddrs E of None \<Rightarrow> [] | Some ifas \<Rightarrow> List.map_filter (self_address E name) ifas) @
                 [(FamilyLocal, bytes_of (x_xhostname E))]
      in if dt_location (d_displayType d) = Local then here
         else if d_peer d = None \<or> d_peerlen d < 2 then []
         else case ConvertAddr (d_peer d) of
                (family, Some (_, Some bytes)) \<Rightarrow> if family = FamilyLocal then here else [(family, bytes)]
              | _ \<Rightarrow> here)"

definition new_entries :: "ext \<Rightarrow> display \<Rightarrow> Xauth \<Rightarrow> Xauth list" where
  "new_entries E d a =
     map (\<lambda>(f, addr). (setAuthNumber E (d_name d) a)\<lparr>xa_family := word_of_int f, xa_address := addr\<rparr>)
       (auth_addresses E d (xa_name a))"

text \<open>A remote display whose peer has no address the code can print.\<close>

definition bad_peer :: "display \<Rightarrow> bool" where
  "bad_peer d \<longleftrightarrow>
     dt_location (d_displayType d) = Foreign \<and> d_peer d \<noteq> None \<and> 2 \<le> d_peerlen d \<and>
     (\<exists>f n. ConvertAddr (d_peer d) = (f, Some (n, None)) \<and> f \<noteq> FamilyLocal)"

definition add_entries :: "Xauth list \<Rightarrow> auth_writer \<Rightarrow> auth_writer" where
  "add_entries as w =
     w\<lparr>aw_file := aw_file w @ (if aw_doWrite w then as else []),
       aw_addrs := rev (map addr_entry as) @ aw_addrs w\<rparr>"

lemma add_entries_append: "add_entries bs (add_entries as w) = add_entries (as @ bs) w"
  by (simp add: add_entries_def)

lemma add_entries_Nil [simp]: "add_entries [] w = w"
  by (simp add: add_entries_def)

lemma writeAddr_add:
  "\<forall>t. x_calloc E t \<Longrightarrow> writeAddr E (f, addr) (a, w) =
    (let a' = a\<lparr>xa_family := word_of_int f, xa_address := addr\<rparr> in (a', add_entries [a'] w))"
  by (simp add: writeAddr_def Let_def add_entries_def saveEntry_def writeAuth_def)

definition at_address :: "Xauth \<Rightarrow> int \<times> CARD8 list \<Rightarrow> Xauth" where
  "at_address a fa = a\<lparr>xa_family := word_of_int (fst fa), xa_address := snd fa\<rparr>"

lemma at_address_at [simp]: "at_address (at_address a fa) fb = at_address a fb"
  by (simp add: at_address_def)

lemma at_address_fields [simp]:
  "xa_name (at_address a fa) = xa_name a" "xa_number (at_address a fa) = xa_number a"
  "xa_data (at_address a fa) = xa_data a"
  by (simp_all add: at_address_def)

lemma fold_writeAddr:
  assumes "\<forall>t. x_calloc E t"
  shows "fold (writeAddr E) fas (a, w) =
    (if fas = [] then a else at_address a (last fas), add_entries (map (at_address a) fas) w)"
proof (induction fas arbitrary: a w)
  case (Cons fa fas)
  have "writeAddr E fa (a, w) = (at_address a fa, add_entries [at_address a fa] w)"
    using writeAddr_add [OF assms, of "fst fa" "snd fa" a w] by (simp add: at_address_def Let_def)
  moreover have "map (at_address (at_address a fa)) fas = map (at_address a) fas" by simp
  ultimately show ?case using Cons by (simp add: add_entries_append)
qed simp

lemma writeLocalAuth_add:
  assumes "\<forall>t. x_calloc E t"
  shows "writeLocalAuth E name (a, w) =
    (let a1 = setAuthNumber E name a;
         fas = (case x_getifaddrs E of None \<Rightarrow> []
                | Some ifas \<Rightarrow> List.map_filter (self_address E (xa_name a1)) ifas) @
               [(FamilyLocal, bytes_of (x_xhostname E))]
     in (at_address a1 (last fas), add_entries (map (at_address a1) fas) w))"
proof -
  have "writeLocalAuth E name (a, w) = fold (writeAddr E)
      ((case x_getifaddrs E of None \<Rightarrow> []
        | Some ifas \<Rightarrow> List.map_filter (self_address E (xa_name (setAuthNumber E name a))) ifas) @
       [(FamilyLocal, bytes_of (x_xhostname E))]) (setAuthNumber E name a, w)"
    by (simp add: writeLocalAuth_def DefineLocal_def DefineSelf_def split: option.split)
  then show ?thesis unfolding fold_writeAddr [OF assms] by (simp add: Let_def)
qed

lemma setAuthNumber_fields [simp]:
  "xa_name (setAuthNumber E n a) = xa_name a" "xa_data (setAuthNumber E n a) = xa_data a"
  by (simp_all add: setAuthNumber_def Let_def split: option.split prod.split)

lemma setAuthNumber_idem:
  "xa_number (setAuthNumber E n (at_address (setAuthNumber E n a) fa)) = xa_number (setAuthNumber E n a)"
  by (simp add: setAuthNumber_def Let_def split: option.split prod.split)

lemma new_entries_at: "new_entries E d a = map (at_address (setAuthNumber E (d_name d) a)) (auth_addresses E d (xa_name a))"
  by (simp add: new_entries_def at_address_def split_def)

lemma addr_entry_at: "addr_entry (at_address a fa) =
    \<lparr>al_family = word_of_int (fst fa), al_address = snd fa, al_number = xa_number a, al_name = xa_name a\<rparr>"
  by (simp add: addr_entry_def at_address_def)

text \<open>The keys under which an authorization is filed.\<close>

definition auth_keys :: "ext \<Rightarrow> display \<Rightarrow> Xauth \<Rightarrow> addrList list" where
  "auth_keys E d a = map addr_entry (new_entries E d a)"

lemma auth_keys_cong:
  "xa_name a = xa_name b \<Longrightarrow> xa_number (setAuthNumber E (d_name d) a) = xa_number (setAuthNumber E (d_name d) b) \<Longrightarrow>
    auth_keys E d a = auth_keys E d b"
  by (simp add: auth_keys_def new_entries_at addr_entry_at)

lemma write_for_add:
  assumes "\<forall>t. x_calloc E t" "\<not> bad_peer d"
  obtains a' where "write_for E d (a, w) = Inr (a', add_entries (new_entries E d a) w)"
    "xa_name a' = xa_name a" "auth_keys E d a' = auth_keys E d a"
proof -
  let ?a1 = "setAuthNumber E (d_name d) a"
  consider (here) "auth_addresses E d (xa_name a) =
        (case x_getifaddrs E of None \<Rightarrow> [] | Some ifas \<Rightarrow> List.map_filter (self_address E (xa_name a)) ifas) @
        [(FamilyLocal, bytes_of (x_xhostname E))]" "write_for E d (a, w) = Inr (writeLocalAuth E (d_name d) (a, w))
        \<or> write_for E d (a, w) = Inr (writeLocalAuth E (d_name d) (?a1, w))"
    | (none) "auth_addresses E d (xa_name a) = []" "write_for E d (a, w) = Inr (a, w)"
    | (there) f bytes where "auth_addresses E d (xa_name a) = [(f, bytes)]"
        "write_for E d (a, w) = Inr (writeAddr E (f, bytes) (?a1, w))"
  proof (cases "dt_location (d_displayType d)")
    case Local
    then show thesis by (intro here) (simp_all add: auth_addresses_def write_for_def Let_def)
  next
    case Foreign
    show thesis
    proof (cases "d_peer d = None \<or> d_peerlen d < 2")
      case True
      with Foreign show thesis
        by (intro none) (auto simp: auth_addresses_def write_for_def writeRemoteAuth_def)
    next
      case False
      then obtain sa where sa: "d_peer d = Some sa" by auto
      obtain f n ad where c: "ConvertAddr (d_peer d) = (f, Some (n, ad))"
        unfolding sa by (cases "ConvertAddr (Some sa)") (auto simp: Let_def split: prod.splits)
      show thesis
      proof (cases "f = FamilyLocal")
        case True
        with Foreign False c show thesis
          by (intro here) (cases ad; auto simp: auth_addresses_def write_for_def writeRemoteAuth_def Let_def)+
      next
        case nl: False
        with assms(2) Foreign False c obtain bytes where "ad = Some bytes"
          unfolding bad_peer_def by (cases ad) auto
        with nl Foreign False c show thesis
          by (intro there [of f bytes]) (auto simp: auth_addresses_def write_for_def writeRemoteAuth_def)
      qed
    qed
  qed
  then show thesis
  proof cases
    case here
    have idem: "setAuthNumber E (d_name d) ?a1 = ?a1"
      by (simp add: setAuthNumber_def Let_def split: option.split prod.split)
    have "write_for E d (a, w) =
        Inr (at_address ?a1 (last (auth_addresses E d (xa_name a))), add_entries (new_entries E d a) w)"
      using here
      by (auto simp: writeLocalAuth_add [OF assms(1)] Let_def new_entries_at idem split: option.splits)
    then show thesis
      by (rule that) (auto intro!: auth_keys_cong simp: setAuthNumber_idem)
  next
    case none
    then show thesis by (intro that [of a]) (simp_all add: new_entries_at)
  next
    case there
    have "writeAddr E (f, bytes) (?a1, w) = (at_address ?a1 (f, bytes), add_entries [at_address ?a1 (f, bytes)] w)"
      by (simp add: writeAddr_add [OF assms(1)] at_address_def Let_def)
    with there have "write_for E d (a, w) = Inr (at_address ?a1 (f, bytes), add_entries (new_entries E d a) w)"
      by (simp add: new_entries_at)
    then show thesis
      by (rule that) (auto intro!: auth_keys_cong simp: setAuthNumber_idem)
  qed
qed


text \<open>The whole loop: the entries of every authorization that is not skipped, in order, and the
  authorizations keep the keys they are filed under.\<close>

definition unskipped :: "nat option \<Rightarrow> nat \<Rightarrow> Xauth list \<Rightarrow> Xauth list" where
  "unskipped skip i auths = map snd (filter (\<lambda>(j, _). skip \<noteq> Some j) (enumerate i auths))"

lemma unskipped_simps [simp]:
  "unskipped skip i [] = []"
  "unskipped skip i (a # as) = (if skip = Some i then [] else [a]) @ unskipped skip (Suc i) as"
  by (simp_all add: unskipped_def)

lemma unskipped_None [simp]: "unskipped None i as = as"
  by (induction as arbitrary: i) simp_all

lemma unskipped_past: "m < i \<Longrightarrow> unskipped (Some m) i as = as"
  by (induction as arbitrary: i) simp_all

lemma unskipped_Some:
  "i \<le> m \<Longrightarrow> m < i + length as \<Longrightarrow>
    unskipped (Some m) i as = take (m - i) as @ drop (Suc (m - i)) as"
  by (induction as arbitrary: i) (auto simp: unskipped_past Suc_diff_le Suc_diff_Suc take_Cons' drop_Cons')

definition same_keys :: "ext \<Rightarrow> display \<Rightarrow> Xauth list \<Rightarrow> Xauth list \<Rightarrow> bool" where
  "same_keys E d as bs \<longleftrightarrow> map xa_name bs = map xa_name as \<and> map (auth_keys E d) bs = map (auth_keys E d) as"

definition entries_for :: "ext \<Rightarrow> display \<Rightarrow> Xauth list \<Rightarrow> Xauth list" where
  "entries_for E d auths = concat (map (new_entries E d) auths)"

lemma entries_for_simps [simp]:
  "entries_for E d [] = []"
  "entries_for E d (a # as) = new_entries E d a @ entries_for E d as"
  "entries_for E d (as @ bs) = entries_for E d as @ entries_for E d bs"
  by (simp_all add: entries_for_def)

lemma auth_keys_data [simp]: "auth_keys E d (a\<lparr>xa_data := x\<rparr>) = auth_keys E d a"
  by (rule auth_keys_cong) (simp_all add: setAuthNumber_def Let_def split: option.split prod.split)

lemma write_list_add:
  assumes "\<forall>t. x_calloc E t" "\<not> bad_peer d"
    "\<And>a. xa_name (prep a) = xa_name a" "\<And>a. auth_keys E d (prep a) = auth_keys E d a"
  shows "\<exists>auths'. write_list E d prep skip i auths w =
      Inr (auths', add_entries (entries_for E d (map prep (unskipped skip i auths))) w) \<and>
      same_keys E d auths auths'"
proof (induction auths arbitrary: i w)
  case Nil
  then show ?case by (simp add: same_keys_def)
next
  case (Cons a auths)
  show ?case
  proof (cases "skip = Some i")
    case True
    with Cons [of "Suc i" w] show ?thesis by (auto simp: same_keys_def)
  next
    case False
    obtain a' where a': "write_for E d (prep a, w) = Inr (a', add_entries (new_entries E d (prep a)) w)"
      "xa_name a' = xa_name a" "auth_keys E d a' = auth_keys E d a"
      using write_for_add [OF assms(1,2), of "prep a" w] assms(3,4) by metis
    from Cons [of "Suc i" "add_entries (new_entries E d (prep a)) w"] False a' show ?thesis
      by (auto simp: same_keys_def add_entries_append)
  qed
qed

lemma kerberos_blank_keys [simp]:
  "xa_name (kerberos_blank a) = xa_name a" "auth_keys E d (kerberos_blank a) = auth_keys E d a"
  by (simp_all add: kerberos_blank_def)

text \<open>The magic cookie in front of the others.\<close>

definition cookie_first :: "Xauth list \<Rightarrow> Xauth list" where
  "cookie_first auths =
     (case find_first (\<lambda>a. xa_name a = mit_name) auths of
        None \<Rightarrow> auths
      | Some a \<Rightarrow> a # remove_first (\<lambda>a. xa_name a = mit_name) auths)"

lemma magic_index_first:
  "case magic_index auths of
     None \<Rightarrow> find_first (\<lambda>a. xa_name a = mit_name) auths = None
   | Some m \<Rightarrow> m < length auths \<and> find_first (\<lambda>a. xa_name a = mit_name) auths = Some (auths ! m) \<and>
       remove_first (\<lambda>a. xa_name a = mit_name) auths = take m auths @ drop (Suc m) auths"
  by (induction auths) (auto simp: magic_index_def Let_def split: if_splits)

lemma kerberos_blank_mit: "xa_name a = mit_name \<Longrightarrow> kerberos_blank a = a"
  by (simp add: kerberos_blank_def mit_name_def bytes_of_def)

lemma write_new_add:
  assumes "\<forall>t. x_calloc E t" "\<not> bad_peer d"
  shows "\<exists>auths'. write_new E d auths w =
      Inr (auths', add_entries (entries_for E d (map kerberos_blank (cookie_first auths))) w) \<and>
      same_keys E d auths auths'"
proof (cases "magic_index auths")
  case None
  with magic_index_first [of auths] have "cookie_first auths = auths"
    by (simp add: cookie_first_def)
  with None write_list_add [OF assms, of kerberos_blank None 0 auths w] show ?thesis
    by (simp add: write_new_def)
next
  case (Some m)
  with magic_index_first [of auths] have m: "m < length auths"
    "find_first (\<lambda>a. xa_name a = mit_name) auths = Some (auths ! m)"
    "cookie_first auths = auths ! m # take m auths @ drop (Suc m) auths"
    by (simp_all add: cookie_first_def)
  have mit: "kerberos_blank (auths ! m) = auths ! m"
    using find_first_SomeD [OF m(2)] by (simp add: kerberos_blank_mit)
  obtain a' where a': "write_for E d (auths ! m, w) = Inr (a', add_entries (new_entries E d (auths ! m)) w)"
    "xa_name a' = xa_name (auths ! m)" "auth_keys E d a' = auth_keys E d (auths ! m)"
    using write_for_add [OF assms] by metis
  have un: "unskipped (Some m) 0 (auths[m := a']) = take m auths @ drop (Suc m) auths"
    using m(1) by (simp add: unskipped_Some)
  have same: "same_keys E d auths (auths[m := a'])"
    using a' m(1) by (simp add: same_keys_def map_update list_update_same_conv)
  show ?thesis
    using Some a'(1) same m(3)
      write_list_add [OF assms, of kerberos_blank "Some m" 0 "auths[m := a']"
        "add_entries (new_entries E d (auths ! m)) w"]
    by (auto simp: write_new_def un mit add_entries_append same_keys_def)
qed

lemma entry_equal_iff: "entry_equal e a \<longleftrightarrow> e = addr_entry a"
  by (cases e) (auto simp: entry_equal_def binaryEqual_def addr_entry_def)

lemma checkEntry_iff: "checkEntry a addrs \<longleftrightarrow> addr_entry a \<in> set addrs"
  by (auto simp: checkEntry_def find_first_None_iff entry_equal_iff)

lemma fold_copy_entry:
  "aw_doWrite w \<Longrightarrow> fold copy_entry old w =
    w\<lparr>aw_file := aw_file w @ filter (\<lambda>e. addr_entry e \<notin> set (aw_addrs w)) old\<rparr>"
  by (induction old arbitrary: w) (simp_all add: copy_entry_def checkEntry_iff writeAuth_def)

text \<open>The entries of a file that no authorization of the display is filed under.\<close>

definition foreign_entries :: "ext \<Rightarrow> display \<Rightarrow> Xauth list \<Rightarrow> Xauth list \<Rightarrow> Xauth list" where
  "foreign_entries E d auths old =
     filter (\<lambda>e. \<forall>a \<in> set auths. addr_entry e \<notin> set (auth_keys E d a)) old"

lemma key_image: "addr_entry ` set (new_entries E d a) = set (auth_keys E d a)"
  by (simp add: auth_keys_def)

lemma keys_entries_for:
  "(\<And>a. a \<in> set as \<Longrightarrow> auth_keys E d (f a) = auth_keys E d a) \<Longrightarrow>
    addr_entry ` set (entries_for E d (map f as)) = (\<Union>a\<in>set as. set (auth_keys E d a))"
  by (simp add: entries_for_def image_UN key_image)

lemma set_cookie_first: "set (cookie_first auths) = set auths"
proof (cases "magic_index auths")
  case None
  with magic_index_first [of auths] show ?thesis by (simp add: cookie_first_def)
next
  case (Some m)
  with magic_index_first [of auths] have m: "m < length auths"
    "cookie_first auths = auths ! m # take m auths @ drop (Suc m) auths"
    by (simp_all add: cookie_first_def)
  from m(1) have "set auths = set (take m auths @ auths ! m # drop (Suc m) auths)"
    by (simp add: id_take_nth_drop [symmetric])
  with m(2) show ?thesis by simp
qed

lemma same_keys_foreign: "same_keys E d as bs \<Longrightarrow> foreign_entries E d bs old = foreign_entries E d as old"
proof -
  assume "same_keys E d as bs"
  then have "auth_keys E d ` set bs = auth_keys E d ` set as"
    by (metis same_keys_def list.set_map)
  then have "(\<forall>a \<in> set bs. x \<notin> set (auth_keys E d a)) \<longleftrightarrow> (\<forall>a \<in> set as. x \<notin> set (auth_keys E d a))" for x
    by (metis (no_types, lifting) image_iff)
  then show ?thesis by (simp add: foreign_entries_def)
qed

lemma new_then_old:
  assumes "\<forall>t. x_calloc E t" "\<not> bad_peer d"
  shows "\<exists>auths' w. write_new E d auths (new_writer True) = Inr (auths', w) \<and>
      aw_file (fold copy_entry old w) =
        entries_for E d (map kerberos_blank (cookie_first auths)) @ foreign_entries E d auths old \<and>
      same_keys E d auths auths'"
proof -
  let ?new = "entries_for E d (map kerberos_blank (cookie_first auths))"
  have "addr_entry ` set ?new = (\<Union>a\<in>set auths. set (auth_keys E d a))"
    by (subst keys_entries_for) (simp_all add: set_cookie_first)
  moreover obtain auths' where a: "write_new E d auths (new_writer True) = Inr (auths', add_entries ?new (new_writer True))"
    "same_keys E d auths auths'"
    using write_new_add [OF assms] by blast
  ultimately show ?thesis
    by (simp add: fold_copy_entry add_entries_def new_writer_def foreign_entries_def)
qed

section \<open>Logging in and logging out\<close>

definition with_auths :: "display \<Rightarrow> Xauth list \<Rightarrow> display" where
  "with_auths d auths = d\<lparr>d_auth := (d_auth d)\<lparr>au_authorizations := Some auths\<rparr>\<rparr>"

lemma with_auths_fields [simp]:
  "d_name (with_auths d bs) = d_name d" "d_displayType (with_auths d bs) = d_displayType d"
  "d_peer (with_auths d bs) = d_peer d" "d_peerlen (with_auths d bs) = d_peerlen d"
  "au_authorizations (d_auth (with_auths d bs)) = Some bs"
  by (simp_all add: with_auths_def)

lemma auth_keys_with_auths [simp]: "auth_keys E (with_auths d bs) a = auth_keys E d a"
  unfolding auth_keys_def new_entries_at auth_addresses_def with_auths_fields ..

lemma bad_peer_with_auths [simp]: "bad_peer (with_auths d bs) = bad_peer d"
  by (simp add: bad_peer_def)

lemma foreign_entries_with_auths [simp]:
  "foreign_entries E (with_auths d bs) as old = foreign_entries E d as old"
  by (simp add: foreign_entries_def)

lemma foreign_entries_own: "foreign_entries E d auths
    (entries_for E d (map kerberos_blank (cookie_first auths)) @ foreign_entries E d auths old) =
  foreign_entries E d auths old"
proof -
  have "addr_entry ` set (entries_for E d (map kerberos_blank (cookie_first auths))) =
      (\<Union>a\<in>set auths. set (auth_keys E d a))"
    by (subst keys_entries_for) (simp_all add: set_cookie_first)
  then have "foreign_entries E d auths (entries_for E d (map kerberos_blank (cookie_first auths))) = []"
    unfolding foreign_entries_def filter_empty_conv by blast
  then show ?thesis by (simp add: foreign_entries_def)
qed

abbreviation (input) home_file :: "string \<Rightarrow> string" where
  "home_file home \<equiv> home @ ''/.Xauthority''"

text \<open>The environment a login gets when the file could not be put in place.\<close>

definition point_at :: "ext \<Rightarrow> string \<Rightarrow> verify_info \<Rightarrow> verify_info" where
  "point_at E file v =
     v\<lparr>vi_userEnviron := setEnv (x_calloc E 0) (vi_userEnviron v) ''XAUTHORITY'' file,
       vi_systemEnviron := setEnv (x_calloc E 0) (vi_systemEnviron v) ''XAUTHORITY'' file\<rparr>"

text \<open>Where the new file ends up: in place, or beside it when \<open>link\<close> failed.\<close>

definition placed :: "user_files \<Rightarrow> string \<Rightarrow> string" where
  "placed U name = (if u_link U then name else name @ ''-n'')"

lemma SetUserAuthorization_at_home:
  assumes "\<forall>t. x_calloc E t" "\<not> bad_peer d" "au_authorizations (d_auth d) = Some auths"
    "getEnv (vi_userEnviron v) ''HOME'' = Some home" "length home \<le> 1009"
    "u_home_lock U" "u_home_create U" "u_home_old U = Some old"
  shows "\<exists>auths'. SetUserAuthorization E U d v =
      Inr (with_auths d auths',
        if u_link U then v else point_at E (placed U (home_file home)) v,
        Some (placed U (home_file home),
              entries_for E d (map kerberos_blank (cookie_first auths)) @ foreign_entries E d auths old)) \<and>
      same_keys E d auths auths'"
proof -
  obtain auths' w where w: "write_new E d auths (new_writer True) = Inr (auths', w)"
    "aw_file (fold copy_entry old w) =
        entries_for E d (map kerberos_blank (cookie_first auths)) @ foreign_entries E d auths old"
    "same_keys E d auths auths'"
    using new_then_old [OF assms(1,2)] by blast
  have "snprintf_keep 1024 (home_file home) = home_file home"
    using assms(5) by (intro snprintf_keep_short) simp
  then have "home_target U v = Inr (Some (home_file home, old))"
    using assms by (simp add: home_target_def openFiles_def)
  with w assms(3) show ?thesis
    by (intro exI [of _ auths'])
      (simp add: SetUserAuthorization_def with_auths_def point_at_def placed_def Let_def)
qed

lemma RemoveUserAuthorization_at_home:
  assumes "\<forall>t. x_calloc E t" "\<not> bad_peer d" "au_authorizations (d_auth d) = Some auths"
    "getEnv (vi_userEnviron v) ''HOME'' = Some home" "length home \<le> 1009"
    "u_home_lock U" "u_home_create U" "u_home_old U = Some old"
  shows "\<exists>auths'. RemoveUserAuthorization E U d v =
      Inr (with_auths d auths', Some (placed U (home_file home), foreign_entries E d auths old))"
proof -
  obtain auths' where w: "write_list E d id None 0 auths (new_writer False) =
      Inr (auths', add_entries (entries_for E d auths) (new_writer False))"
    using write_list_add [OF assms(1,2), of id None 0 auths "new_writer False"] by auto
  have keys: "addr_entry ` set (entries_for E d auths) = (\<Union>a\<in>set auths. set (auth_keys E d a))"
    using keys_entries_for [of auths E d id] by simp
  have "snprintf_keep 1024 (home_file home) = home_file home"
    using assms(5) by (intro snprintf_keep_short) simp
  with w assms show ?thesis
    by (intro exI [of _ auths'])
      (simp add: RemoveUserAuthorization_def openFiles_def fold_copy_entry add_entries_def new_writer_def
        foreign_entries_def keys with_auths_def placed_def)
qed

text \<open>A login on a local display with one cookie, whose user has an old cookie for the display and
  one for another host.\<close>

definition sample_cookie :: "string \<Rightarrow> CARD8 list \<Rightarrow> Xauth" where
  "sample_cookie data addr =
     \<lparr>xa_family = word_of_int FamilyLocal, xa_address = addr, xa_number = bytes_of ''0'',
      xa_name = mit_name, xa_data = bytes_of data\<rparr>"

definition sample_login :: display where
  "sample_login = (with_auths (new_display '':0'' None) [sample_cookie ''new'' []])
     \<lparr>d_displayType := \<lparr>dt_location = Local, dt_lifetime = Permanent, dt_origin = FromFile\<rparr>\<rparr>"

definition sample_user :: "string \<Rightarrow> verify_info" where
  "sample_user home = \<lparr>vi_uid = 1000, vi_gid = 100, vi_argv = None,
     vi_userEnviron = Some [''HOME='' @ home], vi_systemEnviron = Some []\<rparr>"

definition sample_files :: user_files where
  "sample_files = \<lparr>u_home_lock = True, u_home_create = True,
     u_home_old = Some [sample_cookie ''old'' (bytes_of ''here''), sample_cookie ''far'' (bytes_of ''there'')],
     u_mkstemp = (\<lambda>_. None), u_backup_lock = False, u_backup_create = False, u_link = True\<rparr>"

lemma sample_facts:
  "\<forall>t. x_calloc std_ext t" "\<not> bad_peer sample_login"
  "au_authorizations (d_auth sample_login) = Some [sample_cookie ''new'' []]"
  "getEnv (vi_userEnviron (sample_user ''/home/u'')) ''HOME'' = Some ''/home/u''"
  "u_home_lock sample_files" "u_home_create sample_files" "u_link sample_files"
  "u_home_old sample_files = Some [sample_cookie ''old'' (bytes_of ''here''), sample_cookie ''far'' (bytes_of ''there'')]"
  by (simp_all add: std_ext_def bad_peer_def sample_login_def sample_files_def with_auths_def sample_user_def
      getEnv_def env_match_def)

lemma sample_foreign:
  "foreign_entries std_ext sample_login [sample_cookie ''new'' []]
     [sample_cookie ''old'' (bytes_of ''here''), sample_cookie ''far'' (bytes_of ''there'')] =
   [sample_cookie ''far'' (bytes_of ''there'')]"
  by code_simp

text \<open>C21: A login into a session whose home directory can be used writes an authority file that
  starts with the entries of the display's authorizations, the magic cookie's first, and goes on with
  exactly the entries of the old file that are filed under other keys, in their order.  Nothing is
  lost and nothing is left stale.\<close>

theorem SetUserAuthorization_file:
  assumes "\<forall>t. x_calloc E t" "\<not> bad_peer d" "au_authorizations (d_auth d) = Some auths"
    "getEnv (vi_userEnviron v) ''HOME'' = Some home" "length home \<le> 1009"
    "u_home_lock U" "u_home_create U" "u_home_old U = Some old"
  shows "\<exists>d' v' new. SetUserAuthorization E U d v =
      Inr (d', v', Some (placed U (home_file home), new @ foreign_entries E d auths old)) \<and>
      addr_entry ` set new = (\<Union>a\<in>set auths. set (auth_keys E d a)) \<and>
      new = concat (map (\<lambda>a. new_entries E d (kerberos_blank a)) (cookie_first auths)) \<and>
      (u_link U \<longrightarrow> v' = v)"
proof -
  let ?new = "entries_for E d (map kerberos_blank (cookie_first auths))"
  have "addr_entry ` set ?new = (\<Union>a\<in>set auths. set (auth_keys E d a))"
    by (subst keys_entries_for) (simp_all add: set_cookie_first)
  moreover have "?new = concat (map (\<lambda>a. new_entries E d (kerberos_blank a)) (cookie_first auths))"
    by (simp add: entries_for_def o_def)
  ultimately show ?thesis
    using SetUserAuthorization_at_home [OF assms] by (elim exE conjE) (intro exI conjI; assumption | simp)
qed

lemma SetUserAuthorization_file_witness:
  "\<exists>d' v' new. SetUserAuthorization std_ext sample_files sample_login (sample_user ''/home/u'') =
     Inr (d', v', Some (''/home/u/.Xauthority'', new @ [sample_cookie ''far'' (bytes_of ''there'')]))"
  using SetUserAuthorization_file [OF sample_facts(1-4) _ sample_facts(5,6,8)]
  by (auto simp: sample_foreign placed_def sample_facts(7))

text \<open>C20: What the end of a session removes from the user's authority file is what its start put
  there: starting from any file, login followed by logout leaves exactly the old entries filed under
  other keys than the display's.\<close>

theorem login_logout_file:
  assumes "\<forall>t. x_calloc E t" "\<not> bad_peer d" "au_authorizations (d_auth d) = Some auths"
    "getEnv (vi_userEnviron v) ''HOME'' = Some home" "length home \<le> 1009"
    "u_home_lock U" "u_home_create U" "u_home_old U = Some old" "u_link U"
  shows "\<exists>d1 file1. SetUserAuthorization E U d v = Inr (d1, v, Some (home_file home, file1)) \<and>
      (\<exists>d2. RemoveUserAuthorization E (U\<lparr>u_home_old := Some file1\<rparr>) d1 v =
         Inr (d2, Some (home_file home, foreign_entries E d auths old)))"
proof -
  let ?file = "entries_for E d (map kerberos_blank (cookie_first auths)) @ foreign_entries E d auths old"
  let ?U = "U\<lparr>u_home_old := Some ?file\<rparr>"
  obtain auths' where set: "SetUserAuthorization E U d v = Inr (with_auths d auths', v, Some (home_file home, ?file))"
    "same_keys E d auths auths'"
    using SetUserAuthorization_at_home [OF assms(1-8)] assms(9) by (auto simp: placed_def)
  obtain d2 where "RemoveUserAuthorization E ?U (with_auths d auths') v =
      Inr (d2, Some (placed ?U (home_file home), foreign_entries E (with_auths d auths') auths' ?file))"
    using RemoveUserAuthorization_at_home [of E "with_auths d auths'" auths' v home ?U ?file] assms by auto
  then show ?thesis
    using set assms(9) by (auto simp: same_keys_foreign [OF set(2)] foreign_entries_own placed_def)
qed

lemma login_logout_file_witness:
  "\<exists>d1 file1. SetUserAuthorization std_ext sample_files sample_login (sample_user ''/home/u'') =
       Inr (d1, sample_user ''/home/u'', Some (''/home/u/.Xauthority'', file1)) \<and>
     (\<exists>d2. RemoveUserAuthorization std_ext (sample_files\<lparr>u_home_old := Some file1\<rparr>) d1 (sample_user ''/home/u'') =
        Inr (d2, Some (''/home/u/.Xauthority'', [sample_cookie ''far'' (bytes_of ''there'')])))"
  using login_logout_file [OF sample_facts(1-4) _ sample_facts(5,6,8,7)]
  by (simp add: sample_foreign)

text \<open>The name of the new authority file is built in a buffer of 1024 bytes without a check: a
  home directory of 1010 characters or more overflows it, at login and at logout.\<close>

theorem user_file_overflow:
  assumes "au_authorizations (d_auth d) = Some auths"
    "getEnv (vi_userEnviron v) ''HOME'' = Some home" "1010 \<le> length home" "u_home_lock U"
  shows "SetUserAuthorization E U d v = Inl OutOfBounds \<and> RemoveUserAuthorization E U d v = Inl OutOfBounds"
  using assms by (simp_all add: SetUserAuthorization_def RemoveUserAuthorization_def home_target_def
      openFiles_def snprintf_keep_def min_def)

lemma user_file_overflow_witness:
  "SetUserAuthorization std_ext sample_files sample_login (sample_user (CHR ''/'' # replicate 1009 CHR ''u'')) = Inl OutOfBounds"
proof -
  have "getEnv (vi_userEnviron (sample_user (CHR ''/'' # replicate 1009 CHR ''u''))) ''HOME'' =
      Some (CHR ''/'' # replicate 1009 CHR ''u'')"
    by (simp add: sample_user_def getEnv_def env_match_def)
  from user_file_overflow [OF sample_facts(3) this _ sample_facts(5)] show ?thesis by simp
qed

lemma clean_char_safe: "clean_char c \<noteq> CHR ''/'' \<and> clean_char c \<noteq> CHR ''-''"
proof -
  have eq: "n = of_char x" if "char_of n = x" "n < 128" for n :: nat and x
  proof -
    have "of_char (char_of n :: char) = (n mod 256 :: nat)" by (simp add: of_char_of)
    with that show ?thesis by simp
  qed
  have "of_char c mod 128 < (128 :: nat)" by simp
  then show ?thesis
    using eq [of "of_char c mod 128" "CHR ''/''"] eq [of "of_char c mod 128" "CHR ''-''"]
    by (auto simp: clean_char_def Let_def)
qed

lemma CleanUpFileName_chars: "c \<in> set (CleanUpFileName src len) \<Longrightarrow> c \<noteq> CHR ''/'' \<and> c \<noteq> CHR ''-'' \<and> c \<noteq> NUL"
  using clean_char_safe unfolding CleanUpFileName_def cstr_def
  by (auto dest!: set_takeWhileD) (metis clean_char_safe)+

lemma length_CleanUpFileName: "length (CleanUpFileName src len) \<le> len - 1"
  using length_cstr_le [of "map clean_char (take (len - 1) src)"] by (simp add: CleanUpFileName_def)


definition sample_fs :: files where
  "sample_fs = \<lparr>f_stat = (\<lambda>_. NoEntry), f_mkdir = (\<lambda>_. True),
     f_mkstemp = (\<lambda>t. Some (take (length t - 6) t @ ''abcdef'')), f_open = (\<lambda>_. True), f_write = True\<rparr>"


end
