(* ===== verification/Manage.thy ===== *)
theory Manage
  imports Resource Servers_File Auth
begin

text \<open>
  Starting, stopping and restarting one display: \<open>xdm/server.c\<close> and the operations on a single
  display of \<open>xdm/dm.c\<close>.

  The state of the daemon extends the \<open>world\<close> of the display list with the authorization
  state, the files written, the resource database and the global variables.  The record
  \<open>host\<close> is what the operations ask of the system.  An answer that may differ from call to call
  is a function of the length of the trace, which every \<open>fork\<close> and signal makes longer.
\<close>

section \<open>State and surroundings\<close>

record 'db dm_state = world +
  dm_auth :: auth_state
  dm_files :: "file_event list"
  dm_db :: "'db option"
  dm_vars :: dm_globals

text \<open>How a \<open>waitpid\<close> of the server ends: it reaps a process, there is none, none has ended yet
  (only when it may not block), it fails otherwise, or SIGALRM or SIGUSR1 jumps out of it.\<close>

datatype wait_answer = Reaped int | NoChild | NoneYet | WaitFailed | Jumped

record 'db host =
  h_ext :: ext
  h_xlib :: "'db xlib"
  h_rng :: rng
  h_files :: files
  h_fork :: "nat \<Rightarrow> int"
  h_pause :: "nat \<Rightarrow> wait_answer list"
  h_patience :: nat

abbreviation (input) SIGTERM :: int where "SIGTERM \<equiv> 15"
abbreviation (input) SIGCONT :: int where "SIGCONT \<equiv> 18"

abbreviation (input) OBEYSESS_DISPLAY :: int where "OBEYSESS_DISPLAY \<equiv> 0"
abbreviation (input) REMANAGE_DISPLAY :: int where "REMANAGE_DISPLAY \<equiv> 1"
abbreviation (input) UNMANAGE_DISPLAY :: int where "UNMANAGE_DISPLAY \<equiv> 2"
abbreviation (input) RESERVER_DISPLAY :: int where "RESERVER_DISPLAY \<equiv> 3"
abbreviation (input) OPENFAILED_DISPLAY :: int where "OPENFAILED_DISPLAY \<equiv> 4"

text \<open>\<open>authDir\<close> is set by \<open>LoadDMResources\<close> before anything else runs.\<close>

definition authDir_of :: "dm_globals \<Rightarrow> string" where
  "authDir_of g = (case g_authDir g of Some s \<Rightarrow> s | None \<Rightarrow> '''')"

section \<open>The server of a display\<close>

text \<open>What \<open>fork\<close> answers to the next call.\<close>

definition fork_answer :: "('db, 'h) host_scheme \<Rightarrow> 'a world_scheme \<Rightarrow> int" where
  "fork_answer H w = h_fork H (length (w_trace w))"

text \<open>True when the server is dead at the end of the pause.  An answer that is neither keeps the
  loop waiting.\<close>

primrec serverPause :: "int \<Rightarrow> wait_answer list \<Rightarrow> c_error + bool" where
  "serverPause serverPid [] = Inl NoReturn"
| "serverPause serverPid (a # as) =
     (case a of
        Reaped pid \<Rightarrow> if pid = serverPid then Inr True else serverPause serverPid as
      | NoChild \<Rightarrow> Inr True
      | NoneYet \<Rightarrow> Inr False
      | WaitFailed \<Rightarrow> serverPause serverPid as
      | Jumped \<Rightarrow> Inr False)"

text \<open>The child becomes the server, with its authority file on the command line, or exits.\<close>

datatype server_child = Exec "string list" | Exit int

definition StartServerOnce_child :: "ext \<Rightarrow> display \<Rightarrow> server_child" where
  "StartServerOnce_child E d =
     (let argv = (case au_authFile (d_auth d) of
                    None \<Rightarrow> d_argv d
                  | Some f \<Rightarrow> parseArgs (x_calloc E 0) (d_argv d) (snprintf_keep 1024 (''-auth '' @ f)))
      in case argv of
           None \<Rightarrow> Exit UNMANAGE_DISPLAY
         | Some [] \<Rightarrow> Exit REMANAGE_DISPLAY
         | Some (a # as) \<Rightarrow> Exec (a # as))"

definition StartServerOnce :: "('db, 'h) host_scheme \<Rightarrow> nat \<Rightarrow> 'a world_scheme \<Rightarrow> c_error + (bool \<times> 'a world_scheme)" where
  "StartServerOnce H p w =
     bindE (get_display p w) (\<lambda>d.
       let pid = fork_answer H w; w1 = emit (Fork pid) w
       in if pid = -1 then Inr (False, w1)
          else bindE (serverPause pid (h_pause H (length (w_trace w)))) (\<lambda>dead.
                 Inr (\<not> dead, put_display p (d\<lparr>d_serverPid := pid\<rparr>) w1)))"

text \<open>With \<open>serverAttempts\<close> zero the loop ends only with a server; it is followed for
  \<open>h_patience\<close> attempts.\<close>

primrec server_tries ::
    "('db, 'h) host_scheme \<Rightarrow> nat \<Rightarrow> bool \<Rightarrow> nat \<Rightarrow> 'a world_scheme \<Rightarrow> c_error + (bool \<times> 'a world_scheme)" where
  "server_tries H p unlimited 0 w = (if unlimited then Inl NoReturn else Inr (False, w))"
| "server_tries H p unlimited (Suc n) w =
     bindE (StartServerOnce H p w) (\<lambda>(ok, w').
       if ok then Inr (True, w') else server_tries H p unlimited n w')"

definition StartServer :: "('db, 'h) host_scheme \<Rightarrow> nat \<Rightarrow> 'a world_scheme \<Rightarrow> c_error + (bool \<times> 'a world_scheme)" where
  "StartServer H p w =
     bindE (get_display p w) (\<lambda>d.
       let a = sr_serverAttempts (d_server d)
       in server_tries H p (a = 0) (if a = 0 then h_patience H else nat a) w)"

section \<open>Signals\<close>

definition TerminateProcess :: "int \<Rightarrow> int \<Rightarrow> 'a world_scheme \<Rightarrow> 'a world_scheme" where
  "TerminateProcess pid sig w = emit (Kill pid SIGCONT) (emit (Kill pid sig) w)"

definition StopDisplay :: "nat \<Rightarrow> 'a world_scheme \<Rightarrow> c_error + 'a world_scheme" where
  "StopDisplay p w =
     bindE (get_display p w) (\<lambda>d.
       let w1 = (if d_serverPid d \<noteq> -1 then put_display p (d\<lparr>d_status := zombie\<rparr>) w else w);
           w2 = (if d_pid d \<noteq> -1 then TerminateProcess (d_pid d) SIGTERM w1 else w1)
       in Inr (if d_serverPid d \<noteq> -1 then TerminateProcess (d_serverPid d) (sr_termSignal (d_server d)) w2
               else RemoveDisplay p w2))"

definition RestartDisplay :: "nat \<Rightarrow> bool \<Rightarrow> 'a world_scheme \<Rightarrow> c_error + 'a world_scheme" where
  "RestartDisplay p forceReserver w =
     bindE (get_display p w) (\<lambda>d.
       if d_serverPid d \<noteq> -1 \<and> (forceReserver \<or> sr_terminateServer (d_server d))
       then Inr (put_display p (d\<lparr>d_status := phoenix\<rparr>)
              (TerminateProcess (d_serverPid d) (sr_termSignal (d_server d)) w))
       else Inr (put_display p (d\<lparr>d_status := notRunning\<rparr>) w))"

section \<open>Starting\<close>

text \<open>The authorization of a local display, with the signal that makes an old server read it.\<close>

definition authorize_local ::
    "('db, 'h) host_scheme \<Rightarrow> nat \<Rightarrow> display \<Rightarrow> ('db, 'a) dm_state_scheme \<Rightarrow>
     c_error + ('db, 'a) dm_state_scheme" where
  "authorize_local H p d w =
     (if \<not> au_authorize (d_auth d) then Inr (put_display p d w)
      else if au_authNames (d_auth d) = None then Inl NullDeref
      else
        (let (d1, s, ev) = SetLocalAuthorization (h_ext H) (h_rng H) (h_files H) (authDir_of (dm_vars w)) d (dm_auth w);
             w1 = (put_display p d1 w)\<lparr>dm_auth := s, dm_files := dm_files w @ ev\<rparr>
         in Inr (if d_serverPid d1 \<noteq> -1 \<and> sr_resetForAuth (d_server d1) \<and> sr_resetSignal (d_server d1) \<noteq> 0
                 then emit (Kill (d_serverPid d1) (sr_resetSignal (d_server d1))) w1 else w1)))"

text \<open>The session process; the parent's side of the fork.\<close>

definition start_session :: "('db, 'h) host_scheme \<Rightarrow> nat \<Rightarrow> 'a world_scheme \<Rightarrow> c_error + 'a world_scheme" where
  "start_session H p w =
     bindE (get_display p w) (\<lambda>d.
       let pid = fork_answer H w; w1 = emit (Fork pid) w
       in Inr (if pid = -1 then w1 else put_display p (d\<lparr>d_pid := pid, d_status := running\<rparr>) w1))"

definition StartDisplay ::
    "('db, 'h) host_scheme \<Rightarrow> nat \<Rightarrow> ('db, 'a) dm_state_scheme \<Rightarrow> c_error + ('db, 'a) dm_state_scheme" where
  "StartDisplay H p w =
     bindE (get_display p w) (\<lambda>d0.
     bindE (LoadServerResources (h_ext H) (h_xlib H) (dm_db w) d0) (\<lambda>d.
       if dt_location (d_displayType d) = Local then
         bindE (authorize_local H p (d\<lparr>d_server := (d_server d)\<lparr>sr_pingInterval := 0\<rparr>\<rparr>) w) (\<lambda>w1.
         bindE (get_display p w1) (\<lambda>d1.
         bindE (if d_serverPid d1 = -1 then StartServer H p w1 else Inr (True, w1)) (\<lambda>(ok, w2).
           if ok then start_session H p w2 else Inr (RemoveDisplay p w2))))
       else
         (let w1 =
            (case au_authorizations (d_auth d) of
               None \<Rightarrow> put_display p d w
             | Some auths \<Rightarrow>
                 (let (_, d1, ev) = SaveServerAuthorizations (h_ext H) (h_files H) (authDir_of (dm_vars w))
                                      (take (au_authNum (d_auth d)) auths) d
                  in (put_display p d1 w)\<lparr>dm_files := dm_files w @ ev\<rparr>))
          in start_session H p w1)))"

text \<open>The session process itself up to the session: the resources, the connection to the server
  and what then runs.  An attempt to open the display gives a connection with the address
  \<open>getpeername\<close> leaves in the buffer and its length, fails, or hangs until the alarm.\<close>

datatype open_answer = Opened "sockaddr option" int | Refused | Hung

definition GetRemoteAddress :: "ext \<Rightarrow> sockaddr option \<Rightarrow> int \<Rightarrow> display \<Rightarrow> display" where
  "GetRemoteAddress E buf len d =
     (if len \<noteq> 0 \<and> x_calloc E (nat len) then d\<lparr>d_peer := buf, d_peerlen := len\<rparr>
      else if len \<noteq> 0 then d\<lparr>d_peer := None, d_peerlen := 0\<rparr>
      else d\<lparr>d_peerlen := 0\<rparr>)"

primrec open_tries :: "ext \<Rightarrow> (nat \<Rightarrow> open_answer) \<Rightarrow> nat \<Rightarrow> nat \<Rightarrow> display \<Rightarrow> bool \<times> display" where
  "open_tries E ans i 0 d = (False, d)"
| "open_tries E ans i (Suc n) d =
     (case ans i of
        Opened buf len \<Rightarrow>
          (True, if dt_location (d_displayType d) = Foreign then GetRemoteAddress E buf len d else d)
      | Refused \<Rightarrow> open_tries E ans (Suc i) n d
      | Hung \<Rightarrow> (False, d))"

definition WaitForServer :: "ext \<Rightarrow> (nat \<Rightarrow> open_answer) \<Rightarrow> display \<Rightarrow> bool \<times> display" where
  "WaitForServer E ans d =
     (let r = sr_openRepeat (d_server d) in open_tries E ans 0 (if r > 0 then nat r else 1) d)"

datatype session_child = Exited int | RunChooser display | ManageSession display

definition StartDisplay_child ::
    "('db, 'h) host_scheme \<Rightarrow> 'db option \<Rightarrow> (nat \<Rightarrow> open_answer) \<Rightarrow> display \<Rightarrow> c_error + (Xauth list \<times> session_child)" where
  "StartDisplay_child H db ans d0 =
     bindE (LoadSessionResources (h_ext H) (h_xlib H) db d0) (\<lambda>d.
       let (opened, d1) = WaitForServer (h_ext H) ans d
       in Inr (SetAuthorization d,
               if \<not> opened then Exited OPENFAILED_DISPLAY
               else if d_useChooser d1 then RunChooser d1 else ManageSession d1))"

section \<open>What an operation on one display leaves alone\<close>

text \<open>A step at display \<open>p\<close>: the list stays well-formed, no other display changes, and nothing
  is sent.\<close>

definition is_packet :: "event \<Rightarrow> bool" where
  "is_packet e = (case e of Packet _ _ _ \<Rightarrow> True | _ \<Rightarrow> False)"

definition quiet :: "'a world_scheme \<Rightarrow> 'b world_scheme \<Rightarrow> bool" where
  "quiet w w' \<longleftrightarrow> (\<exists>es. w_trace w' = es @ w_trace w \<and> (\<forall>e \<in> set es. \<not> is_packet e))"

definition step_at :: "nat \<Rightarrow> 'a world_scheme \<Rightarrow> 'b world_scheme \<Rightarrow> bool" where
  "step_at p w w' \<longleftrightarrow> quiet w w' \<and>
     (st_ok (w_displays w) \<longrightarrow> st_ok (w_displays w') \<and>
       st_next (w_displays w') = st_next (w_displays w) \<and>
       (\<forall>q. q \<noteq> p \<longrightarrow> st_get (w_displays w') q = st_get (w_displays w) q))"

lemma quiet_refl [simp]: "quiet w w"
  by (auto simp: quiet_def)

lemma quiet_trans [trans]: "quiet u v \<Longrightarrow> quiet v w \<Longrightarrow> quiet u w"
  unfolding quiet_def by (metis Un_iff append_assoc set_append)

lemma step_at_refl [simp]: "step_at p w w"
  by (simp add: step_at_def)

lemma step_at_trans [trans]: "step_at p u v \<Longrightarrow> step_at p v w \<Longrightarrow> step_at p u w"
  unfolding step_at_def by (metis quiet_trans)

lemma quiet_framed_packet:
  "quiet w w' \<Longrightarrow> Packet fd to pkt \<in> set (w_trace w') \<longleftrightarrow> Packet fd to pkt \<in> set (w_trace w)"
  by (fastforce simp: quiet_def is_packet_def split: event.splits)

lemma step_at_put [simp]: "step_at p w (put_display p d w)"
  by (auto simp: step_at_def quiet_def st_ok_set st_get_set)

lemma step_at_emit [simp]:
  "step_at p w (emit (Fork x) w)" "step_at p w (emit (Kill x y) w)" "step_at p w (emit (Unlink f) w)"
  by (auto simp: step_at_def quiet_def is_packet_def)

lemma st_next_del [simp]: "st_next (st_del p S) = st_next S"
  by (simp add: st_del_def)

lemma step_at_Remove [simp]: "step_at p w (RemoveDisplay p w)"
  by (auto simp: step_at_def quiet_def RemoveDisplay_ok RemoveDisplay_get)
    (auto simp: RemoveDisplay_def Let_def is_packet_def split: option.split)

lemma step_at_Terminate [simp]: "step_at p w (TerminateProcess x s w)"
  unfolding TerminateProcess_def by (rule step_at_trans [OF step_at_emit(2) step_at_emit(2)])

text \<open>One more update at the end of a step.\<close>

lemma step_at_more:
  "step_at p u w \<Longrightarrow> step_at p u (put_display p d w)"
  "step_at p u w \<Longrightarrow> step_at p u (RemoveDisplay p w)"
  "step_at p u w \<Longrightarrow> step_at p u (TerminateProcess x y w)"
  "step_at p u w \<Longrightarrow> step_at p u (emit (Fork z) w)"
  "step_at p u w \<Longrightarrow> step_at p u (emit (Kill x y) w)"
  by (erule step_at_trans, simp)+

lemma Terminate_displays [simp]:
  "w_displays (TerminateProcess x s w) = w_displays w"
  by (simp add: TerminateProcess_def)

lemma bindE_InrE:
  assumes "bindE m k = Inr y"
  obtains x where "m = Inr x" "k x = Inr y"
  using assms by (cases m) auto

lemma step_at_StopDisplay: "StopDisplay p w = Inr w' \<Longrightarrow> step_at p w w'"
  unfolding StopDisplay_def
  by (elim bindE_InrE)
    (auto simp: Let_def split: if_splits intro!: step_at_more)

lemma step_at_RestartDisplay: "RestartDisplay p f w = Inr w' \<Longrightarrow> step_at p w w'"
  unfolding RestartDisplay_def
  by (elim bindE_InrE) (auto split: if_splits intro!: step_at_more)

lemma step_at_StartServerOnce: "StartServerOnce H p w = Inr (b, w') \<Longrightarrow> step_at p w w'"
  unfolding StartServerOnce_def
  by (elim bindE_InrE)
    (auto simp: Let_def split: if_splits elim!: bindE_InrE intro!: step_at_more)

lemma step_at_server_tries: "server_tries H p u n w = Inr (b, w') \<Longrightarrow> step_at p w w'"
proof (induction n arbitrary: w)
  case (Suc n)
  from Suc.prems obtain ok w1 where w1: "StartServerOnce H p w = Inr (ok, w1)"
    and r: "(if ok then Inr (True, w1) else server_tries H p u n w1) = Inr (b, w')"
    by (auto elim!: bindE_InrE)
  have "step_at p w1 w'" using r Suc.IH [of w1] by (cases ok) auto
  then show ?case using step_at_StartServerOnce [OF w1] by (rule step_at_trans [rotated])
qed (simp split: if_splits)

lemma step_at_StartServer: "StartServer H p w = Inr (b, w') \<Longrightarrow> step_at p w w'"
  unfolding StartServer_def by (elim bindE_InrE) (simp add: Let_def step_at_server_tries)

lemma step_at_start_session: "start_session H p w = Inr w' \<Longrightarrow> step_at p w w'"
  unfolding start_session_def
  by (elim bindE_InrE)
    (auto simp: Let_def split: if_splits intro!: step_at_more)

lemma step_at_fields [simp]:
  "step_at p u (w\<lparr>dm_auth := s\<rparr>) = step_at p u w" "step_at p u (w\<lparr>dm_files := fs\<rparr>) = step_at p u w"
  by (simp_all add: step_at_def quiet_def)

lemma step_at_authorize: "authorize_local H p d w = Inr w' \<Longrightarrow> step_at p w w'"
  unfolding authorize_local_def
  by (auto simp: Let_def split: if_splits prod.splits intro!: step_at_more)

text \<open>The fields that the world-level operations cannot reach, and those that starting a display
  leaves alone.\<close>

lemma more_updates [simp]:
  "world.more (put_display p d w) = world.more w" "world.more (emit e w) = world.more w"
  "world.more (TerminateProcess x y w) = world.more w"
  by (simp_all add: put_display_def emit_def TerminateProcess_def)

lemma more_Remove [simp]: "world.more (RemoveDisplay p w) = world.more w"
  by (auto simp: RemoveDisplay_def Let_def split: option.split)

lemma more_StopDisplay: "StopDisplay p w = Inr w' \<Longrightarrow> world.more w' = world.more w"
  unfolding StopDisplay_def by (elim bindE_InrE) (auto simp: Let_def split: if_splits)

lemma more_RestartDisplay: "RestartDisplay p f w = Inr w' \<Longrightarrow> world.more w' = world.more w"
  unfolding RestartDisplay_def by (elim bindE_InrE) (auto split: if_splits)

lemma more_server_tries: "server_tries H p u n w = Inr (b, w') \<Longrightarrow> world.more w' = world.more w"
proof (induction n arbitrary: w)
  case (Suc n)
  then show ?case
    by (auto simp: StartServerOnce_def Let_def elim!: bindE_InrE split: if_splits)
qed (simp split: if_splits)

lemma more_StartServer: "StartServer H p w = Inr (b, w') \<Longrightarrow> world.more w' = world.more w"
  unfolding StartServer_def by (elim bindE_InrE) (simp add: Let_def more_server_tries)

lemma more_start_session: "start_session H p w = Inr w' \<Longrightarrow> world.more w' = world.more w"
  unfolding start_session_def by (elim bindE_InrE) (auto simp: Let_def split: if_splits)

definition same_setup :: "('db, 'a) dm_state_scheme \<Rightarrow> ('db, 'a) dm_state_scheme \<Rightarrow> bool" where
  "same_setup w w' \<longleftrightarrow> dm_state.more w' = dm_state.more w \<and> dm_db w' = dm_db w \<and> dm_vars w' = dm_vars w"

lemma same_setup_refl [simp]: "same_setup w w"
  by (simp add: same_setup_def)

lemma same_setup_trans [trans]: "same_setup u v \<Longrightarrow> same_setup v w \<Longrightarrow> same_setup u w"
  by (simp add: same_setup_def)

lemma same_setup_world: "world.more w' = world.more w \<Longrightarrow> same_setup w w'"
  by (cases w; cases w') (simp add: same_setup_def)

lemma same_setup_fields [simp]:
  "same_setup u (w\<lparr>dm_auth := s\<rparr>) = same_setup u w" "same_setup u (w\<lparr>dm_files := fs\<rparr>) = same_setup u w"
  "same_setup u (put_display p d w) = same_setup u w" "same_setup u (emit e w) = same_setup u w"
  by (auto simp: same_setup_def put_display_def emit_def)

lemma setup_authorize: "authorize_local H p d w = Inr w' \<Longrightarrow> same_setup w w'"
  unfolding authorize_local_def by (auto simp: Let_def split: if_splits prod.splits)

lemma StartDisplay_step:
  assumes "StartDisplay H p w = Inr w'"
  shows "step_at p w w' \<and> same_setup w w'"
proof -
  from assms obtain d0 d where d: "get_display p w = Inr d0"
    "LoadServerResources (h_ext H) (h_xlib H) (dm_db w) d0 = Inr d"
    unfolding StartDisplay_def by (elim bindE_InrE) blast
  show ?thesis
  proof (cases "dt_location (d_displayType d)")
    case Local
    with assms d have "bindE (authorize_local H p (d\<lparr>d_server := (d_server d)\<lparr>sr_pingInterval := 0\<rparr>\<rparr>) w)
        (\<lambda>w1. bindE (get_display p w1) (\<lambda>d1.
          bindE (if d_serverPid d1 = -1 then StartServer H p w1 else Inr (True, w1)) (\<lambda>(ok, w2).
            if ok then start_session H p w2 else Inr (RemoveDisplay p w2)))) = Inr w'"
      by (simp add: StartDisplay_def)
    then obtain w1 x and d1 :: display where
      w1: "authorize_local H p (d\<lparr>d_server := (d_server d)\<lparr>sr_pingInterval := 0\<rparr>\<rparr>) w = Inr w1"
      and x: "(if d_serverPid d1 = -1 then StartServer H p w1 else Inr (True, w1)) = Inr x"
        "(case x of (ok, w2) \<Rightarrow> if ok then start_session H p w2 else Inr (RemoveDisplay p w2)) = Inr w'"
      by (elim bindE_InrE) blast
    obtain ok w2 where "x = (ok, w2)" by (cases x)
    with x have w2: "(if d_serverPid d1 = -1 then StartServer H p w1 else Inr (True, w1)) = Inr (ok, w2)"
      and w': "(if ok then start_session H p w2 else Inr (RemoveDisplay p w2)) = Inr w'"
      by simp_all
    have "step_at p w1 w2 \<and> same_setup w1 w2"
      using w2 by (auto split: if_splits dest: step_at_StartServer more_StartServer same_setup_world)
    moreover have "step_at p w2 w' \<and> same_setup w2 w'"
      using w' by (auto split: if_splits dest: step_at_start_session more_start_session same_setup_world
          intro: same_setup_world)
    ultimately show ?thesis
      using step_at_authorize [OF w1] setup_authorize [OF w1] by (meson step_at_trans same_setup_trans)
  next
    case Foreign
    with assms d have "\<exists>w1. step_at p w w1 \<and> same_setup w w1 \<and> start_session H p w1 = Inr w'"
      unfolding StartDisplay_def
      by (auto simp: Let_def split: option.splits prod.splits)
        (metis step_at_put step_at_fields(2) same_setup_fields(2,3) same_setup_refl)+
    then show ?thesis
      using step_at_start_session more_start_session same_setup_world
      by (meson step_at_trans same_setup_trans)
  qed
qed

section \<open>Starting a display of another host\<close>

text \<open>What saving the authorizations does to the display is confined to the name of the file.\<close>

lemma SaveServerAuthorizations_display:
  "SaveServerAuthorizations E F dir auths d = (b, d', ev) \<Longrightarrow>
    \<exists>f. d' = d\<lparr>d_auth := (d_auth d)\<lparr>au_authFile := f\<rparr>\<rparr> \<or> d' = d"
  by (auto simp: SaveServerAuthorizations_def Let_def split: option.splits prod.splits if_splits)

lemma start_session_forks:
  assumes "st_get (w_displays v) p = Some e" "\<forall>t. h_fork H t \<noteq> -1"
  shows "start_session H p v = Inr (put_display p (e\<lparr>d_pid := fork_answer H v, d_status := running\<rparr>)
    (emit (Fork (fork_answer H v)) v))"
  using assms by (simp add: start_session_def get_display_def deref_def fork_answer_def Let_def)

lemma StartDisplay_foreign:
  assumes "\<forall>t. x_calloc (h_ext H) t" "st_get (w_displays w) p = Some d0"
    "dt_location (d_displayType d0) = Foreign" "\<forall>t. h_fork H t \<noteq> -1"
  shows "\<exists>w' d. StartDisplay H p w = Inr w' \<and> st_get (w_displays w') p = Some d \<and> d_status d = running \<and>
    d_pid d = fork_answer H w \<and> d_sessionID d = d_sessionID d0 \<and> d_name d = d_name d0 \<and>
    d_useChooser d = d_useChooser d0"
proof -
  obtain d where d: "LoadServerResources (h_ext H) (h_xlib H) (dm_db w) d0 = Inr d"
    "apart_from_resources d = apart_from_resources d0"
    using LoadServerResources_loads [OF assms(1)] by blast
  note same = apart_from_resources_fields [OF d(2)]
  have g: "get_display p w = Inr d0" using assms(2) by (simp add: get_display_Inr)
  show ?thesis
  proof (cases "au_authorizations (d_auth d)")
    case None
    have "st_get (w_displays (put_display p d w)) p = Some d" using assms(2) by (simp add: st_get_set)
    from start_session_forks [OF this assms(4)] show ?thesis
      using g d None same assms(2,3)
      by (simp add: StartDisplay_def st_get_set fork_answer_def)
  next
    case (Some auths)
    obtain b d1 ev where s: "SaveServerAuthorizations (h_ext H) (h_files H) (authDir_of (dm_vars w))
        (take (au_authNum (d_auth d)) auths) d = (b, d1, ev)" by (metis prod_cases3)
    let ?v = "(put_display p d1 w)\<lparr>dm_files := dm_files w @ ev\<rparr>"
    have "st_get (w_displays ?v) p = Some d1" using assms(2) by (simp add: st_get_set)
    from start_session_forks [OF this assms(4)] show ?thesis
      using g d Some same assms(2,3) s SaveServerAuthorizations_display [OF s]
      by (auto simp: StartDisplay_def st_get_set fork_answer_def)
  qed
qed

end
