(* ===== verification/Access_Parse.thy ===== *)
theory Access_Parse
  imports Address
begin

text \<open>
  Reading the access file, the first half of \<open>xdm/access.c\<close>: \<open>ReadWord\<close>,
  \<open>ReadHostEntry\<close>, \<open>ReadDisplayEntry\<close>, \<open>ReadAccessDatabase\<close> and
  \<open>ScanAccessDatabase\<close>.

  The union of an entry is a datatype whose constructors are the values of the type tag.  The
  state of the parser is the static variable \<open>nextIsEOF\<close> and the rest of the file, the
  character that \<open>ungetc\<close> pushed back included.  The point in time of an allocation is the
  length of the rest of the file.
\<close>

section \<open>The database\<close>

datatype host_type =
    HOST_ALIAS string
  | HOST_ADDRESS ARRAY8
  | HOST_BROADCAST
  | HOST_CHOOSER
  | HOST_NOBROADCAST
  | HOST_ANYADDR

record HostEntry =
  he_type :: host_type
  he_hopCount :: int

datatype display_type =
    DISPLAY_ALIAS string
  | DISPLAY_PATTERN string
  | DISPLAY_ADDRESS ARRAY8 CARD16
  | DISPLAY_LISTEN

record DisplayEntry =
  de_type :: display_type
  de_notAllowed :: bool
  de_notBroadcast :: bool
  de_chooser :: bool
  de_hosts :: "HostEntry list"

type_synonym database = "DisplayEntry list"

section \<open>Words\<close>

abbreviation TAB :: char where "TAB \<equiv> CHR 0x09"
abbreviation NEWLINE :: char where "NEWLINE \<equiv> CHR 0x0A"

abbreviation WORD_LEN :: nat where "WORD_LEN \<equiv> 256"

text \<open>A word that ends at the end of the file, or at the end of a line when that counts as
  one: the character stays in the stream and the next call is to report the end.\<close>

definition rw_end :: "string \<Rightarrow> string \<Rightarrow> string option \<times> bool \<times> string" where
  "rw_end w rest = (if w = [] then (None, False, rest) else (Some w, True, rest))"

lemma dropWhile_ConsD: "dropWhile P xs = y # ys \<Longrightarrow> length ys < length xs"
  by (metis Suc_le_eq length_Cons length_dropWhile_le)

text \<open>The loop of \<open>ReadWord\<close> from the top of its body, with the word so far, the flag
  \<open>quoted\<close> and the rest of the file; the result is the word, \<open>nextIsEOF\<close> and the rest.\<close>

function rw :: "bool \<Rightarrow> bool \<Rightarrow> string \<Rightarrow> string \<Rightarrow> string option \<times> bool \<times> string" where
  "rw EOFatEOL quoted w inp =
     (if \<not> length w < WORD_LEN - 2 then (None, False, inp)
      else case inp of
        [] \<Rightarrow> rw_end w []
      | c # cs \<Rightarrow>
          if c = CHR ''#'' \<and> \<not> quoted then
            (case dropWhile (\<lambda>x. x \<noteq> NEWLINE) cs of
               [] \<Rightarrow> rw_end w []
             | nl # r \<Rightarrow>
                 if EOFatEOL then rw_end w (nl # r)
                 else if w \<noteq> [] then (Some w, False, nl # r)
                 else rw EOFatEOL False w r)
          else if c = NEWLINE \<and> EOFatEOL \<and> \<not> quoted then rw_end w (c # cs)
          else if c = NEWLINE \<or> c = CHR '' '' \<or> c = TAB then
            (if w \<noteq> [] then (Some w, False, c # cs) else rw EOFatEOL False w cs)
          else if c = CHR 0x5C \<and> \<not> quoted then rw EOFatEOL True w cs
          else rw EOFatEOL False (w @ [c]) cs)"
  by pat_completeness auto

termination
  by (relation "measure (\<lambda>(e, q, w, inp). length inp)") (auto dest: dropWhile_ConsD)

declare rw.simps [simp del]

type_synonym parse_state = "bool \<times> string"

definition ReadWord :: "bool \<Rightarrow> parse_state \<Rightarrow> string option \<times> parse_state" where
  "ReadWord EOFatEOL st =
     (if fst st then (None, (False, snd st))
      else case rw EOFatEOL False [] (snd st) of
             (r, eof, rest) \<Rightarrow> (map_option cstr r, (eof, rest)))"

text \<open>One turn of the loop, as a case split: either the word ends, or the loop goes on with a
  shorter rest and the same word or one more character.\<close>

lemma rw_step:
  obtains (full) "length w \<ge> WORD_LEN - 2" "rw e q w inp = (None, False, inp)"
  | (stop) rest where "length w < WORD_LEN - 2" "rw e q w inp = rw_end w rest"
      "length rest \<le> length inp" "rest = [] \<or> e"
  | (blank) rest where "length w < WORD_LEN - 2" "w \<noteq> []" "rw e q w inp = (Some w, False, rest)"
      "length rest \<le> length inp"
  | (more) q' w' rest where "length w < WORD_LEN - 2" "rw e q w inp = rw e q' w' rest"
      "length rest < length inp" "w' = w \<or> (\<exists>c. w' = w @ [c])"
proof (cases "length w < WORD_LEN - 2")
  case False
  with that(1) show thesis by (auto simp: rw.simps)
next
  case True
  note w = True
  show thesis
  proof (cases inp)
    case Nil
    with w that(2) show thesis by (auto simp: rw.simps)
  next
    case (Cons c cs)
    show thesis
    proof (cases "c = CHR ''#'' \<and> \<not> q")
      case comment: True
      show thesis
      proof (cases "dropWhile (\<lambda>x. x \<noteq> NEWLINE) cs")
        case Nil
        have "rw e q w inp = rw_end w []"
          unfolding rw.simps [of e q w inp] using w comment Cons Nil
          by (simp del: dropWhile_eq_Nil_conv)
        with w that(2) [of "[]"] show thesis by simp
      next
        case r: (Cons nl r)
        then have "length (nl # r) \<le> length cs" by (metis length_dropWhile_le)
        moreover have "rw e q w inp = (if e then rw_end w (nl # r)
            else if w \<noteq> [] then (Some w, False, nl # r) else rw e False w r)"
          unfolding rw.simps [of e q w inp] using w comment Cons r by simp
        ultimately show thesis
          using w Cons that(2) [of "nl # r"] that(3) [of "nl # r"] that(4) [of False w r]
          by (simp split: if_splits)
      qed
    next
      case False
      then have "rw e q w inp =
        (if c = NEWLINE \<and> e \<and> \<not> q then rw_end w (c # cs)
         else if c = NEWLINE \<or> c = CHR '' '' \<or> c = TAB then
           (if w \<noteq> [] then (Some w, False, c # cs) else rw e False w cs)
         else if c = CHR 0x5C \<and> \<not> q then rw e True w cs
         else rw e False (w @ [c]) cs)"
        unfolding rw.simps [of e q w inp] using w Cons by auto
      with w Cons that(2) [of inp] that(3) [of inp] that(4) [of False w cs] that(4) [of True w cs]
        that(4) [of False "w @ [c]" cs]
      show thesis by (auto split: if_splits)
    qed
  qed
qed

lemma rw_result:
  "rw e q w inp = (r, eof, rest) \<Longrightarrow>
    length rest \<le> length inp \<and> (r = None \<longrightarrow> \<not> eof) \<and>
    (\<forall>v. r = Some v \<longrightarrow> v \<noteq> [] \<and> length v < WORD_LEN - 2 \<and> (w = [] \<longrightarrow> length rest < length inp))"
proof (induction "length inp" arbitrary: q w inp rule: less_induct)
  case less
  show ?case
  proof (rule rw_step [of w e q inp])
    fix rest' assume "rw e q w inp = rw_end w rest'" "length rest' \<le> length inp"
      "length w < WORD_LEN - 2"
    with less.prems show ?thesis by (auto simp: rw_end_def split: if_splits)
  next
    fix q' w' rest' assume *: "rw e q w inp = rw e q' w' rest'" "length rest' < length inp"
    have "rw e q' w' rest' = (r, eof, rest)" using less.prems *(1) by simp
    from less.hyps [OF *(2) this] *(2) show ?thesis by auto
  qed (use less.prems in auto)
qed

lemma ReadWord_Some:
  assumes "ReadWord e st = (Some v, st')"
  shows "length (snd st') < length (snd st)" "length v < WORD_LEN - 2" "\<not> fst st"
proof -
  obtain z where z: "rw e False [] (snd st) = (Some z, fst st', snd st')" "v = cstr z" "\<not> fst st"
    using assms by (auto simp: ReadWord_def split: if_splits prod.splits)
  from rw_result [OF z(1)] z(2) length_cstr_le [of z]
  show "length (snd st') < length (snd st)" "length v < WORD_LEN - 2" by auto
qed (use assms in \<open>simp add: ReadWord_def split: if_splits\<close>)

lemma ReadWord_None:
  assumes "ReadWord e st = (None, st')"
  shows "\<not> fst st'" "length (snd st') \<le> length (snd st)"
  using assms rw_result [of e False "[]" "snd st" None "fst st'" "snd st'"]
  by (auto simp: ReadWord_def split: if_splits prod.splits)

section \<open>Entries\<close>

text \<open>The address of the first result of \<open>getaddrinfo\<close> and the family it has, when that is
  one of the two the parser knows.\<close>

definition lookup_host :: "ext \<Rightarrow> string \<Rightarrow> (nat \<times> ARRAY8) option" where
  "lookup_host E name =
     (case x_getaddrinfo E name of
        Some (SockIn _ a, _) \<Rightarrow> Some (AF_INET, a)
      | Some (SockIn6 _ a _, _) \<Rightarrow> Some (AF_INET6, a)
      | _ \<Rightarrow> None)"

text \<open>What becomes of a word: an entry, nothing because it does not resolve, or nothing because
  memory ran out.\<close>

datatype 'a parsed = Entry 'a | Unknown | NoMemory

definition host_and_hops :: "string \<Rightarrow> string \<times> int" where
  "host_and_hops w =
     (case strrchr w CHR ''/'' of
        None \<Rightarrow> (w, 1)
      | Some (name, hops) \<Rightarrow>
          (let n = to_int32 (strtol hops) in (name, if n < 1 then 1 else n)))"

definition host_of_word :: "ext \<Rightarrow> nat \<Rightarrow> string \<Rightarrow> HostEntry parsed" where
  "host_of_word E t w =
     (if \<not> x_calloc E t then NoMemory
      else if first_is CHR ''%'' w then
        (case x_strdup E w of
           None \<Rightarrow> NoMemory
         | Some n \<Rightarrow> Entry \<lparr>he_type = HOST_ALIAS n, he_hopCount = 1\<rparr>)
      else if w = ''CHOOSER'' then Entry \<lparr>he_type = HOST_CHOOSER, he_hopCount = 1\<rparr>
      else if w = ''BROADCAST'' then Entry \<lparr>he_type = HOST_BROADCAST, he_hopCount = 1\<rparr>
      else if w = ''NOBROADCAST'' then Entry \<lparr>he_type = HOST_NOBROADCAST, he_hopCount = 1\<rparr>
      else if w = ''*'' then Entry \<lparr>he_type = HOST_ANYADDR, he_hopCount = 1\<rparr>
      else
        (let (name, hops) = host_and_hops w
         in case lookup_host E name of
              None \<Rightarrow> Unknown
            | Some (_, a) \<Rightarrow>
                if x_array8_alloc E (length a)
                then Entry \<lparr>he_type = HOST_ADDRESS a, he_hopCount = hops\<rparr> else NoMemory))"

text \<open>The next host of the line; the words that do not resolve are skipped.\<close>

function ReadHostEntry :: "ext \<Rightarrow> parse_state \<Rightarrow> HostEntry option \<times> parse_state" where
  "ReadHostEntry E st =
     (case ReadWord True st of
        (None, st') \<Rightarrow> (None, st')
      | (Some w, st') \<Rightarrow>
          (case host_of_word E (length (snd st')) w of
             Entry h \<Rightarrow> (Some h, st')
           | NoMemory \<Rightarrow> (None, st')
           | Unknown \<Rightarrow> ReadHostEntry E st'))"
  by pat_completeness auto

termination
  by (relation "measure (\<lambda>(E, st). length (snd st))") (auto dest: ReadWord_Some(1) [OF sym])

declare ReadHostEntry.simps [simp del]

definition HasGlobCharacters :: "string \<Rightarrow> bool" where
  "HasGlobCharacters s \<longleftrightarrow> list_ex (\<lambda>c. c = CHR ''?'' \<or> c = CHR ''*'') s"

text \<open>The entry a display word starts, its host list still empty.\<close>

definition display_of_word :: "ext \<Rightarrow> nat \<Rightarrow> string \<Rightarrow> DisplayEntry parsed" where
  "display_of_word E t w =
     (if \<not> x_calloc E t then NoMemory
      else
        let make = (\<lambda>ty neg. \<lparr>de_type = ty, de_notAllowed = neg, de_notBroadcast = False,
                              de_chooser = False, de_hosts = []\<rparr>)
        in if first_is CHR ''%'' w then
             (case x_strdup E w of
                None \<Rightarrow> NoMemory | Some n \<Rightarrow> Entry (make (DISPLAY_ALIAS n) False))
           else if w = ''LISTEN'' then Entry (make DISPLAY_LISTEN False)
           else
             let neg = first_is CHR ''!'' w; v = (if neg then tl w else w)
             in if HasGlobCharacters v then
                  (case x_strdup E v of
                     None \<Rightarrow> NoMemory | Some n \<Rightarrow> Entry (make (DISPLAY_PATTERN n) neg))
                else case lookup_host E v of
                       None \<Rightarrow> Unknown
                     | Some (family, a) \<Rightarrow>
                         if x_array8_alloc E (length a)
                         then Entry (make (DISPLAY_ADDRESS a
                                (if family = AF_INET then FamilyInternet else FamilyInternet6)) neg)
                         else NoMemory)"

text \<open>What a host word adds to the entry of its line.\<close>

definition add_host :: "HostEntry \<Rightarrow> DisplayEntry \<Rightarrow> DisplayEntry" where
  "add_host h d =
     (case he_type h of
        HOST_CHOOSER \<Rightarrow> d\<lparr>de_chooser := True\<rparr>
      | HOST_NOBROADCAST \<Rightarrow> d\<lparr>de_notBroadcast := True\<rparr>
      | HOST_ANYADDR \<Rightarrow> if de_type d = DISPLAY_LISTEN then d\<lparr>de_hosts := de_hosts d @ [h]\<rparr> else d
      | _ \<Rightarrow> d\<lparr>de_hosts := de_hosts d @ [h]\<rparr>)"

lemma ReadHostEntry_shorter:
  "ReadHostEntry E st = (Some h, st') \<Longrightarrow> length (snd st') < length (snd st)"
proof (induction E st rule: ReadHostEntry.induct)
  case (1 E st)
  obtain w st1 where w: "ReadWord True st = (Some w, st1)"
    using 1(2) unfolding ReadHostEntry.simps [of E st] by (auto split: prod.splits option.splits)
  have l: "length (snd st1) < length (snd st)" using w by (rule ReadWord_Some(1))
  show ?case
  proof (cases "host_of_word E (length (snd st1)) w")
    case Unknown
    with 1(2) w have "ReadHostEntry E st1 = (Some h, st')"
      unfolding ReadHostEntry.simps [of E st] by simp
    with 1(1) [OF w [symmetric] refl Unknown] l show ?thesis by simp
  qed (use 1(2) w l in \<open>auto simp: ReadHostEntry.simps [of E st]\<close>)
qed

text \<open>The rest of the line: hosts until \<open>ReadHostEntry\<close> returns NULL.\<close>

function read_hosts :: "ext \<Rightarrow> DisplayEntry \<Rightarrow> parse_state \<Rightarrow> DisplayEntry \<times> parse_state" where
  "read_hosts E d st =
     (case ReadHostEntry E st of
        (None, st') \<Rightarrow> (d, st')
      | (Some h, st') \<Rightarrow> read_hosts E (add_host h d) st')"
  by pat_completeness auto

termination
  by (relation "measure (\<lambda>(E, d, st). length (snd st))") (auto dest: ReadHostEntry_shorter [OF sym])

declare read_hosts.simps [simp del]

text \<open>A display word that does not resolve is dropped alone: the loop goes on with the next
  word of the file, which is the first host of the same line if there is one.\<close>

function ReadDisplayEntry :: "ext \<Rightarrow> parse_state \<Rightarrow> DisplayEntry option \<times> parse_state" where
  "ReadDisplayEntry E st =
     (case ReadWord False st of
        (None, st') \<Rightarrow> (None, st')
      | (Some w, st') \<Rightarrow>
          (case display_of_word E (length (snd st')) w of
             Entry d \<Rightarrow> map_prod Some id (read_hosts E d st')
           | NoMemory \<Rightarrow> (None, st')
           | Unknown \<Rightarrow> ReadDisplayEntry E st'))"
  by pat_completeness auto

termination
  by (relation "measure (\<lambda>(E, st). length (snd st))") (auto dest: ReadWord_Some(1) [OF sym])

declare ReadDisplayEntry.simps [simp del]

lemma ReadHostEntry_le: "ReadHostEntry E st = (r, st') \<Longrightarrow> length (snd st') \<le> length (snd st)"
proof (induction E st rule: ReadHostEntry.induct)
  case (1 E st)
  obtain r1 st1 where w: "ReadWord True st = (r1, st1)" by (cases "ReadWord True st")
  show ?case
  proof (cases r1)
    case None
    with 1(2) w ReadWord_None(2) [of True st st1] show ?thesis
      unfolding ReadHostEntry.simps [of E st] by simp
  next
    case (Some v)
    with w have l: "length (snd st1) < length (snd st)" by (auto dest: ReadWord_Some(1))
    show ?thesis
    proof (cases "host_of_word E (length (snd st1)) v")
      case Unknown
      with 1(2) w Some have "ReadHostEntry E st1 = (r, st')"
        unfolding ReadHostEntry.simps [of E st] by simp
      with 1(1) [OF w [symmetric] Some Unknown] l show ?thesis by simp
    qed (use 1(2) w Some l in \<open>auto simp: ReadHostEntry.simps [of E st]\<close>)
  qed
qed

lemma read_hosts_le: "read_hosts E d st = (d', st') \<Longrightarrow> length (snd st') \<le> length (snd st)"
proof (induction E d st rule: read_hosts.induct)
  case (1 E d st)
  obtain r1 st1 where h: "ReadHostEntry E st = (r1, st1)" by (cases "ReadHostEntry E st")
  note l = ReadHostEntry_le [OF h]
  show ?case
  proof (cases r1)
    case None
    with 1(2) h l show ?thesis unfolding read_hosts.simps [of E d st] by simp
  next
    case (Some x)
    with 1(2) h have "read_hosts E (add_host x d) st1 = (d', st')"
      unfolding read_hosts.simps [of E d st] by simp
    with 1(1) [OF h [symmetric] Some] l show ?thesis by simp
  qed
qed

lemma ReadDisplayEntry_shorter:
  "ReadDisplayEntry E st = (Some d, st') \<Longrightarrow> length (snd st') < length (snd st)"
proof (induction E st rule: ReadDisplayEntry.induct)
  case (1 E st)
  obtain w st1 where w: "ReadWord False st = (Some w, st1)"
    using 1(2) unfolding ReadDisplayEntry.simps [of E st] by (auto split: prod.splits option.splits)
  have l: "length (snd st1) < length (snd st)" using w by (rule ReadWord_Some(1))
  show ?case
  proof (cases "display_of_word E (length (snd st1)) w")
    case (Entry e)
    with 1(2) w have "read_hosts E e st1 = (d, st')"
      unfolding ReadDisplayEntry.simps [of E st] by (cases "read_hosts E e st1") simp
    with l read_hosts_le show ?thesis by fastforce
  next
    case Unknown
    with 1(2) w have "ReadDisplayEntry E st1 = (Some d, st')"
      unfolding ReadDisplayEntry.simps [of E st] by simp
    with 1(1) [OF w [symmetric] refl Unknown] l show ?thesis by simp
  next
    case NoMemory
    with 1(2) w show ?thesis unfolding ReadDisplayEntry.simps [of E st] by simp
  qed
qed

function ReadAccessDatabase :: "ext \<Rightarrow> parse_state \<Rightarrow> database \<times> parse_state" where
  "ReadAccessDatabase E st =
     (case ReadDisplayEntry E st of
        (None, st') \<Rightarrow> ([], st')
      | (Some d, st') \<Rightarrow> map_prod (Cons d) id (ReadAccessDatabase E st'))"
  by pat_completeness auto

termination
  by (relation "measure (\<lambda>(E, st). length (snd st))") (auto dest: ReadDisplayEntry_shorter [OF sym])

declare ReadAccessDatabase.simps [simp del]

text \<open>\<open>content\<close> is what opening and reading the file gives, None when \<open>fopen\<close> fails; the
  result is the return value, the new database and \<open>nextIsEOF\<close>.\<close>

definition ScanAccessDatabase ::
    "ext \<Rightarrow> string \<Rightarrow> string option \<Rightarrow> bool \<Rightarrow> bool \<times> database \<times> bool" where
  "ScanAccessDatabase E accessFile content nextIsEOF =
     (if accessFile = [] then (True, [], nextIsEOF)
      else case content of
             None \<Rightarrow> (False, [], nextIsEOF)
           | Some text \<Rightarrow>
               (let (db, st') = ReadAccessDatabase E (nextIsEOF, text) in (True, db, fst st')))"

section \<open>What a file means\<close>

text \<open>Memory that never runs out: then a word is an entry or unknown, at any time.\<close>

definition memory_ok :: "ext \<Rightarrow> bool" where
  "memory_ok E \<longleftrightarrow>
     (\<forall>t. x_calloc E t) \<and> (\<forall>s. x_strdup E s = Some s) \<and> (\<forall>n. x_array8_alloc E n)"

lemma memory_ok_std: "memory_ok std_ext"
  by (simp add: memory_ok_def std_ext_def)

lemma host_of_word_mem:
  "memory_ok E \<Longrightarrow> host_of_word E t w \<noteq> NoMemory \<and> host_of_word E t w = host_of_word E 0 w"
  by (auto simp: memory_ok_def host_of_word_def split: option.splits prod.splits)

lemma display_of_word_mem:
  "memory_ok E \<Longrightarrow> display_of_word E t w \<noteq> NoMemory \<and> display_of_word E t w = display_of_word E 0 w"
  by (auto simp: memory_ok_def display_of_word_def Let_def split: option.splits prod.splits)

definition host_words :: "ext \<Rightarrow> DisplayEntry \<Rightarrow> string list \<Rightarrow> DisplayEntry" where
  "host_words E d ws =
     foldl (\<lambda>d w. case host_of_word E 0 w of Entry h \<Rightarrow> add_host h d | _ \<Rightarrow> d) d ws"

text \<open>The entries one line stands for: one, whose display is the first word of the line that
  resolves, or none.\<close>

primrec line_entries :: "ext \<Rightarrow> string list \<Rightarrow> database" where
  "line_entries E [] = []"
| "line_entries E (w # ws) =
     (case display_of_word E 0 w of Entry d \<Rightarrow> [host_words E d ws] | _ \<Rightarrow> line_entries E ws)"

definition plain_char :: "char \<Rightarrow> bool" where
  "plain_char c \<longleftrightarrow> c \<notin> {CHR '' '', TAB, NEWLINE, CHR ''#'', CHR 0x5C, NUL}"

definition plain_word :: "string \<Rightarrow> bool" where
  "plain_word w \<longleftrightarrow> w \<noteq> [] \<and> length w < WORD_LEN - 2 \<and> (\<forall>c \<in> set w. plain_char c)"

definition blank_words :: "string list \<Rightarrow> string" where
  "blank_words ws = concat (map (Cons CHR '' '') ws)"

definition access_text :: "string list list \<Rightarrow> string" where
  "access_text ls = concat (map (\<lambda>ws. tl (blank_words ws) @ [NEWLINE]) ls)"

lemma rw_plain:
  "\<forall>c \<in> set v. plain_char c \<Longrightarrow> length w + length v < WORD_LEN - 2 \<Longrightarrow>
    rw e False w (v @ rest) = rw e False (w @ v) rest"
proof (induction v arbitrary: w)
  case (Cons c v)
  then have "rw e False w (c # v @ rest) = rw e False (w @ [c]) (v @ rest)"
    unfolding rw.simps [of e False w "c # v @ rest"] by (simp add: plain_char_def)
  with Cons show ?case by simp
qed simp

lemma rw_blank: "w \<noteq> [] \<Longrightarrow> length w < WORD_LEN - 2 \<Longrightarrow>
    rw e False w (CHR '' '' # rest) = (Some w, False, CHR '' '' # rest)"
  unfolding rw.simps [of e False w "CHR '' '' # rest"] by simp

lemma rw_skip_blank: "rw e False [] (CHR '' '' # rest) = rw e False [] rest"
  unfolding rw.simps [of e False "[]" "CHR '' '' # rest"] by simp

lemma rw_newline: "length w < WORD_LEN - 2 \<Longrightarrow>
    rw e False w (NEWLINE # rest) =
      (if e then rw_end w (NEWLINE # rest)
       else if w \<noteq> [] then (Some w, False, NEWLINE # rest) else rw e False [] rest)"
  unfolding rw.simps [of e False w "NEWLINE # rest"] by simp

lemma rw_eof: "rw e False [] [] = (None, False, [])"
  unfolding rw.simps [of e False "[]" "[]"] by (simp add: rw_end_def)

lemma ReadWord_skip_blank: "ReadWord e (False, CHR '' '' # rest) = ReadWord e (False, rest)"
  by (simp add: ReadWord_def rw_skip_blank)

lemma ReadWord_skip_newline: "ReadWord False (False, NEWLINE # rest) = ReadWord False (False, rest)"
  by (simp add: ReadWord_def rw_newline)

lemma ReadWord_line_end: "ReadWord True (f, NEWLINE # rest) = (None, (False, NEWLINE # rest))"
  by (simp add: ReadWord_def rw_newline rw_end_def)

lemma cstr_plain: "\<forall>c \<in> set w. plain_char c \<Longrightarrow> cstr w = w"
proof (rule cstr_id)
  assume plain: "\<forall>c \<in> set w. plain_char c"
  have "\<not> plain_char NUL" by (simp add: plain_char_def)
  with plain show "c_string w" unfolding c_string_def by blast
qed

text \<open>A plain word is read whole; the flag tells whether the line ends right behind it.\<close>

lemma ReadWord_plain:
  assumes "plain_word w"
  shows "ReadWord e (False, w @ blank_words ws @ NEWLINE # rest) =
    (Some w, (e \<and> ws = [], blank_words ws @ NEWLINE # rest))"
proof -
  have "rw e False [] (w @ blank_words ws @ NEWLINE # rest) =
      rw e False ([] @ w) (blank_words ws @ NEWLINE # rest)"
    by (rule rw_plain) (use assms in \<open>auto simp: plain_word_def\<close>)
  also have "\<dots> = (Some w, e \<and> ws = [], blank_words ws @ NEWLINE # rest)"
    using assms unfolding plain_word_def
    by (cases ws) (simp_all add: blank_words_def rw_blank rw_newline rw_end_def)
  finally show ?thesis using assms by (simp add: ReadWord_def cstr_plain plain_word_def)
qed

text \<open>The loops of the parser over words, without the skipping of unknown ones.\<close>

lemma read_hosts_word:
  assumes "memory_ok E" "ReadWord True st = (Some w, st')"
  shows "read_hosts E d st = read_hosts E (host_words E d [w]) st'"
proof (cases "host_of_word E (length (snd st')) w")
  case (Entry h)
  then have "host_of_word E 0 w = Entry h"
    using host_of_word_mem [OF assms(1), of "length (snd st')" w] by metis
  with assms Entry show ?thesis
    by (subst read_hosts.simps) (simp add: ReadHostEntry.simps [of E st] host_words_def)
next
  case Unknown
  with assms host_of_word_mem [OF assms(1), of "length (snd st')" w]
  have "ReadHostEntry E st = ReadHostEntry E st'" "host_words E d [w] = d"
    by (simp_all add: ReadHostEntry.simps [of E st] host_words_def)
  then show ?thesis by (simp add: read_hosts.simps [of E d])
qed (use host_of_word_mem [OF assms(1)] in auto)

lemma read_hosts_end:
  "ReadWord True st = (None, st') \<Longrightarrow> read_hosts E d st = (d, st')"
  by (simp add: read_hosts.simps [of E d] ReadHostEntry.simps [of E st])

lemma read_hosts_line:
  assumes "memory_ok E" "\<forall>w \<in> set ws. plain_word w" "f \<longrightarrow> ws = []"
  shows "read_hosts E d (f, blank_words ws @ NEWLINE # rest) =
    (host_words E d ws, (False, NEWLINE # rest))"
  using assms(2,3)
proof (induction ws arbitrary: d f)
  case Nil
  show ?case using read_hosts_end [OF ReadWord_line_end] by (simp add: blank_words_def host_words_def)
next
  case (Cons w ws)
  have "ReadWord True (False, blank_words (w # ws) @ NEWLINE # rest) =
      (Some w, (ws = [], blank_words ws @ NEWLINE # rest))"
    using Cons.prems(1) ReadWord_plain [of w True ws rest]
    by (simp add: blank_words_def ReadWord_skip_blank)
  from read_hosts_word [OF assms(1) this, of d] Cons show ?case by (simp add: host_words_def)
qed

lemma database_word:
  assumes "memory_ok E" "ReadWord False st = (Some w, st')"
  shows "ReadAccessDatabase E st =
    (case display_of_word E 0 w of
       Entry e \<Rightarrow> (let (d, st'') = read_hosts E e st' in map_prod (Cons d) id (ReadAccessDatabase E st''))
     | _ \<Rightarrow> ReadAccessDatabase E st')"
proof (cases "display_of_word E (length (snd st')) w")
  case (Entry e)
  then have "display_of_word E 0 w = Entry e"
    using display_of_word_mem [OF assms(1), of "length (snd st')" w] by metis
  with assms Entry show ?thesis
    by (subst ReadAccessDatabase.simps)
      (simp add: ReadDisplayEntry.simps [of E st] Let_def split: prod.splits)
next
  case Unknown
  with assms display_of_word_mem [OF assms(1), of "length (snd st')" w]
  have "ReadDisplayEntry E st = ReadDisplayEntry E st'" "display_of_word E 0 w = Unknown"
    by (simp_all add: ReadDisplayEntry.simps [of E st])
  then show ?thesis by (simp add: ReadAccessDatabase.simps [of E])
qed (use display_of_word_mem [OF assms(1)] in auto)

lemma database_skip_blank:
  "ReadAccessDatabase E (False, CHR '' '' # rest) = ReadAccessDatabase E (False, rest)"
  by (simp add: ReadAccessDatabase.simps [of E] ReadDisplayEntry.simps [of E "(False, CHR '' '' # rest)"]
      ReadDisplayEntry.simps [of E "(False, rest)"] ReadWord_skip_blank)

lemma database_skip_newline:
  "ReadAccessDatabase E (False, NEWLINE # rest) = ReadAccessDatabase E (False, rest)"
  by (simp add: ReadAccessDatabase.simps [of E] ReadDisplayEntry.simps [of E "(False, NEWLINE # rest)"]
      ReadDisplayEntry.simps [of E "(False, rest)"] ReadWord_skip_newline)

lemma database_line:
  assumes "memory_ok E" "\<forall>w \<in> set ws. plain_word w"
  shows "ReadAccessDatabase E (False, blank_words ws @ NEWLINE # rest) =
    map_prod ((@) (line_entries E ws)) id (ReadAccessDatabase E (False, rest))"
  using assms(2)
proof (induction ws)
  case Nil
  show ?case by (simp add: blank_words_def database_skip_newline prod.map_id0 id_def)
next
  case (Cons w ws)
  let ?t = "blank_words ws @ NEWLINE # rest"
  have "ReadWord False (False, w @ ?t) = (Some w, (False, ?t))"
    using Cons.prems ReadWord_plain [of w False ws rest] by simp
  note word = database_word [OF assms(1) this]
  have "ReadAccessDatabase E (False, blank_words (w # ws) @ NEWLINE # rest) =
      ReadAccessDatabase E (False, w @ ?t)"
    by (simp add: blank_words_def database_skip_blank)
  also have "\<dots> = map_prod ((@) (line_entries E (w # ws))) id (ReadAccessDatabase E (False, rest))"
  proof (cases "display_of_word E 0 w")
    case (Entry e)
    have "read_hosts E e (False, ?t) = (host_words E e ws, (False, NEWLINE # rest))"
      using Cons.prems by (intro read_hosts_line [OF assms(1)]) auto
    with Entry show ?thesis unfolding word
      by (cases "ReadAccessDatabase E (False, rest)") (simp add: database_skip_newline)
  next
    case Unknown
    with Cons show ?thesis unfolding word by (simp add: id_def)
  next
    case NoMemory
    with display_of_word_mem [OF assms(1)] show ?thesis by simp
  qed
  finally show ?case .
qed

lemma database_end: "ReadAccessDatabase E (False, []) = ([], (False, []))"
  by (simp add: ReadAccessDatabase.simps [of E] ReadDisplayEntry.simps [of E] ReadWord_def rw_eof)

lemma database_text_line:
  "ReadAccessDatabase E (False, tl (blank_words ws) @ NEWLINE # rest) =
    ReadAccessDatabase E (False, blank_words ws @ NEWLINE # rest)"
  by (cases ws) (simp_all add: blank_words_def database_skip_blank)

section \<open>Properties\<close>

text \<open>C22: a file of words separated by blanks, one entry to a line, is read as the entries
  its lines stand for, completely and in order, and the parser is left ready for the next
  scan.  A line whose display does not resolve stands for whatever its host words mean as
  displays.\<close>

theorem ReadAccessDatabase_text:
  assumes "memory_ok E" "\<forall>ws \<in> set ls. \<forall>w \<in> set ws. plain_word w"
  shows "ReadAccessDatabase E (False, access_text ls) =
    (concat (map (line_entries E) ls), (False, []))"
  using assms(2)
proof (induction ls)
  case Nil
  show ?case by (simp add: access_text_def database_end)
next
  case (Cons ws ls)
  have "ReadAccessDatabase E (False, access_text (ws # ls)) =
      ReadAccessDatabase E (False, blank_words ws @ NEWLINE # access_text ls)"
    by (simp add: access_text_def database_text_line)
  also have "\<dots> = map_prod ((@) (line_entries E ws)) id (ReadAccessDatabase E (False, access_text ls))"
    using Cons.prems by (intro database_line [OF assms(1)]) simp
  finally show ?case using Cons by simp
qed

text \<open>A resolver for the examples: two hosts with IPv4 addresses and one with an IPv6
  address.\<close>

definition sample_ext :: ext where
  "sample_ext = std_ext\<lparr>x_getaddrinfo :=
     (\<lambda>s. if s = ''alpha'' then Some (SockIn [0, 0] [10, 0, 0, 7], [])
          else if s = ''beta'' then Some (SockIn [0, 0] [10, 0, 0, 8], [])
          else if s = ''gamma'' then Some (SockIn6 [0, 0] (replicate 15 0 @ [9]) 0, [])
          else None)\<rparr>"

lemma memory_ok_sample: "memory_ok sample_ext"
  by (simp add: memory_ok_def sample_ext_def std_ext_def)

lemma ext_ok_sample: "ext_ok sample_ext"
  by (auto simp: ext_ok_def sample_ext_def std_ext_def split: if_splits)

lemma ReadAccessDatabase_text_witness:
  "ReadAccessDatabase sample_ext (False, access_text [[''alpha'', ''CHOOSER'', ''beta''], [], [''!*.bad'']]) =
    ([\<lparr>de_type = DISPLAY_ADDRESS [10, 0, 0, 7] 0, de_notAllowed = False, de_notBroadcast = False,
       de_chooser = True,
       de_hosts = [\<lparr>he_type = HOST_ADDRESS [10, 0, 0, 8], he_hopCount = 1\<rparr>]\<rparr>,
      \<lparr>de_type = DISPLAY_PATTERN ''*.bad'', de_notAllowed = True, de_notBroadcast = False,
       de_chooser = False, de_hosts = []\<rparr>], (False, []))"
proof -
  let ?ls = "[[''alpha'', ''CHOOSER'', ''beta''], [], [''!*.bad'']]"
  have plain: "\<forall>ws \<in> set ?ls. \<forall>w \<in> set ws. plain_word w" by code_simp
  have "concat (map (line_entries sample_ext) ?ls) =
    [\<lparr>de_type = DISPLAY_ADDRESS [10, 0, 0, 7] 0, de_notAllowed = False, de_notBroadcast = False,
       de_chooser = True,
       de_hosts = [\<lparr>he_type = HOST_ADDRESS [10, 0, 0, 8], he_hopCount = 1\<rparr>]\<rparr>,
      \<lparr>de_type = DISPLAY_PATTERN ''*.bad'', de_notAllowed = True, de_notBroadcast = False,
       de_chooser = False, de_hosts = []\<rparr>]"
    by code_simp
  with ReadAccessDatabase_text [OF memory_ok_sample plain] show ?thesis by simp
qed

lemma ReadDisplayEntry_None:
  "memory_ok E \<Longrightarrow> ReadDisplayEntry E st = (None, st') \<Longrightarrow> \<not> fst st'"
proof (induction E st rule: ReadDisplayEntry.induct)
  case (1 E st)
  obtain r st1 where w: "ReadWord False st = (r, st1)" by (cases "ReadWord False st")
  show ?case
  proof (cases r)
    case None
    with 1(3) w ReadWord_None(1) [of False st st1] show ?thesis
      unfolding ReadDisplayEntry.simps [of E st] by simp
  next
    case (Some v)
    show ?thesis
    proof (cases "display_of_word E (length (snd st1)) v")
      case (Entry d)
      with 1(3) w Some show ?thesis
        unfolding ReadDisplayEntry.simps [of E st] by (cases "read_hosts E d st1") simp
    next
      case Unknown
      with 1(3) w Some have "ReadDisplayEntry E st1 = (None, st')"
        unfolding ReadDisplayEntry.simps [of E st] by simp
      then show ?thesis by (rule 1(1) [OF w [symmetric] Some Unknown 1(2)])
    next
      case NoMemory
      with display_of_word_mem [OF 1(2)] show ?thesis by simp
    qed
  qed
qed

text \<open>With memory to spare, every scan ends with \<open>nextIsEOF\<close> cleared, so that the next
  one starts at the beginning of its file; only running out of memory can leave it set.\<close>

theorem ReadAccessDatabase_flag_clear:
  assumes "memory_ok E"
  shows "\<not> fst (snd (ReadAccessDatabase E st))"
  using assms
proof (induction E st rule: ReadAccessDatabase.induct)
  case (1 E st)
  obtain r st1 where d: "ReadDisplayEntry E st = (r, st1)" by (cases "ReadDisplayEntry E st")
  show ?case
  proof (cases r)
    case None
    with 1(2) d ReadDisplayEntry_None show ?thesis
      unfolding ReadAccessDatabase.simps [of E st] by simp
  next
    case (Some e)
    with 1 d show ?thesis
      unfolding ReadAccessDatabase.simps [of E st] by (cases "ReadAccessDatabase E st1") simp
  qed
qed

lemma ReadAccessDatabase_flag_clear_witness:
  "\<not> fst (snd (ReadAccessDatabase sample_ext (True, ''alpha beta'')))"
  by (rule ReadAccessDatabase_flag_clear [OF memory_ok_sample])

text \<open>A word too long for the buffer ends everything: \<open>ReadWord\<close> returns NULL as at the
  end of the file, in the middle of the word.\<close>

theorem ReadWord_overlong:
  assumes "\<forall>c \<in> set w. plain_char c" "length w = WORD_LEN - 2"
  shows "ReadWord e (False, w @ rest) = (None, (False, rest))"
proof -
  obtain v c where v: "w = v @ [c]" using assms(2) by (cases w rule: rev_cases) auto
  have "rw e False [] (w @ rest) = rw e False ([] @ v) (c # rest)"
    unfolding v append_assoc by (subst rw_plain) (use assms v in auto)
  also have "\<dots> = rw e False w rest"
    unfolding rw.simps [of e False "[] @ v" "c # rest"] using assms v by (simp add: plain_char_def)
  also have "\<dots> = (None, False, rest)"
    unfolding rw.simps [of e False w rest] using assms(2) by simp
  finally show ?thesis by (simp add: ReadWord_def)
qed

lemma ReadWord_overlong_witness:
  "ReadWord False (False, replicate 254 CHR ''a'' @ ''bc'') = (None, (False, ''bc''))"
  by (rule ReadWord_overlong) (simp_all add: plain_char_def NUL_def)

lemma ReadWord_continuation_facts:
  assumes "plain_word w"
  shows "ReadWord True (False, w @ CHR 0x5C # NEWLINE # rest) = (Some w, (False, NEWLINE # rest))"
    and "ReadWord True (False, NEWLINE # rest) = (None, (False, NEWLINE # rest))"
    and "ReadWord True (False, w @ CHR '' '' # CHR 0x5C # NEWLINE # rest) =
      (Some w, (False, CHR '' '' # CHR 0x5C # NEWLINE # rest))"
    and "ReadWord True (False, CHR '' '' # CHR 0x5C # NEWLINE # rest) = ReadWord True (False, rest)"
proof -
  have w: "length w < WORD_LEN - 2" "w \<noteq> []" "\<forall>c \<in> set w. plain_char c"
    using assms by (auto simp: plain_word_def)
  have word: "rw True False [] (w @ s) = rw True False w s" for s
    using rw_plain [of w "[]"] w by simp
  have quoted: "rw True True v (NEWLINE # rest) =
      (if v = [] then rw True False [] rest else (Some v, False, NEWLINE # rest))"
    if "length v < WORD_LEN - 2" for v
    unfolding rw.simps [of True True v "NEWLINE # rest"] using that by simp
  have slash: "rw True False v (CHR 0x5C # s) = rw True True v s" if "length v < WORD_LEN - 2" for v s
    unfolding rw.simps [of True False v "CHR 0x5C # s"] using that by simp
  show "ReadWord True (False, w @ CHR 0x5C # NEWLINE # rest) = (Some w, (False, NEWLINE # rest))"
    using w by (simp add: ReadWord_def word slash quoted cstr_plain)
  show "ReadWord True (False, NEWLINE # rest) = (None, (False, NEWLINE # rest))"
    by (rule ReadWord_line_end)
  show "ReadWord True (False, w @ CHR '' '' # CHR 0x5C # NEWLINE # rest) =
      (Some w, (False, CHR '' '' # CHR 0x5C # NEWLINE # rest))"
    using w by (simp add: ReadWord_def word rw_blank cstr_plain)
  show "ReadWord True (False, CHR '' '' # CHR 0x5C # NEWLINE # rest) = ReadWord True (False, rest)"
    by (simp add: ReadWord_def rw_skip_blank slash quoted)
qed

text \<open>a backslash before a newline continues a host list only when a blank precedes it:
  directly behind a word it ends the word, and the newline, no longer quoted, ends the list.\<close>

theorem ReadWord_continuation:
  assumes "plain_word w"
  shows "(let glued = ReadWord True (False, w @ CHR 0x5C # NEWLINE # rest);
              blank = ReadWord True (False, w @ CHR '' '' # CHR 0x5C # NEWLINE # rest)
          in fst glued = Some w \<and> fst (ReadWord True (snd glued)) = None \<and>
             fst blank = Some w \<and> ReadWord True (snd blank) = ReadWord True (False, rest))"
  using assms by (simp add: ReadWord_continuation_facts)

lemma ReadWord_continuation_witness:
  "fst (ReadWord True (False, ''beta'' @ CHR 0x5C # NEWLINE # ''gamma'')) = Some ''beta''"
proof -
  have "plain_word ''beta''" by code_simp
  from ReadWord_continuation [OF this, of "''gamma''"] show ?thesis by (simp add: Let_def)
qed

end
