(* ===== verification/Access.thy ===== *)
theory Access
  imports Access_Parse Choose
begin

text \<open>
  Decisions of the access database, the second half of \<open>xdm/access.c\<close>: pattern matching,
  host lists with aliases, which clients are acceptable, where indirect queries go, what the
  chooser is offered and which addresses are listened on.

  A callback of type \<open>ChooserFunc\<close> is a function on a state of the caller's choosing, which
  stands for its \<open>closure\<close> and for everything it changes.  The depth argument of the
  alias recursion is kept as the number of levels left below \<open>MAX_DEPTH\<close>.
\<close>

section \<open>Patterns\<close>

text \<open>\<open>patternMatch\<close>, and the loop its case for an asterisk runs over the string; the loop
  stops before the empty suffix.  A backslash that ends the pattern makes the code read the
  byte behind the terminator.\<close>

function pm :: "string \<Rightarrow> string \<Rightarrow> c_error + bool"
  and pm_star :: "string \<Rightarrow> string \<Rightarrow> c_error + bool" where
  "pm s [] = Inr (s = [])"
| "pm s (p # ps) =
     (if p = CHR ''*'' then (if ps = [] then Inr True else pm_star s ps)
      else if p = CHR ''?'' then (case s of [] \<Rightarrow> Inr False | c # cs \<Rightarrow> pm cs ps)
      else if p = CHR 0x5C then
        (case ps of
           [] \<Rightarrow> if s = [] then Inl OutOfBounds else Inr False
         | q # qs \<Rightarrow>
             (case s of [] \<Rightarrow> Inr False
              | c # cs \<Rightarrow> if fold_case q = fold_case c then pm cs qs else Inr False))
      else
        (case s of [] \<Rightarrow> Inr False
         | c # cs \<Rightarrow> if fold_case p = fold_case c then pm cs ps else Inr False))"
| "pm_star [] ps = Inr False"
| "pm_star (c # cs) ps =
     bindE (pm (c # cs) ps) (\<lambda>m. if m then Inr True else pm_star cs ps)"
  by pat_completeness auto

termination
  by (relation "measures [\<lambda>x. case x of Inl (s, p) \<Rightarrow> length p | Inr (s, p) \<Rightarrow> length p,
                          \<lambda>x. case x of Inl (s, p) \<Rightarrow> length s | Inr (s, p) \<Rightarrow> length s,
                          \<lambda>x. case x of Inl _ \<Rightarrow> 0 | Inr _ \<Rightarrow> 1]") auto

definition patternMatch :: "string option \<Rightarrow> string \<Rightarrow> c_error + bool" where
  "patternMatch s pattern = pm (case s of None \<Rightarrow> [] | Some t \<Rightarrow> t) pattern"

section \<open>Which entry a client matches\<close>

text \<open>The test the loops share.  The client's name is looked up for the first pattern and kept;
  the model looks it up each time with the same result.\<close>

definition entry_match :: "ext \<Rightarrow> ARRAY8 \<Rightarrow> CARD16 \<Rightarrow> DisplayEntry \<Rightarrow> c_error + bool" where
  "entry_match E clientAddress connectionType d =
     (case de_type d of
        DISPLAY_ALIAS _ \<Rightarrow> Inr False
      | DISPLAY_LISTEN \<Rightarrow> Inr False
      | DISPLAY_PATTERN p \<Rightarrow>
          bindE (NetworkAddressToHostname E connectionType clientAddress)
            (\<lambda>clientName. patternMatch clientName p)
      | DISPLAY_ADDRESS a ct \<Rightarrow>
          Inr (ct = connectionType \<and> x_array8_equal E a clientAddress))"

text \<open>The loop of the three functions for indirect queries, up to the entry at which it stops:
  the first matching one with hosts.\<close>

primrec indirect_entry ::
    "ext \<Rightarrow> ARRAY8 \<Rightarrow> CARD16 \<Rightarrow> database \<Rightarrow> c_error + DisplayEntry option" where
  "indirect_entry E a ct [] = Inr None"
| "indirect_entry E a ct (d # db) =
     bindE (entry_match E a ct d)
       (\<lambda>m. if \<not> m \<or> de_hosts d = [] then indirect_entry E a ct db else Inr (Some d))"

text \<open>The loop of \<open>AcceptableDisplayAddress\<close>: the first matching entry without hosts.\<close>

primrec direct_entry ::
    "ext \<Rightarrow> ARRAY8 \<Rightarrow> CARD16 \<Rightarrow> database \<Rightarrow> c_error + DisplayEntry option" where
  "direct_entry E a ct [] = Inr None"
| "direct_entry E a ct (d # db) =
     (if de_hosts d \<noteq> [] then direct_entry E a ct db
      else bindE (entry_match E a ct d)
             (\<lambda>m. if \<not> m then direct_entry E a ct db else Inr (Some d)))"

section \<open>Host lists\<close>

abbreviation MAX_DEPTH :: nat where "MAX_DEPTH \<equiv> 32"

type_synonym 's chooser_func = "CARD16 \<Rightarrow> ARRAY8 \<Rightarrow> 's \<Rightarrow> 's"

definition call_back :: "'s chooser_func option \<Rightarrow> CARD16 \<Rightarrow> ARRAY8 \<Rightarrow> 's \<Rightarrow> 's" where
  "call_back f ct a s = (case f of None \<Rightarrow> s | Some g \<Rightarrow> g ct a s)"

text \<open>One turn of a loop that collects \<open>haveLocalhost\<close>, and the turns after it.\<close>

definition or_seq ::
    "c_error + (bool \<times> 's) \<Rightarrow> ('s \<Rightarrow> c_error + (bool \<times> 's)) \<Rightarrow> c_error + (bool \<times> 's)" where
  "or_seq m k = bindE m (\<lambda>(l, s). mapE (\<lambda>(l', s'). (l \<or> l', s')) (k s))"

text \<open>The body of \<open>scanHostlist\<close>, for one host; \<open>alias\<close> is the call of \<open>indirectAlias\<close>.\<close>

definition scan_host ::
    "ext \<Rightarrow> (string \<Rightarrow> 's \<Rightarrow> c_error + (bool \<times> 's)) \<Rightarrow> CARD16 \<Rightarrow> 's chooser_func option \<Rightarrow> bool \<Rightarrow>
     HostEntry \<Rightarrow> 's \<Rightarrow> c_error + (bool \<times> 's)" where
  "scan_host E alias ct f broadcast h s =
     (case he_type h of
        HOST_ALIAS n \<Rightarrow> alias n s
      | HOST_ADDRESS a \<Rightarrow>
          if isLocalAddress E a ct then Inr (True, s) else Inr (False, call_back f ct a s)
      | HOST_BROADCAST \<Rightarrow>
          Inr (False, if broadcast then call_back f ct (bytes_of ''BROADCAST'') s else s)
      | _ \<Rightarrow> Inr (False, s))"

primrec scan_hosts ::
    "ext \<Rightarrow> (string \<Rightarrow> 's \<Rightarrow> c_error + (bool \<times> 's)) \<Rightarrow> CARD16 \<Rightarrow> 's chooser_func option \<Rightarrow> bool \<Rightarrow>
     HostEntry list \<Rightarrow> 's \<Rightarrow> c_error + (bool \<times> 's)" where
  "scan_hosts E alias ct f broadcast [] s = Inr (False, s)"
| "scan_hosts E alias ct f broadcast (h # hs) s =
     or_seq (scan_host E alias ct f broadcast h s) (scan_hosts E alias ct f broadcast hs)"

text \<open>The loop of \<open>indirectAlias\<close> over the database; \<open>scan\<close> is the call of
  \<open>scanHostlist\<close>.\<close>

primrec scan_aliases ::
    "(HostEntry list \<Rightarrow> 's \<Rightarrow> c_error + (bool \<times> 's)) \<Rightarrow> string \<Rightarrow> database \<Rightarrow> 's \<Rightarrow>
     c_error + (bool \<times> 's)" where
  "scan_aliases scan alias [] s = Inr (False, s)"
| "scan_aliases scan alias (d # db) s =
     or_seq (case de_type d of
               DISPLAY_ALIAS n \<Rightarrow>
                 bindE (patternMatch (Some alias) n)
                   (\<lambda>m. if m then scan (de_hosts d) s else Inr (False, s))
             | _ \<Rightarrow> Inr (False, s))
       (scan_aliases scan alias db)"

primrec indirectAlias ::
    "ext \<Rightarrow> database \<Rightarrow> CARD16 \<Rightarrow> 's chooser_func option \<Rightarrow> bool \<Rightarrow> nat \<Rightarrow> string \<Rightarrow> 's \<Rightarrow>
     c_error + (bool \<times> 's)" where
  "indirectAlias E db ct f broadcast 0 alias s = Inr (False, s)"
| "indirectAlias E db ct f broadcast (Suc left) alias s =
     scan_aliases (scan_hosts E (indirectAlias E db ct f broadcast left) ct f broadcast) alias db s"

definition scanHostlist ::
    "ext \<Rightarrow> database \<Rightarrow> HostEntry list \<Rightarrow> CARD16 \<Rightarrow> 's chooser_func option \<Rightarrow> 's \<Rightarrow> nat \<Rightarrow> bool \<Rightarrow>
     c_error + (bool \<times> 's)" where
  "scanHostlist E db hs ct f s depth broadcast =
     scan_hosts E (indirectAlias E db ct f broadcast (MAX_DEPTH - depth)) ct f broadcast hs s"

section \<open>Decisions\<close>

datatype xdmOpCode =
    BROADCAST_QUERY | QUERY | INDIRECT_QUERY | FORWARD_QUERY | WILLING | UNWILLING | REQUEST
  | ACCEPT | DECLINE | MANAGE | REFUSE | FAILED | KEEPALIVE | ALIVE

definition AcceptableDisplayAddress ::
    "ext \<Rightarrow> string \<Rightarrow> database \<Rightarrow> ARRAY8 \<Rightarrow> CARD16 \<Rightarrow> xdmOpCode \<Rightarrow> c_error + bool" where
  "AcceptableDisplayAddress E accessFile db clientAddress connectionType type =
     (if accessFile = [] then Inr True
      else if type = INDIRECT_QUERY then Inr True
      else mapE (\<lambda>r. case r of
             None \<Rightarrow> False
           | Some d \<Rightarrow> \<not> de_notAllowed d \<and> (if type = BROADCAST_QUERY then \<not> de_notBroadcast d else True))
           (direct_entry E clientAddress connectionType db))"

text \<open>The result is the return value, the closure and the list of choices, from which the
  lookup removes what has expired.\<close>

definition ForEachMatchingIndirectHost ::
    "ext \<Rightarrow> int \<Rightarrow> int \<Rightarrow> database \<Rightarrow> ARRAY8 \<Rightarrow> CARD16 \<Rightarrow> 's chooser_func \<Rightarrow> 's \<Rightarrow> choices \<Rightarrow>
     c_error + (bool \<times> 's \<times> choices)" where
  "ForEachMatchingIndirectHost E now choiceTimeout db a ct f s cs =
     bindE (indirect_entry E a ct db) (\<lambda>r.
       case r of
         None \<Rightarrow> Inr (False, s, cs)
       | Some d \<Rightarrow>
           if de_notAllowed d then Inr (False, s, cs)
           else if de_chooser d then
             bindE (IndirectChoice E now choiceTimeout a ct cs) (\<lambda>(choice, cs').
               case choice of
                 None \<Rightarrow> Inr (True, s, cs')
               | Some c \<Rightarrow>
                   if isLocalAddress E c ct then Inr (True, s, cs') else Inr (False, f ct c s, cs'))
           else mapE (\<lambda>(l, s'). (l, s', cs)) (scanHostlist E db (de_hosts d) ct (Some f) s 0 False))"

definition UseChooser ::
    "ext \<Rightarrow> int \<Rightarrow> int \<Rightarrow> database \<Rightarrow> ARRAY8 \<Rightarrow> CARD16 \<Rightarrow> choices \<Rightarrow> c_error + (bool \<times> choices)" where
  "UseChooser E now choiceTimeout db a ct cs =
     bindE (indirect_entry E a ct db) (\<lambda>r.
       case r of
         None \<Rightarrow> Inr (False, cs)
       | Some d \<Rightarrow>
           if de_notAllowed d then Inr (False, cs)
           else if de_chooser d then
             mapE (\<lambda>(choice, cs'). (choice = None, cs')) (IndirectChoice E now choiceTimeout a ct cs)
           else Inr (False, cs))"

definition ForEachChooserHost ::
    "ext \<Rightarrow> database \<Rightarrow> ARRAY8 \<Rightarrow> CARD16 \<Rightarrow> 's chooser_func \<Rightarrow> 's \<Rightarrow> local_address \<Rightarrow>
     c_error + ('s \<times> local_address)" where
  "ForEachChooserHost E db a ct f s la =
     bindE (indirect_entry E a ct db) (\<lambda>r.
       case r of
         None \<Rightarrow> Inr (s, la)
       | Some d \<Rightarrow>
           if de_notAllowed d \<or> \<not> de_chooser d then Inr (s, la)
           else mapE (\<lambda>(haveLocalhost, s').
                  if haveLocalhost
                  then (let (addr, la') = getLocalAddress E la in (f ct addr s', la'))
                  else (s', la))
                (scanHostlist E db (de_hosts d) ct (Some f) s 0 True))"

text \<open>The member \<open>hostAddress\<close> of a host's union, which only one of its constructors has; the
  others that reach a listen entry were cleared when they were allocated, except an alias,
  whose union holds a string pointer.\<close>

definition host_address :: "HostEntry \<Rightarrow> c_error + ARRAY8" where
  "host_address h =
     (case he_type h of
        HOST_ADDRESS a \<Rightarrow> Inr a
      | HOST_ALIAS _ \<Rightarrow> Inl WrongUnionField
      | _ \<Rightarrow> Inr [])"

primrec for_hosts :: "(ARRAY8 \<Rightarrow> 's \<Rightarrow> 's) \<Rightarrow> HostEntry list \<Rightarrow> 's \<Rightarrow> c_error + 's" where
  "for_hosts f [] s = Inr s"
| "for_hosts f (h # hs) s = bindE (host_address h) (\<lambda>a. for_hosts f hs (f a s))"

definition listen_entry ::
    "(ARRAY8 option \<Rightarrow> 's \<Rightarrow> 's) \<Rightarrow> (ARRAY8 \<Rightarrow> 's \<Rightarrow> 's) \<Rightarrow> DisplayEntry \<Rightarrow> 's \<Rightarrow> c_error + 's" where
  "listen_entry listen mcast d s =
     (case de_hosts d of
        [] \<Rightarrow> Inr s
      | h # hs \<Rightarrow> bindE (host_address h) (\<lambda>a. for_hosts mcast hs (listen (Some a) s)))"

primrec listen_entries ::
    "(ARRAY8 option \<Rightarrow> 's \<Rightarrow> 's) \<Rightarrow> (ARRAY8 \<Rightarrow> 's \<Rightarrow> 's) \<Rightarrow> database \<Rightarrow> 's \<Rightarrow> c_error + (bool \<times> 's)" where
  "listen_entries listen mcast [] s = Inr (False, s)"
| "listen_entries listen mcast (d # db) s =
     (if de_type d = DISPLAY_LISTEN
      then bindE (listen_entry listen mcast d s)
             (\<lambda>s'. mapE (\<lambda>(_, s''). (True, s'')) (listen_entries listen mcast db s'))
      else listen_entries listen mcast db s)"

text \<open>\<open>defaultMcast\<close> is \<open>defaultMcastAddress\<close> once it has been set up, None when the
  conversion or the allocation failed.\<close>

definition ForEachListenAddr ::
    "ARRAY8 option \<Rightarrow> (ARRAY8 option \<Rightarrow> 's \<Rightarrow> 's) \<Rightarrow> (ARRAY8 \<Rightarrow> 's \<Rightarrow> 's) \<Rightarrow> database \<Rightarrow> 's \<Rightarrow>
     c_error + 's" where
  "ForEachListenAddr defaultMcast listen mcast db s =
     mapE (\<lambda>(found, s').
       if found then s'
       else (case defaultMcast of None \<Rightarrow> listen None s' | Some m \<Rightarrow> mcast m (listen None s')))
     (listen_entries listen mcast db s)"

section \<open>Patterns as shell patterns\<close>

text \<open>The specification: an asterisk matches any string, a question mark any character, a
  backslash quotes, letters match in either case.\<close>

fun glob :: "string \<Rightarrow> string \<Rightarrow> bool" where
  "glob [] s \<longleftrightarrow> s = []"
| "glob (p # ps) s \<longleftrightarrow>
     (if p = CHR ''*'' then list_ex (\<lambda>k. glob ps (drop k s)) [0..<Suc (length s)]
      else if p = CHR ''?'' then s \<noteq> [] \<and> glob ps (tl s)
      else if p = CHR 0x5C then
        (case ps of [] \<Rightarrow> False
         | q # qs \<Rightarrow> s \<noteq> [] \<and> fold_case q = fold_case (hd s) \<and> glob qs (tl s))
      else s \<noteq> [] \<and> fold_case p = fold_case (hd s) \<and> glob ps (tl s))"

text \<open>Patterns the code reads as shell patterns: no backslash at the end, and no two asterisks
  there.\<close>

fun wf_pattern :: "string \<Rightarrow> bool" where
  "wf_pattern [] \<longleftrightarrow> True"
| "wf_pattern (p # ps) \<longleftrightarrow>
     (if p = CHR ''*'' then (ps = [] \<or> (\<exists>c \<in> set ps. c \<noteq> CHR ''*'')) \<and> wf_pattern ps
      else if p = CHR 0x5C then (case ps of [] \<Rightarrow> False | q # qs \<Rightarrow> wf_pattern qs)
      else wf_pattern ps)"

lemma glob_star: "glob (CHR ''*'' # ps) s \<longleftrightarrow> (\<exists>k \<le> length s. glob ps (drop k s))"
  by (auto simp: list_ex_iff less_Suc_eq_le simp del: upt_Suc)

lemma glob_Nil: "glob ps [] \<Longrightarrow> \<forall>c \<in> set ps. c = CHR ''*''"
proof (induction ps)
  case (Cons p ps)
  have "p = CHR ''*''"
  proof (rule ccontr)
    assume "p \<noteq> CHR ''*''"
    with Cons.prems show False by (cases ps) (simp_all split: if_splits)
  qed
  with Cons.prems have "glob ps []" by (simp add: glob_star del: glob.simps(2))
  with Cons.IH \<open>p = CHR ''*''\<close> show ?case by simp
qed simp

lemma ex_le_Suc: "(\<exists>k \<le> Suc n. P k) \<longleftrightarrow> P 0 \<or> (\<exists>k \<le> n. P (Suc k))"
  by (metis Suc_le_mono le0 not0_implies_Suc)

lemma pm_star_iff:
  "(\<And>k. k \<le> length s \<Longrightarrow> pm (drop k s) ps = Inr (glob ps (drop k s))) \<Longrightarrow> \<not> glob ps [] \<Longrightarrow>
    pm_star s ps = Inr (\<exists>k \<le> length s. glob ps (drop k s))"
proof (induction s)
  case Nil
  then show ?case by simp
next
  case (Cons c cs)
  have "pm (c # cs) ps = Inr (glob ps (c # cs))" using Cons.prems(1) [of 0] by simp
  moreover have "pm_star cs ps = Inr (\<exists>k \<le> length cs. glob ps (drop k cs))"
    by (rule Cons.IH) (use Cons.prems(1) [of "Suc _"] Cons.prems(2) in auto)
  moreover have "(\<exists>k \<le> length (c # cs). glob ps (drop k (c # cs))) \<longleftrightarrow>
      glob ps (c # cs) \<or> (\<exists>k \<le> length cs. glob ps (drop k cs))"
    by (simp only: length_Cons ex_le_Suc drop_Suc_Cons drop0)
  ultimately show ?case by simp
qed

lemma pm_glob: "wf_pattern ps \<Longrightarrow> pm s ps = Inr (glob ps s)"
proof (induction "length ps" arbitrary: ps s rule: less_induct)
  case less
  show ?case
  proof (cases ps)
    case Nil
    then show ?thesis by simp
  next
    case (Cons p qs)
    show ?thesis
    proof (cases "p = CHR ''*'' \<and> qs \<noteq> []")
      case True
      with less.prems Cons have wf: "wf_pattern qs" and star: "\<exists>c \<in> set qs. c \<noteq> CHR ''*''" by auto
      have "pm_star s qs = Inr (\<exists>k \<le> length s. glob qs (drop k s))"
      proof (rule pm_star_iff)
        show "pm (drop k s) qs = Inr (glob qs (drop k s))" for k
          using less.hyps [of qs] Cons wf by simp
        show "\<not> glob qs []" using glob_Nil star by blast
      qed
      with Cons True show ?thesis by (simp add: glob_star del: glob.simps(2))
    next
      case False
      consider "p = CHR ''*''" "qs = []" | "p = CHR ''?''" | "p = CHR 0x5C"
        | "p \<noteq> CHR ''*''" "p \<noteq> CHR ''?''" "p \<noteq> CHR 0x5C"
        using False by blast
      then show ?thesis
      proof cases
        case 1
        have "glob [] (drop (length s) s)" by simp
        then have "glob [CHR ''*''] s" unfolding glob_star by blast
        then show ?thesis unfolding Cons 1 by simp
      next
        case 2
        have "pm cs qs = Inr (glob qs cs)" for cs
          by (rule less.hyps) (use less.prems Cons 2 in auto)
        then show ?thesis unfolding Cons 2 by (cases s) simp_all
      next
        case 3
        with less.prems Cons obtain r rs where qs: "qs = r # rs" "wf_pattern rs" by (cases qs) auto
        have "pm cs rs = Inr (glob rs cs)" for cs
          by (rule less.hyps) (use Cons qs in auto)
        then show ?thesis unfolding Cons 3 qs by (cases s) simp_all
      next
        case 4
        have "pm cs qs = Inr (glob qs cs)" for cs
          by (rule less.hyps) (use less.prems Cons 4 in auto)
        with 4 show ?thesis unfolding Cons by (cases s) simp_all
      qed
    qed
  qed
qed

text \<open>The pattern's last character is an unquoted backslash.\<close>

fun ends_in_escape :: "string \<Rightarrow> bool" where
  "ends_in_escape [] \<longleftrightarrow> False"
| "ends_in_escape (p # ps) \<longleftrightarrow>
     (if p = CHR 0x5C then (case ps of [] \<Rightarrow> True | q # qs \<Rightarrow> ends_in_escape qs)
      else ends_in_escape ps)"

lemma pm_star_error: "pm_star s ps = Inl e \<Longrightarrow> \<exists>t. pm t ps = Inl e"
proof (induction s)
  case (Cons c cs)
  then show ?case by (cases "pm (c # cs) ps") (auto split: if_splits)
qed simp

lemma pm_error: "pm s p = Inl e \<Longrightarrow> ends_in_escape p \<and> e = OutOfBounds"
proof (induction "length p" arbitrary: p s rule: less_induct)
  case less
  show ?case
  proof (cases p)
    case Nil
    with less.prems show ?thesis by simp
  next
    case (Cons c qs)
    consider "c = CHR ''*''" | "c = CHR ''?''" | "c = CHR 0x5C" "qs = []" | r rs where "c = CHR 0x5C" "qs = r # rs"
      | "c \<noteq> CHR ''*''" "c \<noteq> CHR ''?''" "c \<noteq> CHR 0x5C"
      by (cases qs) auto
    then show ?thesis
    proof cases
      case 1
      with less.prems Cons have "pm_star s qs = Inl e" by (simp split: if_splits)
      with pm_star_error less.hyps [of qs] Cons 1 show ?thesis by fastforce
    next
      case 2
      with less.prems Cons obtain t where "pm t qs = Inl e" by (auto split: list.splits)
      with less.hyps [of qs] Cons 2 show ?thesis by simp
    next
      case 3
      with less.prems Cons show ?thesis by (simp split: if_splits)
    next
      case 4
      with less.prems Cons obtain t where "pm t rs = Inl e" by (auto split: list.splits if_splits)
      with less.hyps [of rs] Cons 4 show ?thesis by simp
    next
      case 5
      with less.prems Cons obtain t where "pm t qs = Inl e" by (auto split: list.splits if_splits)
      with less.hyps [of qs] Cons 5 show ?thesis by simp
    qed
  qed
qed

section \<open>Facts about the walks\<close>

text \<open>When an entry applies to a client whose address and name are given.\<close>

definition names_client :: "ARRAY8 \<Rightarrow> CARD16 \<Rightarrow> string \<Rightarrow> DisplayEntry \<Rightarrow> bool" where
  "names_client a ct name d \<longleftrightarrow>
     (case de_type d of
        DISPLAY_PATTERN p \<Rightarrow> glob p name
      | DISPLAY_ADDRESS b c \<Rightarrow> c = ct \<and> b = a
      | _ \<Rightarrow> False)"

definition patterns_ok :: "database \<Rightarrow> bool" where
  "patterns_ok db \<longleftrightarrow> (\<forall>d \<in> set db. \<forall>p. de_type d = DISPLAY_PATTERN p \<longrightarrow> wf_pattern p)"

definition name_or_empty :: "string option \<Rightarrow> string" where
  "name_or_empty n = (case n of None \<Rightarrow> [] | Some t \<Rightarrow> t)"

lemma entry_match_names:
  assumes "ext_ok E" "NetworkAddressToHostname E ct a = Inr n"
    and "\<forall>p. de_type d = DISPLAY_PATTERN p \<longrightarrow> wf_pattern p"
  shows "entry_match E a ct d = Inr (names_client a ct (name_or_empty n) d)"
  using assms
  by (cases "de_type d")
    (auto simp: entry_match_def names_client_def patternMatch_def pm_glob name_or_empty_def ext_ok_equal)

lemma direct_entry_names:
  assumes "ext_ok E" "NetworkAddressToHostname E ct a = Inr n" "patterns_ok db"
  shows "direct_entry E a ct db =
    Inr (find_first (\<lambda>d. de_hosts d = [] \<and> names_client a ct (name_or_empty n) d) db)"
  using assms(3)
proof (induction db)
  case (Cons d db)
  then have "patterns_ok db" and "\<forall>p. de_type d = DISPLAY_PATTERN p \<longrightarrow> wf_pattern p"
    by (auto simp: patterns_ok_def)
  with Cons.IH entry_match_names [OF assms(1,2)] show ?case by auto
qed simp

lemma indirect_entry_names:
  assumes "ext_ok E" "NetworkAddressToHostname E ct a = Inr n" "patterns_ok db"
  shows "indirect_entry E a ct db =
    Inr (find_first (\<lambda>d. de_hosts d \<noteq> [] \<and> names_client a ct (name_or_empty n) d) db)"
  using assms(3)
proof (induction db)
  case (Cons d db)
  then have "patterns_ok db" and "\<forall>p. de_type d = DISPLAY_PATTERN p \<longrightarrow> wf_pattern p"
    by (auto simp: patterns_ok_def)
  with Cons.IH entry_match_names [OF assms(1,2)] show ?case by auto
qed simp

lemma direct_entry_filter:
  "direct_entry E a ct (filter (\<lambda>d. de_hosts d = []) db) = direct_entry E a ct db"
  by (induction db) (auto cong: if_cong)

text \<open>Whether the local host turns up does not depend on the callback.\<close>

lemma or_seq_flag:
  assumes "mapE fst m = mapE fst m'" and "\<And>s t. mapE fst (k s) = mapE fst (k' t)"
  shows "mapE fst (or_seq m k) = mapE fst (or_seq m' k')"
proof (cases m; cases m')
  fix x y assume xy: "m = Inr x" "m' = Inr y"
  have "fst x = fst y" using assms(1) xy by simp
  moreover have "mapE fst (k (snd x)) = mapE fst (k' (snd y))" by (rule assms(2))
  ultimately show ?thesis using xy
    by (cases "k (snd x)"; cases "k' (snd y)") (auto simp: or_seq_def split: prod.splits)
qed (use assms(1) in \<open>auto simp: or_seq_def\<close>)

lemma scan_hosts_flag:
  assumes "\<And>n s t. mapE fst (al n s) = mapE fst (al' n t)"
  shows "mapE fst (scan_hosts E al ct f b hs s) = mapE fst (scan_hosts E al' ct g b hs t)"
proof (induction hs arbitrary: s t)
  case (Cons h hs)
  have "mapE fst (scan_host E al ct f b h s) = mapE fst (scan_host E al' ct g b h t)"
    by (cases "he_type h") (simp_all add: scan_host_def assms)
  then show ?case using Cons.IH by (simp add: or_seq_flag)
qed simp

lemma scan_aliases_flag:
  assumes "\<And>hs s t. mapE fst (sc hs s) = mapE fst (sc' hs t)"
  shows "mapE fst (scan_aliases sc n db s) = mapE fst (scan_aliases sc' n db t)"
proof (induction db arbitrary: s t)
  case (Cons d db)
  have "mapE fst (case de_type d of
          DISPLAY_ALIAS m \<Rightarrow>
            bindE (patternMatch (Some n) m) (\<lambda>b. if b then sc (de_hosts d) s else Inr (False, s))
        | _ \<Rightarrow> Inr (False, s)) =
      mapE fst (case de_type d of
          DISPLAY_ALIAS m \<Rightarrow>
            bindE (patternMatch (Some n) m) (\<lambda>b. if b then sc' (de_hosts d) t else Inr (False, t))
        | _ \<Rightarrow> Inr (False, t))"
  proof (cases "de_type d")
    case (DISPLAY_ALIAS m)
    then show ?thesis by (cases "patternMatch (Some n) m") (simp_all add: assms)
  qed simp_all
  then show ?case using Cons.IH by (simp add: or_seq_flag)
qed simp

lemma indirectAlias_flag:
  "mapE fst (indirectAlias E db ct f b left n s) = mapE fst (indirectAlias E db ct g b left n t)"
proof (induction left arbitrary: n s t)
  case (Suc left)
  have "mapE fst (scan_hosts E (indirectAlias E db ct f b left) ct f b hs s) =
      mapE fst (scan_hosts E (indirectAlias E db ct g b left) ct g b hs t)" for hs s t
    by (rule scan_hosts_flag) (rule Suc.IH)
  then show ?case by (simp add: scan_aliases_flag)
qed simp

section \<open>Properties\<close>

text \<open>C24: on patterns that do not end in a backslash or in two asterisks, \<open>patternMatch\<close>
  always returns and decides the shell pattern, ignoring case.\<close>

theorem patternMatch_glob:
  assumes "wf_pattern p"
  shows "patternMatch s p = Inr (glob p (name_or_empty s))"
  using assms by (simp add: patternMatch_def pm_glob name_or_empty_def)

lemma patternMatch_glob_witness:
  "patternMatch (Some ''Host.Bad.ORG'') ''h?st.*.org'' = Inr (glob ''h?st.*.org'' ''Host.Bad.ORG'')"
proof -
  have "wf_pattern ''h?st.*.org''" by code_simp
  from patternMatch_glob [OF this, of "Some ''Host.Bad.ORG''"] show ?thesis
    by (simp add: name_or_empty_def)
qed

text \<open>The only way \<open>patternMatch\<close> reads outside its strings is a pattern that ends in an
  unquoted backslash.\<close>

theorem patternMatch_bounds:
  assumes "patternMatch s p = Inl e"
  shows "e = OutOfBounds \<and> ends_in_escape p"
  using assms pm_error by (auto simp: patternMatch_def)

lemma patternMatch_bounds_witness:
  "patternMatch (Some ''a'') (''a'' @ [CHR 0x5C]) = Inl OutOfBounds \<and> ends_in_escape (''a'' @ [CHR 0x5C])"
proof -
  have r: "patternMatch (Some ''a'') (''a'' @ [CHR 0x5C]) = Inl OutOfBounds"
    by (simp add: patternMatch_def)
  with patternMatch_bounds [OF r] show ?thesis by simp
qed

text \<open>C23: with an access file, a direct or broadcast query is granted exactly when the first
  entry without hosts that names the client permits it.\<close>

theorem AcceptableDisplayAddress_spec:
  assumes "ext_ok E" "patterns_ok db" "NetworkAddressToHostname E ct a = Inr n"
    and "accessFile \<noteq> []" "type \<noteq> INDIRECT_QUERY"
  shows "AcceptableDisplayAddress E accessFile db a ct type =
    Inr (case find_first (\<lambda>d. de_hosts d = [] \<and> names_client a ct (name_or_empty n) d) db of
           None \<Rightarrow> False
         | Some d \<Rightarrow> \<not> de_notAllowed d \<and> (type = BROADCAST_QUERY \<longrightarrow> \<not> de_notBroadcast d))"
  using assms
  by (auto simp: AcceptableDisplayAddress_def direct_entry_names split: option.split)

definition sample_db :: database where
  "sample_db =
     [\<lparr>de_type = DISPLAY_PATTERN ''*.bad'', de_notAllowed = True, de_notBroadcast = False,
       de_chooser = False, de_hosts = []\<rparr>,
      \<lparr>de_type = DISPLAY_ADDRESS [10, 0, 0, 7] 0, de_notAllowed = False, de_notBroadcast = False,
       de_chooser = True, de_hosts = [\<lparr>he_type = HOST_ADDRESS [10, 0, 0, 8], he_hopCount = 1\<rparr>]\<rparr>,
      \<lparr>de_type = DISPLAY_PATTERN ''*'', de_notAllowed = False, de_notBroadcast = True,
       de_chooser = False, de_hosts = []\<rparr>]"

lemma patterns_ok_sample: "patterns_ok sample_db"
  by (simp add: patterns_ok_def sample_db_def)

lemma sample_client_name: "NetworkAddressToHostname sample_ext 0 [10, 0, 0, 7] = Inr (Some ''10.0.0.9'')"
  by (simp add: NetworkAddressToHostname_def isLocalAddress_def has_interface_def sample_ext_def
      std_ext_def inet_ntop_def)

lemma AcceptableDisplayAddress_spec_witness:
  "AcceptableDisplayAddress sample_ext ''Xaccess'' sample_db [10, 0, 0, 7] 0 QUERY = Inr True \<and>
   AcceptableDisplayAddress sample_ext ''Xaccess'' sample_db [10, 0, 0, 7] 0 BROADCAST_QUERY = Inr False"
proof -
  have e: "find_first (\<lambda>d. de_hosts d = [] \<and>
      names_client [10, 0, 0, 7] 0 (name_or_empty (Some ''10.0.0.9'')) d) sample_db = Some (sample_db ! 2)"
    by code_simp
  show ?thesis
    using AcceptableDisplayAddress_spec [OF ext_ok_sample patterns_ok_sample sample_client_name,
        of "''Xaccess''" QUERY]
      AcceptableDisplayAddress_spec [OF ext_ok_sample patterns_ok_sample sample_client_name,
        of "''Xaccess''" BROADCAST_QUERY]
    unfolding e by (simp add: sample_db_def)
qed

text \<open>entries with a host list never decide a direct query, and a client that may be
  managed on a broadcast may be managed on a direct query too.\<close>

theorem AcceptableDisplayAddress_direct:
  "AcceptableDisplayAddress E accessFile (filter (\<lambda>d. de_hosts d = []) db) a ct type =
     AcceptableDisplayAddress E accessFile db a ct type \<and>
   (AcceptableDisplayAddress E accessFile db a ct BROADCAST_QUERY = Inr True \<longrightarrow>
     AcceptableDisplayAddress E accessFile db a ct QUERY = Inr True)"
  by (auto simp: AcceptableDisplayAddress_def direct_entry_filter mapE_Inr_iff split: option.splits)

lemma AcceptableDisplayAddress_direct_witness:
  "AcceptableDisplayAddress std_ext ''Xaccess''
     [\<lparr>de_type = DISPLAY_PATTERN ''*'', de_notAllowed = False, de_notBroadcast = False,
       de_chooser = False, de_hosts = []\<rparr>] [10, 0, 0, 7] 0 QUERY = Inr True"
proof -
  have "AcceptableDisplayAddress std_ext ''Xaccess''
     [\<lparr>de_type = DISPLAY_PATTERN ''*'', de_notAllowed = False, de_notBroadcast = False,
       de_chooser = False, de_hosts = []\<rparr>] [10, 0, 0, 7] 0 BROADCAST_QUERY = Inr True"
    by (simp add: AcceptableDisplayAddress_def entry_match_def patternMatch_def
        NetworkAddressToHostname_def isLocalAddress_def has_interface_def std_ext_def inet_ntop_def)
  with AcceptableDisplayAddress_direct show ?thesis by blast
qed

text \<open>The two questions asked about an indirect query agree: when the chooser is to be
  run, no host is forwarded the query and the local host counts as found, so that the query is
  answered here.\<close>

theorem UseChooser_answers_here:
  assumes "UseChooser E now t db a ct cs = Inr (True, cs')"
  shows "ForEachMatchingIndirectHost E now t db a ct f s cs = Inr (True, s, cs')"
  using assms
  by (auto simp: UseChooser_def ForEachMatchingIndirectHost_def bindE_Inr_iff mapE_Inr_iff
      split: option.splits if_splits)

lemma sample_indirect_entry: "indirect_entry sample_ext [10, 0, 0, 7] 0 sample_db = Inr (Some (sample_db ! 1))"
  by (simp add: sample_db_def entry_match_def patternMatch_def sample_client_name) (simp add: sample_ext_def std_ext_def)

lemma UseChooser_answers_here_witness:
  "ForEachMatchingIndirectHost sample_ext 200 15 sample_db [10, 0, 0, 7] 0 (\<lambda>_ a s. a # s) [] sample_choices =
    Inr (True, [], [])"
proof -
  have "UseChooser sample_ext 200 15 sample_db [10, 0, 0, 7] 0 sample_choices = Inr (True, [])"
    unfolding UseChooser_def sample_indirect_entry
    by (simp add: sample_db_def sample_choices_def)
  then show ?thesis by (rule UseChooser_answers_here)
qed

text \<open>Whether a host list mentions this host, directly or through aliases, does not depend
  on what the callback does.\<close>

theorem scanHostlist_callback_independent:
  "mapE fst (scanHostlist E db hs ct f s depth b) = mapE fst (scanHostlist E db hs ct g s' depth b)"
  unfolding scanHostlist_def by (rule scan_hosts_flag) (rule indirectAlias_flag)

text \<open>C40: a line whose display does not resolve still lets somebody in: its host, meant as the
  place to forward queries to, becomes a display that may be managed.\<close>

theorem unknown_display_admits_host:
  assumes "memory_ok E" "ext_ok E" "plain_word w" "plain_word h"
    and "display_of_word E 0 w = Unknown"
    and "display_of_word E 0 h = Entry d" "de_type d = DISPLAY_ADDRESS a ct"
    and "\<not> de_notAllowed d" "accessFile \<noteq> []"
  shows "AcceptableDisplayAddress E accessFile
    (fst (ReadAccessDatabase E (False, access_text [[w, h]]))) a ct QUERY = Inr True"
proof -
  have "de_hosts d = []"
    using assms(6) by (auto simp: display_of_word_def Let_def split: if_splits option.splits prod.splits)
  moreover have "fst (ReadAccessDatabase E (False, access_text [[w, h]])) = [d]"
    using ReadAccessDatabase_text [OF assms(1), of "[[w, h]]"] assms(3-6)
    by (simp add: host_words_def)
  ultimately show ?thesis
    using assms by (simp add: AcceptableDisplayAddress_def entry_match_def ext_ok_equal)
qed

lemma unknown_display_admits_host_witness:
  "AcceptableDisplayAddress sample_ext ''Xaccess''
    (fst (ReadAccessDatabase sample_ext (False, access_text [[''typo'', ''beta'']]))) [10, 0, 0, 8] 0 QUERY = Inr True"
proof (rule unknown_display_admits_host [OF memory_ok_sample ext_ok_sample])
  show "plain_word ''typo''" "plain_word ''beta''" by code_simp+
  show "display_of_word sample_ext 0 ''typo'' = Unknown" by code_simp
  show "display_of_word sample_ext 0 ''beta'' =
      Entry \<lparr>de_type = DISPLAY_ADDRESS [10, 0, 0, 8] 0, de_notAllowed = False,
             de_notBroadcast = False, de_chooser = False, de_hosts = []\<rparr>" by code_simp
qed simp_all

text \<open>An alias that names itself twice.\<close>

definition cyclic_hosts :: "ARRAY8 \<Rightarrow> HostEntry list" where
  "cyclic_hosts a =
     [\<lparr>he_type = HOST_ALIAS ''%a'', he_hopCount = 1\<rparr>, \<lparr>he_type = HOST_ALIAS ''%a'', he_hopCount = 1\<rparr>,
      \<lparr>he_type = HOST_ADDRESS a, he_hopCount = 1\<rparr>]"

definition cyclic_db :: "ARRAY8 \<Rightarrow> database" where
  "cyclic_db a =
     [\<lparr>de_type = DISPLAY_ALIAS ''%a'', de_notAllowed = False, de_notBroadcast = False,
       de_chooser = False, de_hosts = cyclic_hosts a\<rparr>]"

lemma cyclic_alias_calls:
  assumes "\<not> isLocalAddress E a ct"
  shows "indirectAlias E (cyclic_db a) ct (Some (\<lambda>_ _ n :: nat. n + 1)) b left ''%a'' n =
    Inr (False, n + 2 ^ left - 1)"
proof (induction left arbitrary: n)
  case (Suc left)
  have pos: "0 < (2::nat) ^ left" by simp
  from assms Suc show ?case
    by (simp add: cyclic_db_def cyclic_hosts_def or_seq_def scan_host_def patternMatch_def call_back_def)
qed simp

text \<open>The depth limit makes every alias lookup end, but a cycle is walked once for every
  path of that depth: an alias that names itself twice has its other host reported
  2 ^ 32 - 1 times.\<close>

theorem alias_cycle_cost:
  assumes "\<not> isLocalAddress E a ct"
  shows "scanHostlist E (cyclic_db a) [\<lparr>he_type = HOST_ALIAS ''%a'', he_hopCount = 1\<rparr>] ct
    (Some (\<lambda>_ _ n :: nat. n + 1)) 0 0 b = Inr (False, 2 ^ 32 - 1)"
  using cyclic_alias_calls [OF assms, of b 32 0]
  by (simp add: scanHostlist_def or_seq_def scan_host_def)

lemma alias_cycle_cost_witness:
  "scanHostlist std_ext (cyclic_db [10, 0, 0, 7]) [\<lparr>he_type = HOST_ALIAS ''%a'', he_hopCount = 1\<rparr>] 0
    (Some (\<lambda>_ _ n :: nat. n + 1)) 0 0 False = Inr (False, 2 ^ 32 - 1)"
  by (rule alias_cycle_cost) (simp add: isLocalAddress_def has_interface_def std_ext_def)

text \<open>nothing stops a \<open>LISTEN\<close> line from naming an alias, and the listening code then
  takes the alias's string pointer for an address.\<close>

theorem listen_on_alias:
  assumes "memory_ok E" "plain_word w" "first_is CHR ''%'' w"
  shows "ForEachListenAddr m listen mcast
    (fst (ReadAccessDatabase E (False, access_text [[''LISTEN'', w]]))) s = Inl WrongUnionField"
proof -
  have "plain_word ''LISTEN''" by code_simp
  moreover have "display_of_word E 0 ''LISTEN'' =
      Entry \<lparr>de_type = DISPLAY_LISTEN, de_notAllowed = False, de_notBroadcast = False,
             de_chooser = False, de_hosts = []\<rparr>"
    using assms(1) by (simp add: display_of_word_def memory_ok_def first_is_def)
  moreover have "host_of_word E 0 w = Entry \<lparr>he_type = HOST_ALIAS w, he_hopCount = 1\<rparr>"
    using assms(1,3) by (simp add: host_of_word_def memory_ok_def)
  ultimately show ?thesis
    using ReadAccessDatabase_text [OF assms(1), of "[[''LISTEN'', w]]"] assms(2)
    by (simp add: ForEachListenAddr_def host_words_def add_host_def listen_entry_def host_address_def)
qed

lemma listen_on_alias_witness:
  "ForEachListenAddr None (\<lambda>a s. a # s) (\<lambda>a s. Some a # s)
    (fst (ReadAccessDatabase std_ext (False, access_text [[''LISTEN'', ''%all'']]))) [] = Inl WrongUnionField"
proof (rule listen_on_alias [OF memory_ok_std])
  show "plain_word ''%all''" by code_simp
  show "first_is CHR ''%'' ''%all''" by code_simp
qed

end
