(* ===== verification/Policy.thy ===== *)
theory Policy
  imports Access Auth
begin

text \<open>
  The decisions of \<open>xdm/policy.c\<close> about XDMCP requests: which authentication and which
  authorization to use, whether to serve a client, and on which of the connections a display
  offers.
\<close>

section \<open>Authentication and authorization\<close>

definition xdm_authentication :: ARRAY8 where
  "xdm_authentication = bytes_of ''XDM-AUTHENTICATION-1''"

text \<open>The table \<open>auth\<close>: the pairs that go together.\<close>

definition auth_table :: "(ARRAY8 \<times> ARRAY8) list" where
  "auth_table = [(xdm_authentication, xdm_name), ([], [])]"

definition ChooseAuthentication :: "ext \<Rightarrow> ARRAYofARRAY8 \<Rightarrow> ARRAY8" where
  "ChooseAuthentication E authenticationNames =
     (case find_first (\<lambda>n. find_first (\<lambda>(a, _). x_array8_equal E n a) auth_table \<noteq> None) authenticationNames of
        Some n \<Rightarrow> n | None \<Rightarrow> [])"

text \<open>\<open>strncmp\<close> compares up to 20 characters of a name that need not have so many: a name
  that is a proper beginning of the protocol's is read past its end.\<close>

definition is_xdm_authentication :: "ARRAY8 \<Rightarrow> c_error + bool" where
  "is_xdm_authentication name =
     (if length name < 20 \<and> name = take (length name) xdm_authentication then Inl OutOfBounds
      else Inr (take 20 name = xdm_authentication))"

definition CheckAuthentication ::
    "ext \<Rightarrow> crypt \<Rightarrow> string option \<Rightarrow> ARRAY8 \<Rightarrow> ARRAY8 \<Rightarrow> ARRAY8 \<Rightarrow> protoDisplay \<Rightarrow>
     c_error + (bool \<times> protoDisplay \<times> ARRAY8)" where
  "CheckAuthentication E C keys displayID name data p =
     (if name = [] then Inr (True, p, data)
      else bindE (is_xdm_authentication name) (\<lambda>x.
             Inr (if x then XdmCheckAuthentication E C keys displayID data p else (True, p, data))))"

text \<open>The first index at which a test holds.\<close>

primrec index_of :: "('a \<Rightarrow> bool) \<Rightarrow> 'a list \<Rightarrow> nat option" where
  "index_of P [] = None"
| "index_of P (x # xs) = (if P x then Some 0 else map_option Suc (index_of P xs))"

definition SelectAuthorizationTypeIndex :: "ext \<Rightarrow> ARRAY8 \<Rightarrow> ARRAYofARRAY8 \<Rightarrow> int" where
  "SelectAuthorizationTypeIndex E authenticationName authorizationNames =
     (let paired = Option.bind (find_first (\<lambda>(a, _). x_array8_equal E authenticationName a) auth_table)
                     (\<lambda>(_, z). index_of (\<lambda>n. x_array8_equal E n z) authorizationNames)
      in case paired of
           Some i \<Rightarrow> int i
         | None \<Rightarrow> (case index_of ValidAuthorization authorizationNames of Some i \<Rightarrow> int i | None \<Rightarrow> -1))"

section \<open>Serving a client\<close>

text \<open>What the command named by the resource \<open>willing\<close> prints, None when it cannot be run.
  The status is the first line without its last character.\<close>

definition willing_status :: "string \<Rightarrow> (string \<Rightarrow> string option) \<Rightarrow> string" where
  "willing_status willing run =
     (if willing = [] then ''Willing to manage''
      else
        (let failed = snprintf_keep 256 (''Willing, but '' @ willing @ '' failed'')
         in case run willing of
              None \<Rightarrow> failed
            | Some output \<Rightarrow>
                (let s = cstr (fst (fgets1 256 output)) in if s = [] then failed else butlast s)))"

definition Willing ::
    "ext \<Rightarrow> string \<Rightarrow> database \<Rightarrow> string \<Rightarrow> (string \<Rightarrow> string option) \<Rightarrow> ARRAY8 \<Rightarrow> CARD16 \<Rightarrow>
     xdmOpCode \<Rightarrow> c_error + (bool \<times> ARRAY8)" where
  "Willing E accessFile db willing run addr connectionType type =
     mapE (\<lambda>ret.
       let statusBuf = (if \<not> ret then ''Display not authorized to connect'' else willing_status willing run)
       in (ret, if x_calloc E 0 then bytes_of statusBuf else []))
     (AcceptableDisplayAddress E accessFile db addr connectionType type)"

definition noAccessACL :: ARRAY8 where
  "noAccessACL = bytes_of ''Display not authorized to connect''"

definition Accept :: "ext \<Rightarrow> string \<Rightarrow> database \<Rightarrow> ARRAY8 \<Rightarrow> CARD16 \<Rightarrow> c_error + ARRAY8 option" where
  "Accept E accessFile db addr connectionType =
     mapE (\<lambda>ret. if ret then None else Some noAccessACL)
       (AcceptableDisplayAddress E accessFile db addr connectionType REQUEST)"

section \<open>Choosing a connection\<close>

definition usable_type :: "CARD16 \<Rightarrow> bool" where
  "usable_type t \<longleftrightarrow> t = FamilyLocal \<or> t = FamilyInternet \<or> t = FamilyInternet6"

text \<open>The loop from index \<open>i\<close>; \<open>best\<close> is the tentative choice.  The packet's two lists
  need not be equally long.\<close>

fun select_connection ::
    "ext \<Rightarrow> ARRAY8 \<Rightarrow> CARD16 \<Rightarrow> ARRAY16 \<Rightarrow> ARRAYofARRAY8 \<Rightarrow> nat \<Rightarrow> (nat \<times> CARD16 \<times> ARRAY8) option \<Rightarrow>
     c_error + (nat \<times> CARD16 \<times> ARRAY8) option" where
  "select_connection E addr family [] addresses i best = Inr best"
| "select_connection E addr family (t # ts) addresses i best =
     (if \<not> usable_type t \<or> (family \<noteq> t \<and> best \<noteq> None) then select_connection E addr family ts addresses (Suc i) best
      else if length addresses \<le> i then Inl OutOfBounds
      else if family = t \<and> x_array8_equal E addr (addresses ! i) then Inr (Some (i, t, addresses ! i))
      else select_connection E addr family ts addresses (Suc i)
             (if best = None then Some (i, t, addresses ! i) else best))"

text \<open>The index, the type and the address; the index is -1, with nothing stored, when there is
  no usable connection.\<close>

definition SelectConnectionTypeIndex ::
    "ext \<Rightarrow> ARRAY8 \<Rightarrow> CARD16 \<Rightarrow> ARRAY16 \<Rightarrow> ARRAYofARRAY8 \<Rightarrow> c_error + (int \<times> (CARD16 \<times> ARRAY8) option)" where
  "SelectConnectionTypeIndex E addr family connectionTypes connectionAddresses =
     mapE (\<lambda>r. case r of
         Some (i, t, a) \<Rightarrow> (int i, Some (t, a))
       | None \<Rightarrow> if isLocalAddress E addr family then (int (length connectionTypes), Some (family, addr))
                 else (-1, None))
     (select_connection E addr family connectionTypes connectionAddresses 0 None)"

section \<open>Facts\<close>

lemma is_xdm_authentication_bounds:
  "is_xdm_authentication name = Inl OutOfBounds \<longleftrightarrow>
    (\<exists>rest. rest \<noteq> [] \<and> xdm_authentication = name @ rest)"
proof -
  have "length xdm_authentication = 20" by (simp add: xdm_authentication_def bytes_of_def)
  then have "length name < 20 \<and> name = take (length name) xdm_authentication \<longleftrightarrow>
      (\<exists>rest. rest \<noteq> [] \<and> xdm_authentication = name @ rest)"
    by (metis append_eq_conv_conj append_take_drop_id drop_eq_Nil length_append less_add_same_cancel1
        length_greater_0_conv linorder_not_le)
  then show ?thesis by (auto simp: is_xdm_authentication_def)
qed

lemma index_of_SomeD: "index_of P xs = Some i \<Longrightarrow> i < length xs \<and> P (xs ! i) \<and> (\<forall>j < i. \<not> P (xs ! j))"
proof (induction xs arbitrary: i)
  case (Cons x xs)
  then show ?case by (cases i) (auto split: if_splits simp: less_Suc_eq_0_disj)
qed simp

lemma index_of_None: "index_of P xs = None \<longleftrightarrow> (\<forall>x \<in> set xs. \<not> P x)"
  by (induction xs) auto

text \<open>What the loop chooses, with equally many types and addresses: the connection on which the
  request came in, the tentative choice, or the first usable one.\<close>

definition exact_match :: "ARRAY8 \<Rightarrow> CARD16 \<Rightarrow> CARD16 \<times> ARRAY8 \<Rightarrow> bool" where
  "exact_match addr family c \<longleftrightarrow> usable_type (fst c) \<and> c = (family, addr)"

lemma select_connection_zip:
  assumes "ext_ok E" "length addresses = i + length ts"
  shows "select_connection E addr family ts addresses i best =
    Inr (let cs = zip ts (drop i addresses)
         in case index_of (exact_match addr family) cs of
              Some k \<Rightarrow> Some (i + k, cs ! k)
            | None \<Rightarrow>
                (case best of
                   Some b \<Rightarrow> Some b
                 | None \<Rightarrow>
                     (case index_of (\<lambda>c. usable_type (fst c)) cs of
                        Some k \<Rightarrow> Some (i + k, cs ! k) | None \<Rightarrow> None)))"
  using assms(2)
proof (induction ts arbitrary: i best)
  case (Cons t ts)
  then have i: "i < length addresses" by simp
  then have d: "drop i addresses = addresses ! i # drop (Suc i) addresses"
    by (simp add: Cons_nth_drop_Suc)
  note IH = Cons.IH [of "Suc i"]
  show ?case
    using Cons.prems i
    by (auto simp: IH d ext_ok_equal [OF assms(1)] exact_match_def Let_def split: option.splits)
qed (simp add: Let_def split: option.split)

text \<open>A display that names a usable type but sends no address for it.\<close>

lemma SelectConnectionTypeIndex_short:
  "usable_type t \<Longrightarrow> SelectConnectionTypeIndex E addr family (t # ts) [] = Inl OutOfBounds"
  by (simp add: SelectConnectionTypeIndex_def)

text \<open>From a request with as many addresses as types the daemon takes the connection the
  request came in on, if the display offers it; otherwise the first one of a type it knows; if there
  is none, the sender's own address when that is one of this host's; and otherwise nothing.  The
  lists are never read out of bounds.\<close>

theorem SelectConnectionTypeIndex_spec:
  assumes "ext_ok E" "length addresses = length types"
  shows "SelectConnectionTypeIndex E addr family types addresses =
    Inr (case index_of (exact_match addr family) (zip types addresses) of
           Some k \<Rightarrow> (int k, Some (types ! k, addresses ! k))
         | None \<Rightarrow>
             (case index_of (\<lambda>c. usable_type (fst c)) (zip types addresses) of
                Some k \<Rightarrow> (int k, Some (types ! k, addresses ! k))
              | None \<Rightarrow>
                  (if isLocalAddress E addr family then (int (length types), Some (family, addr))
                   else (-1, None))))"
proof -
  have "k < length types" if "index_of P (zip types addresses) = Some k" for P k
    using index_of_SomeD [OF that] assms(2) by simp
  then show ?thesis
    using assms(2) select_connection_zip [OF assms(1), of addresses 0 types addr family None]
    by (auto simp: SelectConnectionTypeIndex_def Let_def split: option.split)
qed

lemma SelectConnectionTypeIndex_spec_witness:
  "SelectConnectionTypeIndex std_ext [10, 0, 0, 9] 0 [5, 6, 0] [[1], [2], [10, 0, 0, 9]] =
     Inr (2, Some (0, [10, 0, 0, 9]))"
proof -
  have i: "index_of (exact_match [10, 0, 0, 9] 0) (zip [5, 6, 0] [[1], [2], [10, 0, 0, 9]]) = Some 2"
    by (simp add: exact_match_def usable_type_def)
  from SelectConnectionTypeIndex_spec [OF ext_ok_std, of "[[1], [2], [10, 0, 0, 9]]" "[5, 6, 0]" "[10, 0, 0, 9]" 0]
  show ?thesis unfolding i by simp
qed

end
