(* ===== verification/Display_Name.thy ===== *)
theory Display_Name
  imports Address Dpylist
begin

text \<open>
  The name under which a display that speaks XDMCP is managed, \<open>NetworkAddressToName\<close> of
  \<open>xdm/xdmcp.c\<close>: never with a host in front for one of this host's own addresses, otherwise
  the host's name or its number.
\<close>

text \<open>The resolver beyond \<open>ext\<close>: the canonical name and the addresses behind a name, with
  protocol and size, and the numeric form of an address with its scope.\<close>

record resolver =
  rs_canonname :: "string \<Rightarrow> (string option \<times> (int \<times> int \<times> sockaddr) list) option"
  rs_getnameinfo :: "sockaddr \<Rightarrow> string option"

definition show_display :: "CARD16 \<Rightarrow> string" where
  "show_display n = CHR '':'' # show_nat (unat n)"

text \<open>Link-local and site-local IPv6 addresses; the test reads the first word of the address.\<close>

definition scoped6 :: "ARRAY8 \<Rightarrow> c_error + bool" where
  "scoped6 data =
     (if length data < 4 then Inl OutOfBounds
      else Inr (data ! 0 = 0xFE \<and> (data ! 1 AND 0xC0 = 0x80 \<or> data ! 1 AND 0xC0 = 0xC0)))"

definition several_addresses :: "(int \<times> int \<times> sockaddr) list \<Rightarrow> bool" where
  "several_addresses ais =
     (case ais of
        [] \<Rightarrow> False
      | (p, l, a) # rest \<Rightarrow> list_ex (\<lambda>(p', l', a'). p = p' \<and> l = l' \<and> a \<noteq> a') rest)"

text \<open>The host's name and whether it must not be used.\<close>

definition display_host ::
    "ext \<Rightarrow> resolver \<Rightarrow> bool \<Rightarrow> nat \<Rightarrow> ARRAY8 \<Rightarrow> bool \<Rightarrow> string option \<times> bool" where
  "display_host E R sourceAddress type data multiHomed =
     (case x_gethostbyaddr E type data of
        None \<Rightarrow> (None, multiHomed)
      | Some h_name \<Rightarrow>
          (if sourceAddress then
             (case rs_canonname R h_name of
                None \<Rightarrow> (None, multiHomed)
              | Some (canon, ais) \<Rightarrow> (canon, multiHomed \<or> several_addresses ais))
           else (Some h_name, multiHomed)))"

text \<open>The host's name without a domain that is this host's domain, too.\<close>

definition strip_domain :: "bool \<Rightarrow> string \<Rightarrow> string \<Rightarrow> string" where
  "strip_domain removeDomainname localhost hostname =
     (if \<not> removeDomainname then hostname
      else case (strchr localhost CHR ''.'', strchr hostname CHR ''.'') of
             (Some (_, localDot), Some (host, remoteDot)) \<Rightarrow> if localDot = remoteDot then host else hostname
           | _ \<Rightarrow> hostname)"

definition bogus_name :: "string option \<Rightarrow> bool" where
  "bogus_name h = (case h of Some (c # cs) \<Rightarrow> c = CHR ''.'' | _ \<Rightarrow> True)"

text \<open>The name of a display whose sender's address has to be used.\<close>

definition original_name :: "ext \<Rightarrow> resolver \<Rightarrow> sockaddr \<Rightarrow> CARD16 \<Rightarrow> string option" where
  "original_name E R original displayNumber =
     (case original of
        SockIn _ a \<Rightarrow>
          if isLocalAddress E a FamilyInternet then Some (show_display displayNumber)
          else map_option (\<lambda>n. n @ show_display displayNumber) (rs_getnameinfo R original)
      | SockIn6 _ a _ \<Rightarrow>
          if isLocalAddress E a FamilyInternet6 then Some (show_display displayNumber)
          else map_option (\<lambda>n. n @ show_display displayNumber) (rs_getnameinfo R original)
      | _ \<Rightarrow> None)"

definition NetworkAddressToName ::
    "ext \<Rightarrow> resolver \<Rightarrow> bool \<Rightarrow> bool \<Rightarrow> CARD16 \<Rightarrow> ARRAY8 \<Rightarrow> sockaddr \<Rightarrow> CARD16 \<Rightarrow> c_error + string option" where
  "NetworkAddressToName E R sourceAddress removeDomainname connectionType connectionAddress original displayNumber =
     (if isLocalAddress E connectionAddress connectionType then
        Inr (if x_calloc E 0 then Some (show_display displayNumber) else None)
      else if connectionType = FamilyInternet \<or> connectionType = FamilyInternet6 then
        bindE (if connectionType = FamilyInternet6 then scoped6 connectionAddress else Inr False) (\<lambda>scoped.
          let type = (if connectionType = FamilyInternet6 then AF_INET6 else AF_INET);
              (hostname, multiHomed) = display_host E R sourceAddress type connectionAddress scoped;
              localhost = localHostname E
          in if \<not> bogus_name hostname \<and> \<not> multiHomed then
               Inr (if \<not> x_calloc E 0 then None
                    else if localhost = the hostname then Some (show_display displayNumber)
                    else Some (strip_domain removeDomainname localhost (the hostname) @ show_display displayNumber))
             else if \<not> x_calloc E 0 then Inr None
             else if multiHomed then Inr (original_name E R original displayNumber)
             else mapE (\<lambda>n. Some (n @ show_display displayNumber)) (inet_ntop E type connectionAddress))
      else Inr None)"

end
