(* ===== verification/Socket.thy ===== *)
theory Socket
  imports Store Access
begin

text \<open>
  The sockets of the daemon: the listening sockets and multicast groups of \<open>xdm/socket.c\<close>,
  the descriptor sets \<open>xdm/xdmcp.c\<close> waits on, and the set of descriptors \<open>xdm/dm.c\<close> closes in
  its children.  The list of listening sockets is a store of nodes, because the callbacks of
  \<open>ForEachListenAddr\<close> hand a pointer to one of them to each other.

  What the kernel answers is the record \<open>net\<close>; what it is asked is the trace, latest first.
\<close>

section \<open>Descriptors to close after a fork\<close>

record close_mask =
  cm_fds :: "nat set"
  cm_max :: int

definition RegisterCloseOnFork :: "nat \<Rightarrow> close_mask \<Rightarrow> close_mask" where
  "RegisterCloseOnFork fd m =
     m\<lparr>cm_fds := insert fd (cm_fds m), cm_max := (if cm_max m < int fd then int fd else cm_max m)\<rparr>"

text \<open>The largest descriptor below \<open>fd\<close> that is set, or -1.\<close>

primrec fd_below :: "nat set \<Rightarrow> nat \<Rightarrow> int" where
  "fd_below M 0 = -1"
| "fd_below M (Suc fd) = (if fd \<in> M then int fd else fd_below M fd)"

definition ClearCloseOnFork :: "nat \<Rightarrow> close_mask \<Rightarrow> close_mask" where
  "ClearCloseOnFork fd m =
     (let M = cm_fds m - {fd}
      in m\<lparr>cm_fds := M, cm_max := (if int fd = cm_max m then fd_below M fd else cm_max m)\<rparr>)"

text \<open>The descriptors closed, in order, and the state after.\<close>

definition CloseOnFork :: "close_mask \<Rightarrow> nat list \<times> close_mask" where
  "CloseOnFork m =
     (filter (\<lambda>fd. fd \<in> cm_fds m) [0..<nat (cm_max m + 1)], m\<lparr>cm_fds := {}, cm_max := 0\<rparr>)"

section \<open>State\<close>

record mcast_group =
  mg_addr :: sockaddr
  mg_addrlen :: nat
  mg_ref :: bool

record socklist =
  sl_mcastgroups :: "mcast_group list"
  sl_addr :: sockaddr
  sl_salen :: int
  sl_addrlen :: nat
  sl_fd :: nat
  sl_ref :: bool

datatype sock_event =
    Opened_fd nat sockaddr
  | Closed_fd nat
  | Membership bool nat "CARD8 list"

record sock_state =
  ss_listen :: "socklist store"
  ss_mask :: "nat set"
  ss_max :: int
  ss_close :: close_mask
  ss_chooserFd :: int
  ss_chooserFd6 :: int
  ss_trace :: "sock_event list"

text \<open>What \<open>socket\<close> answers at a point of the trace for an address family, -1 for a failure,
  and whether \<open>bind\<close> succeeds.\<close>

record net =
  n_socket :: "nat \<Rightarrow> nat \<Rightarrow> int"
  n_bind :: "nat \<Rightarrow> sockaddr \<Rightarrow> bool"
  n_port :: int

definition sock_emit :: "sock_event \<Rightarrow> sock_state \<Rightarrow> sock_state" where
  "sock_emit e s = s\<lparr>ss_trace := e # ss_trace s\<rparr>"

definition htons :: "int \<Rightarrow> CARD8 list" where
  "htons p = [word_of_int (p div 256), word_of_int p]"

section \<open>The chooser's socket\<close>

definition CreateWellKnownSockets :: "net \<Rightarrow> sock_state \<Rightarrow> sock_state" where
  "CreateWellKnownSockets N s =
     (if n_port N = 0 then s
      else
        (let fd6 = n_socket N (length (ss_trace s)) AF_INET6;
             fd = (if fd6 = -1 then n_socket N (length (ss_trace s)) AF_INET else fd6);
             s1 = s\<lparr>ss_chooserFd := fd\<rparr>
         in if fd = -1 then s1
            else s1\<lparr>ss_max := (if fd > ss_max s then fd else ss_max s), ss_mask := insert (nat fd) (ss_mask s)\<rparr>))"

text \<open>The address the kernel gave the socket and its size; the result is the return value, what
  the caller's buffer holds, if it was written, and the length reported.\<close>

definition GetChooserAddr ::
    "(int \<Rightarrow> (sockaddr \<times> int) option) \<Rightarrow> int \<Rightarrow> sock_state \<Rightarrow> int \<times> sockaddr option \<times> int" where
  "GetChooserAddr getsockname len s =
     (if ss_chooserFd s < 0 then (-1, None, len)
      else case getsockname (ss_chooserFd s) of
             None \<Rightarrow> (-1, None, len)
           | Some (sa, n) \<Rightarrow> if len < n then (-2, None, n) else (0, Some sa, n))"

section \<open>Listening sockets\<close>

definition close_fd :: "nat \<Rightarrow> sock_state \<Rightarrow> sock_state" where
  "close_fd fd s = sock_emit (Closed_fd fd) s"

definition CreateListeningSocket :: "net \<Rightarrow> sockaddr \<Rightarrow> sock_state \<Rightarrow> int \<times> sock_state" where
  "CreateListeningSocket N sa s =
     (if n_port N = 0 then (-1, s)
      else
        (let fd = n_socket N (length (ss_trace s)) (NetaddrFamily sa)
         in if fd = -1 then (-1, s)
            else
              (let s1 = sock_emit (Opened_fd (nat fd) sa) (s\<lparr>ss_close := RegisterCloseOnFork (nat fd) (ss_close s)\<rparr>)
               in if \<not> n_bind N (length (ss_trace s)) sa then (-1, close_fd (nat fd) s1)
                  else (fd, s1\<lparr>ss_max := (if fd > ss_max s then fd else ss_max s),
                               ss_mask := insert (nat fd) (ss_mask s)\<rparr>))))"

definition DestroyListeningSocket :: "socklist \<Rightarrow> sock_state \<Rightarrow> sock_state" where
  "DestroyListeningSocket k s = close_fd (sl_fd k) (s\<lparr>ss_mask := ss_mask s - {sl_fd k}\<rparr>)"

text \<open>The address bytes of a node.\<close>

fun sock_bytes :: "sockaddr \<Rightarrow> CARD8 list option" where
  "sock_bytes (SockIn p a) = Some a"
| "sock_bytes (SockIn6 p a s) = Some a"
| "sock_bytes _ = None"

definition same_sock :: "nat \<Rightarrow> sockaddr \<Rightarrow> ARRAY8 \<Rightarrow> bool" where
  "same_sock addrlen sa addr \<longleftrightarrow> addrlen = length addr \<and> sock_bytes sa = Some addr"

text \<open>\<open>FindInList\<close> on the two lists it is used on.\<close>

definition FindInList :: "socklist store \<Rightarrow> ARRAY8 \<Rightarrow> nat option" where
  "FindInList ls addr = st_find (\<lambda>k. same_sock (sl_addrlen k) (sl_addr k) addr) ls"

definition find_group :: "mcast_group list \<Rightarrow> ARRAY8 \<Rightarrow> mcast_group option" where
  "find_group gs addr = find_first (\<lambda>g. same_sock (mg_addrlen g) (mg_addr g) addr) gs"

text \<open>The address, its structure's size and its length.\<close>

definition CreateSocklistEntry :: "ext \<Rightarrow> net \<Rightarrow> ARRAY8 \<Rightarrow> (sockaddr \<times> int \<times> nat) option" where
  "CreateSocklistEntry E N addr =
     (if \<not> x_calloc E 0 then None
      else if length addr = 4 then
        (if x_calloc E 1 then Some (SockIn (htons (n_port N)) addr, 16, 4) else None)
      else if length addr = 16 then
        (if x_calloc E 1 then Some (SockIn6 (htons (n_port N)) addr 0, 28, 16) else None)
      else None)"

text \<open>One address; the closure is the listening socket the multicast groups of the same entry
  belong to.\<close>

definition update_listener :: "ext \<Rightarrow> net \<Rightarrow> ARRAY8 \<Rightarrow> sock_state \<Rightarrow> nat option \<times> sock_state" where
  "update_listener E N addr s =
     (case FindInList (ss_listen s) addr of
        Some p \<Rightarrow>
          (case st_get (ss_listen s) p of
             None \<Rightarrow> (None, s)
           | Some k \<Rightarrow> (Some p, s\<lparr>ss_listen := st_set p (k\<lparr>sl_ref := True\<rparr>) (ss_listen s)\<rparr>))
      | None \<Rightarrow>
          (case CreateSocklistEntry E N addr of
             None \<Rightarrow> (None, s)
           | Some (sa, salen, addrlen) \<Rightarrow>
               (let (fd, s1) = CreateListeningSocket N sa s
                in if fd < 0 then (None, s1)
                   else
                     (let (p, ls) = st_new \<lparr>sl_mcastgroups = [], sl_addr = sa, sl_salen = salen,
                                       sl_addrlen = addrlen, sl_fd = nat fd, sl_ref = True\<rparr> (ss_listen s1)
                      in (Some p, s1\<lparr>ss_listen := ls\<rparr>)))))"

definition UpdateListener ::
    "ext \<Rightarrow> net \<Rightarrow> ARRAY8 option \<Rightarrow> nat option \<times> sock_state \<Rightarrow> nat option \<times> sock_state" where
  "UpdateListener E N addr cs =
     (case addr of
        Some (b # bs) \<Rightarrow> update_listener E N (b # bs) (snd cs)
      | _ \<Rightarrow>
          (let (c, s1) = update_listener E N (replicate 16 0) (snd cs)
           in if c \<noteq> None then (c, s1) else update_listener E N (replicate 4 0) s1))"

text \<open>Joining (true) or leaving a group.  The group's structure is read as one of the socket's
  family: an IPv4 socket takes four bytes of an IPv6 group that are zero, and an IPv6 socket reads
  past the end of an IPv4 group's structure.\<close>

definition ChangeMcastMembership ::
    "bool \<Rightarrow> socklist \<Rightarrow> sockaddr \<Rightarrow> sock_state \<Rightarrow> c_error + sock_state" where
  "ChangeMcastMembership join k g s =
     (case (sl_addr k, g) of
        (SockIn _ _, SockIn _ a) \<Rightarrow> Inr (sock_emit (Membership join (sl_fd k) a) s)
      | (SockIn _ _, SockIn6 _ _ _) \<Rightarrow> Inr (sock_emit (Membership join (sl_fd k) (replicate 4 0)) s)
      | (SockIn6 _ _ _, SockIn6 _ a _) \<Rightarrow> Inr (sock_emit (Membership join (sl_fd k) a) s)
      | (SockIn6 _ _ _, SockIn _ _) \<Rightarrow> Inl OutOfBounds
      | _ \<Rightarrow> Inr s)"

definition UpdateMcastGroup ::
    "ext \<Rightarrow> net \<Rightarrow> ARRAY8 \<Rightarrow> nat option \<times> sock_state \<Rightarrow> c_error + (nat option \<times> sock_state)" where
  "UpdateMcastGroup E N addr cs =
     (case Option.bind (fst cs) (\<lambda>p. map_option (Pair p) (st_get (ss_listen (snd cs)) p)) of
        None \<Rightarrow> Inr cs
      | Some (p, k) \<Rightarrow>
          (let s = snd cs
           in case find_group (sl_mcastgroups k) addr of
                Some _ \<Rightarrow>
                  Inr (Some p, s\<lparr>ss_listen := st_set p (k\<lparr>sl_mcastgroups := update_first
                     (\<lambda>g. same_sock (mg_addrlen g) (mg_addr g) addr) (\<lambda>g. g\<lparr>mg_ref := True\<rparr>)
                     (sl_mcastgroups k)\<rparr>) (ss_listen s)\<rparr>)
              | None \<Rightarrow>
                  (case CreateSocklistEntry E N addr of
                     None \<Rightarrow> Inr cs
                   | Some (sa, _, addrlen) \<Rightarrow>
                       mapE (\<lambda>s'. (Some p, s'\<lparr>ss_listen := st_set p (k\<lparr>sl_mcastgroups :=
                               \<lparr>mg_addr = sa, mg_addrlen = addrlen, mg_ref = True\<rparr> # sl_mcastgroups k\<rparr>)
                               (ss_listen s')\<rparr>))
                         (ChangeMcastMembership True k sa s))))"

section \<open>Following the access file\<close>

definition clear_refs :: "socklist \<Rightarrow> socklist" where
  "clear_refs k = k\<lparr>sl_ref := False, sl_mcastgroups := map (\<lambda>g. g\<lparr>mg_ref := False\<rparr>) (sl_mcastgroups k)\<rparr>"

text \<open>The second loop at one socket: unreferenced sockets go, others leave their unreferenced
  groups.\<close>

primrec leave_groups :: "socklist \<Rightarrow> mcast_group list \<Rightarrow> sock_state \<Rightarrow> c_error + sock_state" where
  "leave_groups k [] s = Inr s"
| "leave_groups k (g # gs) s =
     (if mg_ref g then leave_groups k gs s
      else bindE (ChangeMcastMembership False k (mg_addr g) s) (leave_groups k gs))"

definition sweep_one :: "nat \<Rightarrow> sock_state \<Rightarrow> c_error + sock_state" where
  "sweep_one p s =
     (case st_get (ss_listen s) p of
        None \<Rightarrow> Inl UseAfterFree
      | Some k \<Rightarrow>
          (if \<not> sl_ref k
           then Inr (let s1 = DestroyListeningSocket k s in s1\<lparr>ss_listen := st_del p (ss_listen s1)\<rparr>)
           else mapE (\<lambda>s'. s'\<lparr>ss_listen := st_set p (k\<lparr>sl_mcastgroups := filter mg_ref (sl_mcastgroups k)\<rparr>)
                               (ss_listen s')\<rparr>)
                  (leave_groups k (sl_mcastgroups k) s)))"

primrec sweep :: "nat list \<Rightarrow> sock_state \<Rightarrow> c_error + sock_state" where
  "sweep [] s = Inr s"
| "sweep (p # ps) s = bindE (sweep_one p s) (sweep ps)"

text \<open>The callbacks of \<open>ForEachListenAddr\<close> carry an error along.\<close>

definition UpdateListenSockets ::
    "ext \<Rightarrow> net \<Rightarrow> ARRAY8 option \<Rightarrow> database \<Rightarrow> sock_state \<Rightarrow> c_error + sock_state" where
  "UpdateListenSockets E N defaultMcast db s =
     (let ls = ss_listen s;
          s0 = s\<lparr>ss_listen := ls\<lparr>st_nodes := map (map_prod id clear_refs) (st_nodes ls)\<rparr>\<rparr>
      in bindE (ForEachListenAddr defaultMcast (\<lambda>a. mapE (UpdateListener E N a))
                  (\<lambda>a r. bindE r (UpdateMcastGroup E N a)) db (Inr (None, s0)))
           (\<lambda>r. bindE r (\<lambda>(_, s1). sweep (st_ptrs (ss_listen s1)) s1)))"

definition CloseListenSockets :: "sock_state \<Rightarrow> sock_state" where
  "CloseListenSockets s =
     (let s1 = fold (\<lambda>n. DestroyListeningSocket (snd n)) (st_nodes (ss_listen s)) s
      in s1\<lparr>ss_listen := (ss_listen s)\<lparr>st_nodes := []\<rparr>\<rparr>)"

section \<open>What the daemon waits for\<close>

definition DestroyWellKnownSockets :: "sock_state \<Rightarrow> sock_state" where
  "DestroyWellKnownSockets s =
     (let s1 = (if ss_chooserFd s \<noteq> -1
                then close_fd (nat (ss_chooserFd s)) (s\<lparr>ss_mask := ss_mask s - {nat (ss_chooserFd s)}, ss_chooserFd := -1\<rparr>)
                else s);
          s2 = (if ss_chooserFd6 s1 \<noteq> -1
                then close_fd (nat (ss_chooserFd6 s1)) (s1\<lparr>ss_mask := ss_mask s1 - {nat (ss_chooserFd6 s1)}, ss_chooserFd6 := -1\<rparr>)
                else s1)
      in CloseListenSockets s2)"

text \<open>The loop runs to the size of a pointer, eight bytes of the set.\<close>

definition FD_ANYSET :: "nat set \<Rightarrow> bool" where
  "FD_ANYSET fds \<longleftrightarrow> list_ex (\<lambda>fd. fd \<in> fds) [0..<64]"

definition AnyWellKnownSockets :: "sock_state \<Rightarrow> bool" where
  "AnyWellKnownSockets s \<longleftrightarrow> ss_chooserFd6 s \<noteq> -1 \<or> ss_chooserFd s \<noteq> -1 \<or> FD_ANYSET (ss_mask s)"

text \<open>The descriptors \<open>ProcessListenSockets\<close> processes a request on.\<close>

definition ready_listeners :: "nat set \<Rightarrow> sock_state \<Rightarrow> nat list" where
  "ready_listeners readmask s =
     filter (\<lambda>fd. fd \<in> readmask) (map (sl_fd \<circ> snd) (st_nodes (ss_listen s)))"

section \<open>Facts about the descriptors to close\<close>

definition cm_ok :: "close_mask \<Rightarrow> bool" where
  "cm_ok m \<longleftrightarrow> (\<forall>fd \<in> cm_fds m. int fd \<le> cm_max m)"

lemma fd_below_bound: "fd' \<in> M \<Longrightarrow> fd' < fd \<Longrightarrow> int fd' \<le> fd_below M fd"
  by (induction fd) (auto simp: less_Suc_eq)

lemma cm_ok_Register: "cm_ok m \<Longrightarrow> cm_ok (RegisterCloseOnFork fd m)"
  by (fastforce simp: cm_ok_def RegisterCloseOnFork_def)

lemma cm_ok_Clear: "cm_ok m \<Longrightarrow> cm_ok (ClearCloseOnFork fd m)"
  by (fastforce simp: cm_ok_def ClearCloseOnFork_def Let_def intro: fd_below_bound)

datatype close_call = Register nat | Clear nat | Fork_child

definition close_step :: "close_call \<Rightarrow> close_mask \<Rightarrow> close_mask" where
  "close_step c m =
     (case c of
        Register fd \<Rightarrow> RegisterCloseOnFork fd m
      | Clear fd \<Rightarrow> ClearCloseOnFork fd m
      | Fork_child \<Rightarrow> snd (CloseOnFork m))"

text \<open>The abstract set: what was registered since the last fork and not taken back.\<close>

definition open_step :: "close_call \<Rightarrow> nat set \<Rightarrow> nat set" where
  "open_step c M = (case c of Register fd \<Rightarrow> insert fd M | Clear fd \<Rightarrow> M - {fd} | Fork_child \<Rightarrow> {})"

lemma close_step_refines:
  "cm_ok m \<Longrightarrow> cm_ok (close_step c m) \<and> cm_fds (close_step c m) = open_step c (cm_fds m)"
  by (cases c)
    (simp_all add: close_step_def open_step_def cm_ok_Register cm_ok_Clear,
     simp_all add: RegisterCloseOnFork_def ClearCloseOnFork_def Let_def CloseOnFork_def cm_ok_def)

lemma close_steps_refine:
  "cm_ok m \<Longrightarrow> cm_ok (fold close_step cs m) \<and> cm_fds (fold close_step cs m) = fold open_step cs (cm_fds m)"
  by (induction cs arbitrary: m) (simp_all add: close_step_refines)

lemma CloseOnFork_closes: "cm_ok m \<Longrightarrow> set (fst (CloseOnFork m)) = cm_fds m \<and> distinct (fst (CloseOnFork m))"
  by (fastforce simp: CloseOnFork_def cm_ok_def nat_less_iff zless_nat_eq_int_zless)

text \<open>C26: Whatever the daemon registered, took back and closed before, a child closes exactly the
  descriptors that are still registered, each once, however the bound of the search moved.\<close>

theorem CloseOnFork_exact:
  "set (fst (CloseOnFork (fold close_step cs \<lparr>cm_fds = {}, cm_max = 0\<rparr>))) = fold open_step cs {} \<and>
   distinct (fst (CloseOnFork (fold close_step cs \<lparr>cm_fds = {}, cm_max = 0\<rparr>)))"
proof -
  have "cm_ok \<lparr>cm_fds = {}, cm_max = 0\<rparr>" by (simp add: cm_ok_def)
  from close_steps_refine [OF this, of cs] show ?thesis
    using CloseOnFork_closes [of "fold close_step cs \<lparr>cm_fds = {}, cm_max = 0\<rparr>"] by simp
qed

end
