(* ===== verification/Xdmcp_Packets.thy ===== *)
theory Xdmcp_Packets
  imports Manage Policy Protodpy Display_Name Choose Socket
begin

text \<open>
  The state of the XDMCP side of the daemon and the packets it sends (\<open>xdm/xdmcp.c\<close>).  The
  state extends that of the display manager with the handshakes, the indirect clients, the choices
  made in choosers, the access database and the sockets.  A packet is the sequence of items the
  code writes; flushing one is an event of the trace.
\<close>

section \<open>State\<close>

record 'db xdm_state = "'db dm_state" +
  xs_protos :: protoDisplays
  xs_indirect :: "indirect_user list"
  xs_choices :: choices
  xs_database :: database
  xs_sessionID :: "64 word"
  xs_sockets :: sock_state

text \<open>What the handlers ask for: the time, the contents of the key file, what the command for
  the status prints, the packet reader, and the local address of a socket connected to an address.\<close>

record ('db, 'b) xdm_host = "'db host" +
  h_resolver :: resolver
  h_crypt :: crypt
  h_keys :: "string option"
  h_now :: int
  h_run :: "string \<Rightarrow> string option"
  h_reader :: "'b reader"
  h_connect :: "sockaddr \<Rightarrow> sockaddr option"

definition accessFile_of :: "dm_globals \<Rightarrow> string" where
  "accessFile_of g = (case g_accessFile g of Some s \<Rightarrow> s | None \<Rightarrow> '''')"

definition willing_of :: "dm_globals \<Rightarrow> string" where
  "willing_of g = (case g_willing g of Some s \<Rightarrow> s | None \<Rightarrow> '''')"

section \<open>Addresses\<close>

definition set_scope :: "CARD32 \<Rightarrow> sockaddr \<Rightarrow> sockaddr" where
  "set_scope ifindex sa = (case sa of SockIn6 p a _ \<Rightarrow> SockIn6 p a ifindex | _ \<Rightarrow> sa)"

definition getClientAddress :: "('db, 'b, 'h) xdm_host_scheme \<Rightarrow> sockaddr \<Rightarrow> CARD32 \<Rightarrow> sockaddr option" where
  "getClientAddress H to ifindex =
     (case to of SockOther _ \<Rightarrow> None | _ \<Rightarrow> h_connect H (set_scope ifindex to))"

text \<open>The address, the port and the type of a sender; a failed allocation is copied to all the
  same.\<close>

definition ClientAddress :: "ext \<Rightarrow> sockaddr \<Rightarrow> c_error + (ARRAY8 \<times> ARRAY8 \<times> CARD16)" where
  "ClientAddress E from =
     (let (pdata, plen) = NetaddrPort from;
          (family, r) = ConvertAddr (Some from);
          (alen, adata) = (case r of Some x \<Rightarrow> x | None \<Rightarrow> (0, None));
          bytes = (\<lambda>d. case d of Some b \<Rightarrow> b | None \<Rightarrow> [])
      in if 0 < plen \<and> \<not> x_array8_alloc E plen \<or> 0 < alen \<and> \<not> x_array8_alloc E alen then Inl NullDeref
         else Inr (bytes adata, bytes pdata, word_of_int family))"

section \<open>Packets\<close>

definition opcode :: "xdmOpCode \<Rightarrow> CARD16" where
  "opcode c =
     (case c of BROADCAST_QUERY \<Rightarrow> 1 | QUERY \<Rightarrow> 2 | INDIRECT_QUERY \<Rightarrow> 3 | FORWARD_QUERY \<Rightarrow> 4
      | WILLING \<Rightarrow> 5 | UNWILLING \<Rightarrow> 6 | REQUEST \<Rightarrow> 7 | ACCEPT \<Rightarrow> 8 | DECLINE \<Rightarrow> 9 | MANAGE \<Rightarrow> 10
      | REFUSE \<Rightarrow> 11 | FAILED \<Rightarrow> 12 | KEEPALIVE \<Rightarrow> 13 | ALIVE \<Rightarrow> 14)"

abbreviation (input) XDM_PROTOCOL_VERSION :: CARD16 where "XDM_PROTOCOL_VERSION \<equiv> 1"

definition header :: "xdmOpCode \<Rightarrow> nat \<Rightarrow> xdm_write" where
  "header c len = WHeader XDM_PROTOCOL_VERSION (opcode c) (of_nat len)"

definition flush :: "int \<Rightarrow> sockaddr \<Rightarrow> xdm_write list \<Rightarrow> 'a world_scheme \<Rightarrow> 'a world_scheme" where
  "flush fd to pkt w = emit (Packet fd to pkt) w"

definition names_length :: "ARRAYofARRAY8 \<Rightarrow> nat" where
  "names_length names = sum_list (map (\<lambda>n. 2 + length n) names)"

definition forward_packet :: "ARRAY8 \<Rightarrow> ARRAY8 \<Rightarrow> ARRAYofARRAY8 \<Rightarrow> xdm_write list" where
  "forward_packet cAddr port names =
     [header FORWARD_QUERY (2 + length cAddr + (2 + length port) + 1 + names_length names),
      WARRAY8 cAddr, WARRAY8 port, WARRAYofARRAY8 names]"

definition send_willing :: "ext \<Rightarrow> sockaddr \<Rightarrow> ARRAY8 \<Rightarrow> ARRAY8 \<Rightarrow> int \<Rightarrow> 'a world_scheme \<Rightarrow> 'a world_scheme" where
  "send_willing E from authenticationName status fd w =
     (let hostname = bytes_of (localHostname E)
      in flush fd from
           [header WILLING (6 + length authenticationName + length hostname + length status),
            WARRAY8 authenticationName, WARRAY8 hostname, WARRAY8 status] w)"

definition send_unwilling :: "ext \<Rightarrow> sockaddr \<Rightarrow> ARRAY8 \<Rightarrow> int \<Rightarrow> 'a world_scheme \<Rightarrow> 'a world_scheme" where
  "send_unwilling E from status fd w =
     (let hostname = bytes_of (localHostname E)
      in flush fd from
           [header UNWILLING (4 + length hostname + length status), WARRAY8 hostname, WARRAY8 status] w)"

definition send_accept ::
    "sockaddr \<Rightarrow> CARD32 \<Rightarrow> ARRAY8 \<Rightarrow> ARRAY8 \<Rightarrow> ARRAY8 \<Rightarrow> ARRAY8 \<Rightarrow> int \<Rightarrow> 'a world_scheme \<Rightarrow> 'a world_scheme" where
  "send_accept to sessionID an ad zn zd fd w =
     flush fd to
       [header ACCEPT (4 + (2 + length an) + (2 + length ad) + (2 + length zn) + (2 + length zd)),
        WCARD32 sessionID, WARRAY8 an, WARRAY8 ad, WARRAY8 zn, WARRAY8 zd] w"

definition send_decline ::
    "sockaddr \<Rightarrow> ARRAY8 \<Rightarrow> ARRAY8 \<Rightarrow> ARRAY8 \<Rightarrow> int \<Rightarrow> 'a world_scheme \<Rightarrow> 'a world_scheme" where
  "send_decline to an ad status fd w =
     flush fd to
       [header DECLINE (2 + length status + (2 + length an) + (2 + length ad)),
        WARRAY8 status, WARRAY8 an, WARRAY8 ad] w"

definition send_failed ::
    "sockaddr \<Rightarrow> string \<Rightarrow> CARD32 \<Rightarrow> string \<Rightarrow> int \<Rightarrow> 'a world_scheme \<Rightarrow> 'a world_scheme" where
  "send_failed from name sessionID reason fd w =
     (let buf = snprintf_keep 256 (''Session '' @ show_nat (unat sessionID) @ '' failed for display '' @
                  take 100 name @ '': '' @ reason);
          status = bytes_of buf
      in flush fd from [header FAILED (6 + length status), WCARD32 sessionID, WARRAY8 status] w)"

definition send_refuse :: "sockaddr \<Rightarrow> CARD32 \<Rightarrow> int \<Rightarrow> 'a world_scheme \<Rightarrow> 'a world_scheme" where
  "send_refuse from sessionID fd w = flush fd from [header REFUSE 4, WCARD32 sessionID] w"

definition alive_packet :: "CARD8 \<Rightarrow> CARD32 \<Rightarrow> xdm_write list" where
  "alive_packet sendRunning sendSessionID =
     [header ALIVE 5, WCARD8 sendRunning, WCARD32 sendSessionID]"

definition SendFailed :: "nat \<Rightarrow> string \<Rightarrow> 'a world_scheme \<Rightarrow> c_error + 'a world_scheme" where
  "SendFailed p reason w =
     bindE (get_display p w) (\<lambda>d.
       case d_from d of
         None \<Rightarrow> Inl NullDeref
       | Some from \<Rightarrow> Inr (send_failed from (d_name d) (d_sessionID d) reason (d_xdmcpFd d) w))"

section \<open>Framing\<close>

text \<open>The length in a packet's header is the size of what follows it, modulo 2 ^ 16.\<close>

definition well_framed :: "xdm_write list \<Rightarrow> bool" where
  "well_framed ws \<longleftrightarrow>
     (\<exists>opc body. ws = WHeader XDM_PROTOCOL_VERSION opc (of_nat (sum_list (map wire_size body))) # body)"

definition framed_trace :: "'a world_scheme \<Rightarrow> bool" where
  "framed_trace w \<longleftrightarrow> (\<forall>fd to pkt. Packet fd to pkt \<in> set (w_trace w) \<longrightarrow> well_framed pkt)"

lemma well_framed_header:
  "well_framed (header c len # body) \<longleftrightarrow> (of_nat len :: CARD16) = of_nat (sum_list (map wire_size body))"
  by (auto simp: well_framed_def header_def)

lemma framed_emit [simp]:
  "framed_trace (emit (Packet fd to pkt) w) \<longleftrightarrow> well_framed pkt \<and> framed_trace w"
  "framed_trace (emit (Unlink f) w) = framed_trace w"
  "framed_trace (emit (Kill p s) w) = framed_trace w"
  "framed_trace (emit (Fork p) w) = framed_trace w"
  by (auto simp: framed_trace_def)

lemma framed_forward: "well_framed (forward_packet a p names)"
  by (simp add: forward_packet_def well_framed_header names_length_def)

lemma framed_sends [simp]:
  "framed_trace (send_willing E from an st fd w) = framed_trace w"
  "framed_trace (send_unwilling E from st fd w) = framed_trace w"
  "framed_trace (send_accept to sid an ad zn zd fd w) = framed_trace w"
  "framed_trace (send_decline to an ad st fd w) = framed_trace w"
  "framed_trace (send_failed from nm sid rs fd w) = framed_trace w"
  "framed_trace (send_refuse from sid fd w) = framed_trace w"
  "framed_trace (flush fd to (alive_packet r sid) w) = framed_trace w"
  "framed_trace (flush fd to (forward_packet a pt names) w) = framed_trace w"
  by (simp_all add: send_willing_def send_unwilling_def send_accept_def send_decline_def
      send_failed_def send_refuse_def alive_packet_def flush_def Let_def well_framed_header framed_forward)

end
