(* ===== verification/Xdmcp.thy ===== *)
theory Xdmcp
  imports Xdmcp_Packets
begin

text \<open>
  The XDMCP server, \<open>xdm/xdmcp.c\<close>: one handler for each packet, and the dispatch.  A handler
  reads the packet with the functions of \<open>h_reader\<close>, compares the length in the header with the
  size of what it read, acts, and answers.

  The packet prepared before the walk over the indirect hosts is overwritten by the one each host is
  sent and never flushed; it is not part of the model.
\<close>

type_synonym ('db, 'a) xstate = "('db, 'a) xdm_state_scheme"

section \<open>Queries\<close>

definition all_query_respond ::
    "('db, 'b, 'h) xdm_host_scheme \<Rightarrow> sockaddr \<Rightarrow> ARRAYofARRAY8 \<Rightarrow> xdmOpCode \<Rightarrow> int \<Rightarrow>
     ('db, 'a) xstate \<Rightarrow> c_error + ('db, 'a) xstate" where
  "all_query_respond H from authenticationNames type fd w =
     (case ConvertAddr (Some from) of
        (family, Some (_, data)) \<Rightarrow>
          (if family < 0 then Inr w
           else
             (let E = h_ext H;
                  addr = (case data of Some a \<Rightarrow> a | None \<Rightarrow> []);
                  connectionType = word_of_int family;
                  w1 = (if type = INDIRECT_QUERY
                        then w\<lparr>xs_indirect := snd (RememberIndirectClient E addr connectionType (xs_indirect w))\<rparr>
                        else w\<lparr>xs_indirect := ForgetIndirectClient E addr connectionType (xs_indirect w)\<rparr>);
                  authenticationName = ChooseAuthentication E authenticationNames
              in bindE (Willing E (accessFile_of (dm_vars w1)) (xs_database w1) (willing_of (dm_vars w1)) (h_run H)
                          addr connectionType type)
                   (\<lambda>(ret, status).
                     Inr (if ret then send_willing E from authenticationName status fd w1
                          else if type = QUERY then send_unwilling E from status fd w1
                          else w1))))
      | _ \<Rightarrow> Inr w)"

text \<open>Reading the list of names all queries carry and checking the length.\<close>

definition direct_query_respond ::
    "('db, 'b, 'h) xdm_host_scheme \<Rightarrow> sockaddr \<Rightarrow> nat \<Rightarrow> xdmOpCode \<Rightarrow> int \<Rightarrow> 'b \<Rightarrow>
     ('db, 'a) xstate \<Rightarrow> c_error + ('db, 'a) xstate" where
  "direct_query_respond H from len type fd buffer w =
     (case r_arrayofarray8 (h_reader H) buffer of
        None \<Rightarrow> Inr w
      | Some (names, _) \<Rightarrow>
          if len = 1 + names_length names then all_query_respond H from names type fd w else Inr w)"

definition query_respond where
  "query_respond H from len fd buffer w = direct_query_respond H from len QUERY fd buffer w"

definition broadcast_respond where
  "broadcast_respond H from len fd buffer w = direct_query_respond H from len BROADCAST_QUERY fd buffer w"

section \<open>Indirect queries\<close>

record sfclosure =
  sf_names :: ARRAYofARRAY8
  sf_clientAddress :: ARRAY8
  sf_clientPort :: ARRAY8
  sf_fd :: int
  sf_local :: bool

definition ifindex_of :: "CARD8 list \<Rightarrow> CARD32" where
  "ifindex_of bs = (case bs of [a, b, c, d] \<Rightarrow>
     ucast a OR push_bit 8 (ucast b) OR push_bit 16 (ucast c) OR push_bit 24 (ucast d) | _ \<Rightarrow> 0)"

text \<open>Where a query is forwarded, with the interface a chosen address may carry.\<close>

definition forward_address :: "ARRAY8 \<Rightarrow> (sockaddr \<times> CARD32) option" where
  "forward_address a =
     (let port = [0, 177]
      in if length a = 4 then Some (SockIn port a, 0)
         else if length a = 8 then Some (SockIn port (take 4 a), ifindex_of (drop 4 a))
         else if length a = 16 then Some (SockIn6 port a 0, 0)
         else if length a = 20 then Some (SockIn6 port (take 16 a) (ifindex_of (drop 16 a)), ifindex_of (drop 16 a))
         else None)"

definition adjustAddress ::
    "('db, 'b, 'h) xdm_host_scheme \<Rightarrow> sfclosure \<Rightarrow> sockaddr \<Rightarrow> CARD32 \<Rightarrow> c_error + xdm_write list" where
  "adjustAddress H sfc addr ifindex =
     mapE (\<lambda>cAddr. forward_packet cAddr (sf_clientPort sfc) (sf_names sfc))
       (case (if sf_local sfc then getClientAddress H addr ifindex else None) of
          Some from \<Rightarrow> mapE fst (ClientAddress (h_ext H) from)
        | None \<Rightarrow> Inr (sf_clientAddress sfc))"

definition sendForward ::
    "('db, 'b, 'h) xdm_host_scheme \<Rightarrow> sfclosure \<Rightarrow> (c_error + 'a world_scheme) chooser_func" where
  "sendForward H sfc ct address r =
     bindE r (\<lambda>w.
       case forward_address address of
         None \<Rightarrow> Inr w
       | Some (addr, ifindex) \<Rightarrow>
           mapE (\<lambda>pkt. flush (sf_fd sfc) addr pkt w) (adjustAddress H sfc addr ifindex))"

definition indirect_respond ::
    "('db, 'b, 'h) xdm_host_scheme \<Rightarrow> sockaddr \<Rightarrow> nat \<Rightarrow> int \<Rightarrow> 'b \<Rightarrow>
     ('db, 'a) xstate \<Rightarrow> c_error + ('db, 'a) xstate" where
  "indirect_respond H from len fd buffer w =
     (case r_arrayofarray8 (h_reader H) buffer of
        None \<Rightarrow> Inr w
      | Some (names, _) \<Rightarrow>
          if len \<noteq> 1 + names_length names then Inr w
          else
            bindE (ClientAddress (h_ext H) from) (\<lambda>(clientAddress, clientPort, connectionType).
              let sfc = \<lparr>sf_names = names, sf_clientAddress = clientAddress, sf_clientPort = clientPort,
                         sf_fd = fd, sf_local = isLocalAddress (h_ext H) clientAddress connectionType\<rparr>
              in bindE (ForEachMatchingIndirectHost (h_ext H) (h_now H) (g_choiceTimeout (dm_vars w))
                          (xs_database w) clientAddress connectionType (sendForward H sfc) (Inr w) (xs_choices w))
                   (\<lambda>(localHostAsWell, r, cs).
                     bindE r (\<lambda>w1.
                       let w2 = w1\<lparr>xs_choices := cs\<rparr>
                       in if localHostAsWell then all_query_respond H from names INDIRECT_QUERY fd w2
                          else Inr w2))))"

text \<open>The client a forwarded query is answered to.\<close>

definition forwarded_client :: "sockaddr \<Rightarrow> ARRAY8 \<Rightarrow> ARRAY8 \<Rightarrow> sockaddr option" where
  "forwarded_client from clientAddress clientPort =
     (case from of
        SockIn _ _ \<Rightarrow>
          if length clientAddress \<noteq> 4 \<or> length clientPort \<noteq> 2 then None
          else Some (SockIn clientPort clientAddress)
      | SockIn6 _ _ _ \<Rightarrow>
          if (length clientAddress \<noteq> 16 \<and> length clientAddress \<noteq> 4) \<or> length clientPort \<noteq> 2 then None
          else if length clientAddress = 16 then Some (SockIn6 clientPort clientAddress 0)
          else Some (SockIn6 clientPort (replicate 10 0 @ [0xFF, 0xFF] @ clientAddress) 0)
      | SockUn _ \<Rightarrow>
          if 108 \<le> length clientAddress then None
          else Some (SockUn (cstr (map (\<lambda>b. char_of (unat b)) clientAddress)))
      | SockOther _ \<Rightarrow> None)"

definition forward_respond ::
    "('db, 'b, 'h) xdm_host_scheme \<Rightarrow> sockaddr \<Rightarrow> nat \<Rightarrow> int \<Rightarrow> 'b \<Rightarrow>
     ('db, 'a) xstate \<Rightarrow> c_error + ('db, 'a) xstate" where
  "forward_respond H from len fd buffer w =
     (case Option.bind (r_array8 (h_reader H) buffer) (\<lambda>(clientAddress, b1).
           Option.bind (r_array8 (h_reader H) b1) (\<lambda>(clientPort, b2).
           map_option (\<lambda>(names, _). (clientAddress, clientPort, names)) (r_arrayofarray8 (h_reader H) b2))) of
        None \<Rightarrow> Inr w
      | Some (clientAddress, clientPort, names) \<Rightarrow>
          if len \<noteq> 2 + length clientAddress + (2 + length clientPort) + 1 + names_length names then Inr w
          else case forwarded_client from clientAddress clientPort of
                 None \<Rightarrow> Inr w
               | Some client \<Rightarrow> all_query_respond H client names FORWARD_QUERY fd w)"

section \<open>Requests\<close>

definition outOfMemory :: ARRAY8 where "outOfMemory = bytes_of ''Out of memory''"
definition noValidAddr :: ARRAY8 where "noValidAddr = bytes_of ''No valid address''"
definition noValidAuth :: ARRAY8 where "noValidAuth = bytes_of ''No valid authorization''"
definition noAuthentic :: ARRAY8 where "noAuthentic = bytes_of ''XDM has no authentication key''"

record request =
  rq_displayNumber :: CARD16
  rq_connectionTypes :: ARRAY16
  rq_connectionAddresses :: ARRAYofARRAY8
  rq_authenticationName :: ARRAY8
  rq_authenticationData :: ARRAY8
  rq_authorizationNames :: ARRAYofARRAY8
  rq_manufacturerDisplayID :: ARRAY8

definition read_request :: "'b reader \<Rightarrow> 'b \<Rightarrow> request option" where
  "read_request R b0 =
     Option.bind (r_card16 R b0) (\<lambda>(dn, b1).
     Option.bind (r_array16 R b1) (\<lambda>(ct, b2).
     Option.bind (r_arrayofarray8 R b2) (\<lambda>(ca, b3).
     Option.bind (r_array8 R b3) (\<lambda>(an, b4).
     Option.bind (r_array8 R b4) (\<lambda>(ad, b5).
     Option.bind (r_arrayofarray8 R b5) (\<lambda>(zn, b6).
     map_option (\<lambda>(md, _).
       \<lparr>rq_displayNumber = dn, rq_connectionTypes = ct, rq_connectionAddresses = ca,
        rq_authenticationName = an, rq_authenticationData = ad, rq_authorizationNames = zn,
        rq_manufacturerDisplayID = md\<rparr>) (r_array8 R b6)))))))"

definition request_length :: "request \<Rightarrow> nat" where
  "request_length q =
     2 + (1 + 2 * length (rq_connectionTypes q)) + 1 + names_length (rq_connectionAddresses q) +
     (2 + length (rq_authenticationName q)) + (2 + length (rq_authenticationData q)) +
     1 + names_length (rq_authorizationNames q) + (2 + length (rq_manufacturerDisplayID q))"

text \<open>The handshake of the display: the one there is, or a new one, for which policy is asked.
  The result is the handshake or the reason to decline.\<close>

definition request_handshake ::
    "('db, 'b, 'h) xdm_host_scheme \<Rightarrow> sockaddr \<Rightarrow> int \<Rightarrow> request \<Rightarrow>
     ('db, 'a) xstate \<Rightarrow> c_error + ((ARRAY8 + nat) \<times> ('db, 'a) xstate)" where
  "request_handshake H from fromlen q w =
     (let E = h_ext H
      in case FindProtoDisplay from fromlen (rq_displayNumber q) (xs_protos w) of
           Some p \<Rightarrow> Inr (Inr p, w)
         | None \<Rightarrow>
             (case ConvertAddr (Some from) of
                (family, Some (_, data)) \<Rightarrow>
                  (if family < 0 then Inr (Inl noValidAddr, w)
                   else
                     (let addr = (case data of Some a \<Rightarrow> a | None \<Rightarrow> []);
                          fam = word_of_int family
                      in bindE (Accept E (accessFile_of (dm_vars w)) (xs_database w) addr fam) (\<lambda>reason.
                         case reason of
                           Some r \<Rightarrow> Inr (Inl r, w)
                         | None \<Rightarrow>
                             bindE (SelectConnectionTypeIndex E addr fam (rq_connectionTypes q) (rq_connectionAddresses q))
                               (\<lambda>(_, sel). case sel of
                                  None \<Rightarrow> Inr (Inl noValidAddr, w)
                                | Some (ct, ca) \<Rightarrow>
                                    (let sid = xs_sessionID w + 1;
                                         (r, S) = NewProtoDisplay E (h_now H) from fromlen (rq_displayNumber q) ct ca
                                                    (ucast sid) (xs_protos w);
                                         w' = w\<lparr>xs_sessionID := sid, xs_protos := S\<rparr>
                                     in Inr (case r of None \<Rightarrow> (Inl outOfMemory, w') | Some p \<Rightarrow> (Inr p, w')))))))
              | _ \<Rightarrow> Inr (Inl noValidAddr, w)))"

text \<open>Declining after the handshake exists disposes of it.\<close>

definition decline ::
    "sockaddr \<Rightarrow> request \<Rightarrow> ARRAY8 \<Rightarrow> ARRAY8 \<Rightarrow> nat option \<Rightarrow> int \<Rightarrow> ('db, 'a) xstate \<Rightarrow> ('db, 'a) xstate" where
  "decline from q data reason pdpy fd w =
     (let w1 = send_decline from (rq_authenticationName q) data reason fd w
      in case pdpy of None \<Rightarrow> w1 | Some p \<Rightarrow> w1\<lparr>xs_protos := DisposeProtoDisplay p (xs_protos w1)\<rparr>)"

definition auth_reply :: "protoDisplay \<Rightarrow> ARRAY8 \<times> ARRAY8" where
  "auth_reply p =
     (case p_xdmcpAuthorization p of
        Some a \<Rightarrow> (xa_name a, xa_data a)
      | None \<Rightarrow> (case p_fileAuthorization p of Some a \<Rightarrow> (xa_name a, xa_data a) | None \<Rightarrow> ([], [])))"

definition request_accept ::
    "('db, 'b, 'h) xdm_host_scheme \<Rightarrow> sockaddr \<Rightarrow> request \<Rightarrow> int \<Rightarrow> nat \<Rightarrow>
     ('db, 'a) xstate \<Rightarrow> c_error + ('db, 'a) xstate" where
  "request_accept H from q fd p w =
     (let E = h_ext H;
          zn = rq_authorizationNames q;
          j = (if zn = [] then 0 else SelectAuthorizationTypeIndex E (rq_authenticationName q) zn)
      in if j < 0 then Inr (decline from q (rq_authenticationData q) noValidAuth (Some p) fd w)
         else
           bindE (deref (xs_protos w) p) (\<lambda>x.
           bindE (CheckAuthentication E (h_crypt H) (h_keys H) (rq_manufacturerDisplayID q)
                    (rq_authenticationName q) (rq_authenticationData q) x) (\<lambda>(ok, x1, data).
             let w1 = w\<lparr>xs_protos := st_set p x1 (xs_protos w)\<rparr>
             in if \<not> ok then Inr (decline from q data noAuthentic (Some p) fd w1)
                else
                  bindE (if nat j < length zn
                         then mapE (\<lambda>(x2, s). (x2, auth_reply x2, w1\<lparr>dm_auth := s, xs_protos := st_set p x2 (xs_protos w1)\<rparr>))
                                (SetProtoDisplayAuthorization E (h_rng H) (h_crypt H) (zn ! nat j) x1 (dm_auth w1))
                         else Inr (x1, ([], []), w1))
                    (\<lambda>(x2, (an, ad), w2).
                      Inr (send_accept from (p_sessionID x2) (rq_authenticationName q) data an ad fd w2)))))"

definition request_respond ::
    "('db, 'b, 'h) xdm_host_scheme \<Rightarrow> sockaddr \<Rightarrow> int \<Rightarrow> nat \<Rightarrow> int \<Rightarrow> 'b \<Rightarrow>
     ('db, 'a) xstate \<Rightarrow> c_error + ('db, 'a) xstate" where
  "request_respond H from fromlen len fd buffer w =
     (case read_request (h_reader H) buffer of
        None \<Rightarrow> Inr w
      | Some q \<Rightarrow>
          if request_length q \<noteq> len then Inr w
          else
            bindE (request_handshake H from fromlen q w) (\<lambda>(r, w1).
              case r of
                Inl reason \<Rightarrow> Inr (decline from q (rq_authenticationData q) reason None fd w1)
              | Inr p \<Rightarrow> request_accept H from q fd p w1))"

section \<open>Managing a display\<close>

definition string_of :: "CARD8 list \<Rightarrow> string" where
  "string_of bs = cstr (map (\<lambda>b. char_of (unat b)) bs)"

text \<open>The fields of a new display that come from the handshake and the sender.\<close>

definition xdmcp_display :: "protoDisplay \<Rightarrow> sockaddr \<Rightarrow> int \<Rightarrow> int \<Rightarrow> display \<Rightarrow> display" where
  "xdmcp_display x from fromlen fd d =
     d\<lparr>d_displayType := \<lparr>dt_location = Foreign, dt_lifetime = Transient, dt_origin = FromXDMCP\<rparr>,
       d_sessionID := p_sessionID x, d_from := Some from, d_fromlen := fromlen,
       d_displayNumber := p_displayNumber x, d_useChooser := False, d_xdmcpFd := fd\<rparr>"

text \<open>Whether the display gets a chooser: an indirect client that has not chosen yet.\<close>

definition chooser_wanted ::
    "('db, 'b, 'h) xdm_host_scheme \<Rightarrow> ARRAY8 \<Rightarrow> CARD16 \<Rightarrow> ('db, 'a) xstate \<Rightarrow> c_error + (bool \<times> ('db, 'a) xstate)" where
  "chooser_wanted H a ct w =
     (if \<not> IsIndirectClient (h_ext H) a ct (xs_indirect w) then Inr (False, w)
      else
        (let w1 = w\<lparr>xs_indirect := ForgetIndirectClient (h_ext H) a ct (xs_indirect w)\<rparr>
         in mapE (\<lambda>(b, cs). (b, w1\<lparr>xs_choices := cs\<rparr>))
              (UseChooser (h_ext H) (h_now H) (g_choiceTimeout (dm_vars w1)) (xs_database w1) a ct (xs_choices w1))))"

text \<open>The new display from the point where it is in the list.  When the array for its
  authorization cannot be allocated it is freed while it is linked, a use after free at the next
  walk over the displays, reported here at once.\<close>

definition manage_new ::
    "('db, 'b, 'h) xdm_host_scheme \<Rightarrow> sockaddr \<Rightarrow> int \<Rightarrow> int \<Rightarrow> nat \<Rightarrow> protoDisplay \<Rightarrow> nat \<Rightarrow>
     ('db, 'a) xstate \<Rightarrow> c_error + ('db, 'a) xstate" where
  "manage_new H from fromlen fd pp x p w =
     bindE (get_display p w) (\<lambda>d.
     bindE (ClientAddress (h_ext H) from) (\<lambda>(clientAddress, clientPort, connectionType).
     bindE (chooser_wanted H clientAddress connectionType w) (\<lambda>(useChooser, w1).
       let d1 = (xdmcp_display x from fromlen fd d)\<lparr>d_useChooser := useChooser, d_clientAddr := clientAddress,
                  d_connectionType := connectionType\<rparr>
       in if p_fileAuthorization x \<noteq> None \<and> \<not> x_calloc (h_ext H) 4 then Inl UseAfterFree
          else
            (let d2 = (case p_fileAuthorization x of
                         None \<Rightarrow> d1
                       | Some a \<Rightarrow> d1\<lparr>d_auth := (d_auth d1)\<lparr>au_authorizations := Some [a], au_authNum := 1\<rparr>\<rparr>);
                 w2 = (put_display p d2 w1)\<lparr>xs_protos := DisposeProtoDisplay pp (xs_protos w1)\<rparr>
             in StartDisplay H p w2))))"

definition manage_session ::
    "('db, 'b, 'h) xdm_host_scheme \<Rightarrow> sockaddr \<Rightarrow> int \<Rightarrow> int \<Rightarrow> CARD32 \<Rightarrow> ARRAY8 \<Rightarrow> nat \<Rightarrow> protoDisplay \<Rightarrow>
     ('db, 'a) xstate \<Rightarrow> c_error + ('db, 'a) xstate" where
  "manage_session H from fromlen fd sessionID displayClass pp x w =
     (let E = h_ext H; g = dm_vars w
      in bindE (NetworkAddressToName E (h_resolver H) (g_sourceAddress g) (g_removeDomainname g)
                  (p_connectionType x) (p_connectionAddress x) from (p_displayNumber x)) (\<lambda>r.
         case r of
           None \<Rightarrow> Inr (send_failed from ''(no name)'' sessionID ''out of memory'' fd w)
         | Some name \<Rightarrow>
             bindE (case FindDisplayByName name (w_displays w) of
                      None \<Rightarrow> Inr w | Some q \<Rightarrow> StopDisplay q w) (\<lambda>w1.
               if \<not> x_calloc E 1 \<or> \<not> x_calloc E 2
               then Inr (send_failed from name sessionID ''out of memory'' fd w1)
               else
                 (let cls = (if displayClass = [] then None else Some (string_of displayClass))
                  in case NewDisplay (x_calloc E 3) name cls w1 of
                       (None, w2) \<Rightarrow> Inr (send_failed from name sessionID ''out of memory'' fd w2)
                     | (Some p, w2) \<Rightarrow> manage_new H from fromlen fd pp x p w2))))"

definition manage ::
    "('db, 'b, 'h) xdm_host_scheme \<Rightarrow> sockaddr \<Rightarrow> int \<Rightarrow> nat \<Rightarrow> int \<Rightarrow> 'b \<Rightarrow>
     ('db, 'a) xstate \<Rightarrow> c_error + ('db, 'a) xstate" where
  "manage H from fromlen len fd buffer w =
     (case Option.bind (r_card32 (h_reader H) buffer) (\<lambda>(sid, b1).
           Option.bind (r_card16 (h_reader H) b1) (\<lambda>(dn, b2).
           map_option (\<lambda>(c, _). (sid, dn, c)) (r_array8 (h_reader H) b2))) of
        None \<Rightarrow> Inr w
      | Some (sessionID, displayNumber, displayClass) \<Rightarrow>
          if 4 + 2 + (2 + length displayClass) \<noteq> len then Inr w
          else
            (case FindProtoDisplay from fromlen displayNumber (xs_protos w) of
               None \<Rightarrow>
                 (case FindDisplayByAddress from fromlen displayNumber (w_displays w) of
                    None \<Rightarrow> Inr (send_refuse from sessionID fd w)
                  | Some p \<Rightarrow>
                      bindE (get_display p w) (\<lambda>d.
                        Inr (if d_sessionID d = sessionID then w else send_refuse from sessionID fd w)))
             | Some pp \<Rightarrow>
                 bindE (deref (xs_protos w) pp) (\<lambda>x.
                   if p_sessionID x \<noteq> sessionID then Inr (send_refuse from sessionID fd w)
                   else manage_session H from fromlen fd sessionID displayClass pp x w)))"

definition send_alive ::
    "('db, 'b, 'h) xdm_host_scheme \<Rightarrow> sockaddr \<Rightarrow> int \<Rightarrow> nat \<Rightarrow> int \<Rightarrow> 'b \<Rightarrow>
     ('db, 'a) xstate \<Rightarrow> c_error + ('db, 'a) xstate" where
  "send_alive H from fromlen len fd buffer w =
     (case Option.bind (r_card16 (h_reader H) buffer) (\<lambda>(dn, b1).
           map_option (\<lambda>(sid, _). (dn, sid)) (r_card32 (h_reader H) b1)) of
        None \<Rightarrow> Inr w
      | Some (displayNumber, sessionID) \<Rightarrow>
          if len \<noteq> 6 then Inr w
          else
            (let found = (case FindDisplayBySessionID sessionID (w_displays w) of
                            Some p \<Rightarrow> Some p
                          | None \<Rightarrow> FindDisplayByAddress from fromlen displayNumber (w_displays w))
             in bindE (case found of None \<Rightarrow> Inr None | Some p \<Rightarrow> mapE Some (get_display p w)) (\<lambda>r.
                  let (sendRunning, sendSessionID) =
                    (case r of
                       Some d \<Rightarrow> if d_status d = running
                                 then (if d_sessionID d = sessionID then 1 else 0, d_sessionID d) else (0, 0)
                     | None \<Rightarrow> (0, 0))
                  in Inr (flush fd from (alive_packet sendRunning sendSessionID) w))))"

section \<open>Dispatch\<close>

text \<open>\<open>packet\<close> is what \<open>XdmcpFill\<close> delivers, None when it fails.\<close>

definition ProcessRequestSocket ::
    "('db, 'b, 'h) xdm_host_scheme \<Rightarrow> CARD8 list option \<Rightarrow> sockaddr \<Rightarrow> int \<Rightarrow> int \<Rightarrow>
     ('db, 'a) xstate \<Rightarrow> c_error + ('db, 'a) xstate" where
  "ProcessRequestSocket H packet addr addrlen fd w =
     (case Option.bind packet (\<lambda>bs. r_header (h_reader H) (r_buffer (h_reader H) bs)) of
        None \<Rightarrow> Inr w
      | Some ((version, opc, len16), buffer) \<Rightarrow>
          (let len = unat len16
           in if version \<noteq> XDM_PROTOCOL_VERSION then Inr w
              else if opc = opcode BROADCAST_QUERY then broadcast_respond H addr len fd buffer w
              else if opc = opcode QUERY then query_respond H addr len fd buffer w
              else if opc = opcode INDIRECT_QUERY then indirect_respond H addr len fd buffer w
              else if opc = opcode FORWARD_QUERY then forward_respond H addr len fd buffer w
              else if opc = opcode REQUEST then request_respond H addr addrlen len fd buffer w
              else if opc = opcode MANAGE then manage H addr addrlen len fd buffer w
              else if opc = opcode KEEPALIVE then send_alive H addr addrlen len fd buffer w
              else Inr w))"

section \<open>What a walk over the hosts keeps\<close>

lemma or_seq_keeps:
  assumes "or_seq m k = Inr (l, s')" "\<And>l s. m = Inr (l, s) \<Longrightarrow> P s" "\<And>s l s'. P s \<Longrightarrow> k s = Inr (l, s') \<Longrightarrow> P s'"
  shows "P s'"
  using assms by (fastforce simp: or_seq_def mapE_Inr_iff elim!: bindE_InrE)

lemma scan_hosts_keeps:
  assumes "\<And>ct a s. P s \<Longrightarrow> P (f ct a s)" "\<And>n s l s'. P s \<Longrightarrow> al n s = Inr (l, s') \<Longrightarrow> P s'"
  shows "P s \<Longrightarrow> scan_hosts E al ct (Some f) b hs s = Inr (l, s') \<Longrightarrow> P s'"
proof (induction hs arbitrary: s l s')
  case (Cons h hs)
  show ?case
    using Cons.prems(2) unfolding scan_hosts.simps
  proof (rule or_seq_keeps)
    show "P s1" if "scan_host E al ct (Some f) b h s = Inr (l, s1)" for l s1
      using that assms Cons.prems(1)
      by (auto simp: scan_host_def call_back_def split: host_type.splits if_splits)
  qed (rule Cons.IH)
qed simp

lemma scan_aliases_keeps:
  assumes "\<And>hs s l s'. P s \<Longrightarrow> scan hs s = Inr (l, s') \<Longrightarrow> P s'"
  shows "P s \<Longrightarrow> scan_aliases scan alias db s = Inr (l, s') \<Longrightarrow> P s'"
proof (induction db arbitrary: s l s')
  case (Cons d db)
  show ?case
    using Cons.prems(2) unfolding scan_aliases.simps
  proof (rule or_seq_keeps)
    show "P s1" if "(case de_type d of
               DISPLAY_ALIAS n \<Rightarrow> bindE (patternMatch (Some alias) n) (\<lambda>m. if m then scan (de_hosts d) s else Inr (False, s))
             | _ \<Rightarrow> Inr (False, s)) = Inr (l, s1)" for l s1
      using that assms Cons.prems(1) by (auto split: display_type.splits if_splits elim!: bindE_InrE)
  qed (rule Cons.IH)
qed simp

lemma indirectAlias_keeps:
  assumes "\<And>ct a s. P s \<Longrightarrow> P (f ct a s)"
  shows "P s \<Longrightarrow> indirectAlias E db ct (Some f) b n nm s = Inr (l, s') \<Longrightarrow> P s'"
proof (induction n arbitrary: nm s l s')
  case (Suc n)
  show ?case
    using Suc.prems(1) Suc.prems(2) [unfolded indirectAlias.simps]
  proof (rule scan_aliases_keeps [rotated])
    show "P s1 \<Longrightarrow> scan_hosts E (indirectAlias E db ct (Some f) b n) ct (Some f) b hs s1 = Inr (l1, s2) \<Longrightarrow> P s2"
      for hs s1 l1 s2
      by (rule scan_hosts_keeps [where P = P, OF assms Suc.IH])
  qed
qed simp

lemma ForEachMatchingIndirectHost_keeps:
  assumes "\<And>ct a s. P s \<Longrightarrow> P (f ct a s)" "P s"
    "ForEachMatchingIndirectHost E now t db a ct f s cs = Inr (l, s', cs')"
  shows "P s'"
proof -
  have "P s1" if "scanHostlist E db hs ct (Some f) s 0 False = Inr (l1, s1)" for hs l1 s1
    using scan_hosts_keeps [where P = P and f = f, OF assms(1) _ assms(2) that [unfolded scanHostlist_def]]
      indirectAlias_keeps [where P = P and f = f, OF assms(1)] by blast
  then show ?thesis
    using assms unfolding ForEachMatchingIndirectHost_def
    by (fastforce simp: mapE_Inr_iff split: if_splits option.splits elim!: bindE_InrE)
qed

section \<open>What the handlers answer\<close>

text \<open>The displays are as they were, and what was sent are whole packets.\<close>

definition answered :: "'a world_scheme \<Rightarrow> 'b world_scheme \<Rightarrow> bool" where
  "answered w w' \<longleftrightarrow> w_displays w' = w_displays w \<and>
     (\<exists>es. w_trace w' = es @ w_trace w \<and> (\<forall>e \<in> set es. \<exists>fd to pkt. e = Packet fd to pkt \<and> well_framed pkt))"

lemma answered_refl [simp]: "answered w w"
  by (auto simp: answered_def)

lemma answered_trans [trans]: "answered u v \<Longrightarrow> answered v w \<Longrightarrow> answered u w"
  unfolding answered_def by (metis Un_iff append_assoc set_append)

lemma answered_framed: "answered w w' \<Longrightarrow> framed_trace w \<Longrightarrow> framed_trace w'"
  by (fastforce simp: answered_def framed_trace_def)

lemma answered_fields [simp]:
  "answered u (w\<lparr>xs_indirect := x1\<rparr>) = answered u w" "answered u (w\<lparr>xs_choices := x2\<rparr>) = answered u w"
  "answered u (w\<lparr>xs_protos := x3\<rparr>) = answered u w" "answered u (w\<lparr>xs_sessionID := x4\<rparr>) = answered u w"
  "answered u (w\<lparr>dm_auth := x5\<rparr>) = answered u w" "answered (u\<lparr>xs_choices := x6\<rparr>) w = answered u w"
  by (simp_all add: answered_def)

lemma answered_flush: "well_framed pkt \<Longrightarrow> answered w (flush fd to pkt w)"
  by (auto simp: answered_def flush_def)

lemmas packet_defs = send_willing_def send_unwilling_def send_accept_def send_decline_def
  send_failed_def send_refuse_def

lemma answered_sends:
  "answered u w \<Longrightarrow> answered u (send_willing E from an st fd w)"
  "answered u w \<Longrightarrow> answered u (send_unwilling E from st fd w)"
  "answered u w \<Longrightarrow> answered u (send_accept to sid an ad zn zd fd w)"
  "answered u w \<Longrightarrow> answered u (send_decline to an ad st fd w)"
  "answered u w \<Longrightarrow> answered u (send_failed from nm sid rs fd w)"
  "answered u w \<Longrightarrow> answered u (send_refuse from sid fd w)"
  "answered u w \<Longrightarrow> answered u (flush fd to (alive_packet r sid) w)"
  "answered u w \<Longrightarrow> answered u (flush fd to (forward_packet a pt names) w)"
  unfolding packet_defs Let_def alive_packet_def
  by (erule answered_trans, rule answered_flush, simp add: well_framed_header framed_forward)+

lemma all_query_respond_answers: "all_query_respond H from names type fd w = Inr w' \<Longrightarrow> answered w w'"
  unfolding all_query_respond_def
  by (auto simp: Let_def split: prod.splits option.splits if_splits elim!: bindE_InrE intro!: answered_sends)

lemma direct_query_respond_answers: "direct_query_respond H from len type fd b w = Inr w' \<Longrightarrow> answered w w'"
  unfolding direct_query_respond_def
  by (auto split: option.splits prod.splits if_splits dest: all_query_respond_answers)

lemma forward_respond_answers: "forward_respond H from len fd b w = Inr w' \<Longrightarrow> answered w w'"
  unfolding forward_respond_def
  by (auto split: option.splits prod.splits if_splits dest: all_query_respond_answers)

lemma sendForward_answers:
  "(\<forall>w. r = Inr w \<longrightarrow> answered u w) \<Longrightarrow> \<forall>w. sendForward H sfc ct a r = Inr w \<longrightarrow> answered u w"
  by (auto simp: sendForward_def adjustAddress_def mapE_Inr_iff split: option.splits prod.splits
      elim!: bindE_InrE intro!: answered_sends)

lemma indirect_respond_answers:
  assumes "indirect_respond H from len fd b w = Inr w'"
  shows "answered w w'"
proof -
  have keep: "\<forall>v. r = Inr v \<longrightarrow> answered w v"
    if "ForEachMatchingIndirectHost E now t db a ct (sendForward H sfc) (Inr w) cs = Inr (l, r, cs')"
    for E now t db a ct sfc cs l r cs'
    by (rule ForEachMatchingIndirectHost_keeps [where P = "\<lambda>r. \<forall>v. r = Inr v \<longrightarrow> answered w v", OF _ _ that])
      (use sendForward_answers in blast, simp)
  show ?thesis
    using assms unfolding indirect_respond_def
    by (auto simp: Let_def split: option.splits prod.splits if_splits elim!: bindE_InrE
        dest!: keep all_query_respond_answers) (blast intro: answered_trans)+
qed

lemma request_handshake_answers: "request_handshake H from fl q w = Inr (r, w') \<Longrightarrow> answered w w'"
  unfolding request_handshake_def
  by (auto simp: Let_def split: option.splits prod.splits if_splits elim!: bindE_InrE)

lemma request_accept_answers: "request_accept H from q fd p w = Inr w' \<Longrightarrow> answered w w'"
  unfolding request_accept_def decline_def
  by (auto simp: Let_def mapE_Inr_iff split: option.splits prod.splits if_splits elim!: bindE_InrE
      intro!: answered_sends)

lemma request_respond_answers: "request_respond H from fl len fd b w = Inr w' \<Longrightarrow> answered w w'"
  unfolding request_respond_def decline_def
  by (auto split: option.splits prod.splits if_splits sum.splits elim!: bindE_InrE intro!: answered_sends
      dest!: request_handshake_answers request_accept_answers dest: answered_trans)

lemma send_alive_answers: "send_alive H from fl len fd b w = Inr w' \<Longrightarrow> answered w w'"
  unfolding send_alive_def
  by (auto simp: Let_def split: option.splits prod.splits if_splits elim!: bindE_InrE intro!: answered_sends)

section \<open>Managing\<close>

lemma framed_quiet: "quiet w w' \<Longrightarrow> framed_trace w' \<longleftrightarrow> framed_trace w"
  by (simp add: framed_trace_def quiet_framed_packet)

lemma framed_fields [simp]:
  "framed_trace (w\<lparr>xs_indirect := x1\<rparr>) = framed_trace w" "framed_trace (w\<lparr>xs_choices := x2\<rparr>) = framed_trace w"
  "framed_trace (w\<lparr>xs_protos := x3\<rparr>) = framed_trace w" "framed_trace (put_display p d w) = framed_trace w"
  by (simp_all add: framed_trace_def)

lemma framed_StartDisplay: "StartDisplay H p w = Inr w' \<Longrightarrow> framed_trace w' = framed_trace w"
  using StartDisplay_step framed_quiet by (metis step_at_def)

lemma framed_StopDisplay: "StopDisplay p w = Inr w' \<Longrightarrow> framed_trace w' = framed_trace w"
  using step_at_StopDisplay framed_quiet by (metis step_at_def)

lemma chooser_wanted_displays:
  "chooser_wanted H a ct w = Inr (b, w') \<Longrightarrow>
    w_displays w' = w_displays w \<and> w_trace w' = w_trace w \<and> xs_protos w' = xs_protos w"
  by (auto simp: chooser_wanted_def mapE_Inr_iff Let_def split: if_splits)

lemma framed_manage_new: "manage_new H from fl fd pp x p w = Inr w' \<Longrightarrow> framed_trace w' = framed_trace w"
  unfolding manage_new_def
  by (auto simp: Let_def framed_trace_def dest!: framed_StartDisplay chooser_wanted_displays
      split: if_splits elim!: bindE_InrE)

lemma framed_NewDisplay: "NewDisplay m nm c w = (r, w') \<Longrightarrow> framed_trace w' = framed_trace w"
  by (auto simp: NewDisplay_def framed_trace_def split: if_splits prod.splits)

lemma framed_manage: "manage H from fl len fd b w = Inr w' \<Longrightarrow> framed_trace w' = framed_trace w"
  unfolding manage_def manage_session_def
  by (auto simp: Let_def split: option.splits prod.splits if_splits elim!: bindE_InrE
      dest!: framed_NewDisplay framed_manage_new framed_StopDisplay)

text \<open>Without a handshake for the sender's address and display number that has the packet's
  session, nothing is started or stopped.\<close>

lemma manage_without_session:
  assumes "manage H from fl len fd b w = Inr w'"
    "\<And>dn pp x sid. FindProtoDisplay from fl dn (xs_protos w) = Some pp \<Longrightarrow>
       st_get (xs_protos w) pp = Some x \<Longrightarrow> p_sessionID x = sid \<Longrightarrow>
       \<not> (\<exists>b1 b2 r. r_card32 (h_reader H) b = Some (sid, b1) \<and> r_card16 (h_reader H) b1 = Some (dn, b2) \<and>
          r_array8 (h_reader H) b2 = Some r)"
  shows "answered w w'"
  using assms unfolding manage_def
  by (auto simp: deref_Inr bind_eq_Some_conv split: option.splits prod.splits if_splits elim!: bindE_InrE
      intro!: answered_sends) blast+

end
