(* ===== verification/Dm.thy ===== *)
theory Dm
  imports Xdmcp
begin

text \<open>
  The display manager, \<open>xdm/dm.c\<close>: reading the servers file, restarting displays, reaping
  children, adding a dynamic display, shutting down, and the process id file.

  The state \<open>daemon\<close> extends that of the XDMCP server with the static variables of the file.
  Each operation is given the record \<open>dm_host\<close> of what the system answers while it runs; the
  main loop may see another record at every turn.
\<close>

section \<open>State and surroundings\<close>

record 'db daemon = "'db xdm_state" +
  m_originalArgv :: "string list"
  m_ServersModTime :: int
  m_ConfigModTime :: int
  m_AccessFileModTime :: int
  m_nextIsEOF :: bool
  m_Rescan :: bool
  m_AddOne :: bool
  m_ChildReady :: bool

text \<open>The modification time \<open>stat\<close> gives, and what a file that can be opened holds.\<close>

record ('db, 'b) dm_host = "('db, 'b) xdm_host" +
  h_net :: net
  h_mcast :: "ARRAY8 option"
  h_mtime :: "string \<Rightarrow> int option"
  h_text :: "string \<Rightarrow> string option"

definition servers_of :: "dm_globals \<Rightarrow> string" where
  "servers_of g = (case g_servers g of Some s \<Rightarrow> s | None \<Rightarrow> '''')"

section \<open>The servers file\<close>

primrec scan_lines :: "ext \<Rightarrow> string list \<Rightarrow> 'a world_scheme \<Rightarrow> c_error + 'a world_scheme" where
  "scan_lines E [] w = Inr w"
| "scan_lines E (l # ls) w =
     (let s = cstr l
      in bindE (if s = [] then Inr w else ParseDisplay E (if last s = CHR 0x0A then butlast s else s) w)
           (scan_lines E ls))"

definition ScanServers :: "('db, 'b, 'h) dm_host_scheme \<Rightarrow> ('db, 'a) daemon_scheme \<Rightarrow> c_error + ('db, 'a) daemon_scheme" where
  "ScanServers H w =
     (let servers = servers_of (dm_vars w)
      in if first_is CHR ''/'' servers then
           (case h_text H servers of
              None \<Rightarrow> Inr w
            | Some text \<Rightarrow>
                (let w1 = (if m_ServersModTime w = 0
                           then w\<lparr>m_ServersModTime := (case h_mtime H servers of Some t \<Rightarrow> t | None \<Rightarrow> 0)\<rparr> else w)
                 in scan_lines (h_ext H) (fgets_lines 10239 text) w1))
         else ParseDisplay (h_ext H) servers w)"

definition MarkDisplay :: "nat \<Rightarrow> 'a world_scheme \<Rightarrow> c_error + 'a world_scheme" where
  "MarkDisplay p w = mapE (\<lambda>d. put_display p (d\<lparr>d_state := MissingEntry\<rparr>) w) (get_display p w)"

definition CheckDisplayStatus ::
    "('db, 'h) host_scheme \<Rightarrow> nat \<Rightarrow> ('db, 'a) dm_state_scheme \<Rightarrow> c_error + ('db, 'a) dm_state_scheme" where
  "CheckDisplayStatus H p w =
     bindE (get_display p w) (\<lambda>d.
       if dt_origin (d_displayType d) = FromFile then
         (case d_state d of
            MissingEntry \<Rightarrow> StopDisplay p w
          | _ \<Rightarrow>
              (let w1 = (if d_state d = NewEntry then put_display p (d\<lparr>d_state := OldEntry\<rparr>) w else w)
               in if dt_lifetime (d_displayType d) = Permanent \<and> d_status d = notRunning
                  then StartDisplay H p w1 else Inr w1))
       else Inr w)"

definition StartDisplays ::
    "('db, 'h) host_scheme \<Rightarrow> ('db, 'a) dm_state_scheme \<Rightarrow> c_error + ('db, 'a) dm_state_scheme" where
  "StartDisplays H w = ForEachDisplay (CheckDisplayStatus H) w"

definition AddDynamicDisplay ::
    "('db, 'h) host_scheme \<Rightarrow> nat \<Rightarrow> ('db, 'a) dm_state_scheme \<Rightarrow> c_error + (bool \<times> ('db, 'a) dm_state_scheme)" where
  "AddDynamicDisplay H p w =
     bindE (get_display p w) (\<lambda>d.
       if dt_origin (d_displayType d) = FromFile \<and> dt_lifetime (d_displayType d) = Transient \<and>
          d_status d = notRunning
       then mapE (Pair True) (StartDisplay H p w) else Inr (False, w))"

definition AddDisplay ::
    "('db, 'h) host_scheme \<Rightarrow> ('db, 'a) dm_state_scheme \<Rightarrow> c_error + ('db, 'a) dm_state_scheme" where
  "AddDisplay H w = mapE snd (UntilDisplay (AddDynamicDisplay H) w)"

section \<open>Reading the configuration again\<close>

text \<open>\<open>ReinitResources\<close>, which ends the program when it is out of memory, \<open>LoadDMResources\<close>, and
  the one after the other.\<close>

definition reread_config ::
    "('db, 'b, 'h) dm_host_scheme \<Rightarrow> ('db, 'a) daemon_scheme \<Rightarrow> c_error + ('db, 'a) daemon_scheme" where
  "reread_config H w =
     bindE (ReinitResources (h_ext H) (h_xlib H) (m_originalArgv w) (dm_vars w)) (\<lambda>r.
       case r of
         None \<Rightarrow> Inl NoReturn
       | Some (db, g, extra) \<Rightarrow> Inr (w\<lparr>dm_db := Some db, dm_vars := g\<rparr>))"

definition load_globals ::
    "('db, 'b, 'h) dm_host_scheme \<Rightarrow> ('db, 'a) daemon_scheme \<Rightarrow> c_error + ('db, 'a) daemon_scheme" where
  "load_globals H w =
     mapE (\<lambda>g. w\<lparr>dm_vars := g\<rparr>) (LoadDMResources (h_ext H) (h_xlib H) (dm_db w) (dm_vars w))"

definition reload_config ::
    "('db, 'b, 'h) dm_host_scheme \<Rightarrow> ('db, 'a) daemon_scheme \<Rightarrow> c_error + ('db, 'a) daemon_scheme" where
  "reload_config H w = bindE (reread_config H w) (load_globals H)"

text \<open>\<open>ScanAccessDatabase\<close> and \<open>UpdateListenSockets\<close>.\<close>

definition reload_access ::
    "('db, 'b, 'h) dm_host_scheme \<Rightarrow> ('db, 'a) daemon_scheme \<Rightarrow> c_error + ('db, 'a) daemon_scheme" where
  "reload_access H w =
     (let file = accessFile_of (dm_vars w);
          (_, db, eof) = ScanAccessDatabase (h_ext H) file (h_text H file) (m_nextIsEOF w)
      in mapE (\<lambda>s. w\<lparr>xs_database := db, m_nextIsEOF := eof, xs_sockets := s\<rparr>)
           (UpdateListenSockets (h_ext H) (h_net H) (h_mcast H) db (xs_sockets w)))"

definition SetConfigFileTime :: "('db, 'b, 'h) dm_host_scheme \<Rightarrow> ('db, 'a) daemon_scheme \<Rightarrow> ('db, 'a) daemon_scheme" where
  "SetConfigFileTime H w =
     (case Option.bind (g_config (dm_vars w)) (h_mtime H) of None \<Rightarrow> w | Some t \<Rightarrow> w\<lparr>m_ConfigModTime := t\<rparr>)"

definition SetAccessFileTime :: "('db, 'b, 'h) dm_host_scheme \<Rightarrow> ('db, 'a) daemon_scheme \<Rightarrow> ('db, 'a) daemon_scheme" where
  "SetAccessFileTime H w =
     (case h_mtime H (accessFile_of (dm_vars w)) of None \<Rightarrow> w | Some t \<Rightarrow> w\<lparr>m_AccessFileModTime := t\<rparr>)"

definition RescanServers :: "('db, 'b, 'h) dm_host_scheme \<Rightarrow> ('db, 'a) daemon_scheme \<Rightarrow> c_error + ('db, 'a) daemon_scheme" where
  "RescanServers H w =
     bindE (ForEachDisplay MarkDisplay w) (\<lambda>w1.
     bindE (reload_config H (SetConfigFileTime H w1)) (\<lambda>w2.
     bindE (ScanServers H w2) (\<lambda>w3.
     bindE (reload_access H (SetAccessFileTime H w3)) (StartDisplays H))))"

text \<open>What has changed since it was last read, each file by its own time.\<close>

definition changed :: "('db, 'b, 'h) dm_host_scheme \<Rightarrow> string \<Rightarrow> int \<Rightarrow> int option" where
  "changed H file t = (case h_mtime H file of Some t' \<Rightarrow> if t' \<noteq> t then Some t' else None | None \<Rightarrow> None)"

definition RescanIfMod :: "('db, 'b, 'h) dm_host_scheme \<Rightarrow> ('db, 'a) daemon_scheme \<Rightarrow> c_error + ('db, 'a) daemon_scheme" where
  "RescanIfMod H w =
     bindE (case Option.bind (g_config (dm_vars w)) (\<lambda>c. changed H c (m_ConfigModTime w)) of
              None \<Rightarrow> Inr w | Some t \<Rightarrow> reload_config H (w\<lparr>m_ConfigModTime := t\<rparr>)) (\<lambda>w1.
     bindE (let servers = servers_of (dm_vars w1)
            in case (if first_is CHR ''/'' servers then changed H servers (m_ServersModTime w1) else None) of
                 None \<Rightarrow> Inr w1
               | Some t \<Rightarrow> bindE (ForEachDisplay MarkDisplay (w1\<lparr>m_ServersModTime := t\<rparr>)) (ScanServers H)) (\<lambda>w2.
     let file = accessFile_of (dm_vars w2)
     in case (if file \<noteq> [] then changed H file (m_AccessFileModTime w2) else None) of
          None \<Rightarrow> Inr w2
        | Some t \<Rightarrow> reload_access H (w2\<lparr>m_AccessFileModTime := t\<rparr>)))"

section \<open>Children\<close>

text \<open>The status \<open>waitpid\<close> reports, and the number it is reduced to.\<close>

datatype wait_status = WExited nat | WSignaled nat

definition waitCompose :: "int \<Rightarrow> int \<Rightarrow> int \<Rightarrow> int" where
  "waitCompose sig core code = sig * 256 + core * 128 + code"

definition waitVal :: "wait_status \<Rightarrow> int" where
  "waitVal s = waitCompose (case s of WSignaled n \<Rightarrow> int n | _ \<Rightarrow> 0) 0 (case s of WExited n \<Rightarrow> int n | _ \<Rightarrow> 0)"

abbreviation (input) XDM_BROKEN_INTERVAL :: int where "XDM_BROKEN_INTERVAL \<equiv> 120"

text \<open>The session of a display has ended.  The steps that count an attempt write it to the display
  first.\<close>

definition give_up :: "display \<Rightarrow> bool" where
  "give_up d \<longleftrightarrow> sr_startAttempts (d_server d) \<le> d_startTries d"

definition counted_restart :: "nat \<Rightarrow> 'a world_scheme \<Rightarrow> c_error + 'a world_scheme" where
  "counted_restart p w =
     bindE (get_display p w) (\<lambda>d.
       if dt_origin (d_displayType d) = FromXDMCP \<or> d_status d = zombie then StopDisplay p w
       else (let d1 = d\<lparr>d_startTries := d_startTries d + 1\<rparr>; w1 = put_display p d1 w
             in if give_up d1 then StopDisplay p w1 else RestartDisplay p True w1))"

definition reserver :: "int \<Rightarrow> nat \<Rightarrow> 'a world_scheme \<Rightarrow> c_error + 'a world_scheme" where
  "reserver now p w =
     bindE (get_display p w) (\<lambda>d0.
       let d = d0\<lparr>d_startTries := 0\<rparr>
       in if dt_origin (d_displayType d) = FromXDMCP \<or> d_status d = zombie then StopDisplay p (put_display p d w)
          else
            (let crash = (d_lastReserv d \<noteq> 0 \<and> now - d_lastReserv d < XDM_BROKEN_INTERVAL);
                 d1 = d\<lparr>d_reservTries := (if crash then d_reservTries d + 1 else 0)\<rparr>;
                 w1 = put_display p d1 w
             in bindE (if crash \<and> sr_reservAttempts (d_server d1) \<le> d_reservTries d1
                       then StopDisplay p w1 else RestartDisplay p True w1) (\<lambda>w2.
                bindE (get_display p w2) (\<lambda>d2.
                  Inr (put_display p (d2\<lparr>d_lastReserv := now\<rparr>) w2)))))"

definition reap_session :: "int \<Rightarrow> nat \<Rightarrow> wait_status \<Rightarrow> 'a world_scheme \<Rightarrow> c_error + 'a world_scheme" where
  "reap_session now p status w =
     bindE (get_display p w) (\<lambda>d0.
       let v = waitVal status; d = d0\<lparr>d_pid := -1\<rparr>; w1 = put_display p d w
       in if v = UNMANAGE_DISPLAY then StopDisplay p w1
          else if v = OBEYSESS_DISPLAY then
            (let w2 = put_display p (d\<lparr>d_startTries := 0, d_reservTries := 0\<rparr>) w1
             in if dt_lifetime (d_displayType d) \<noteq> Permanent \<or> d_status d = zombie
                then StopDisplay p w2 else RestartDisplay p False w2)
          else if v = OPENFAILED_DISPLAY then
            bindE (if dt_origin (d_displayType d) = FromXDMCP then SendFailed p ''Cannot open display'' w1 else Inr w1)
              (counted_restart p)
          else if v = RESERVER_DISPLAY then reserver now p w1
          else if v = waitCompose SIGTERM 0 0 then counted_restart p w1
          else if v = REMANAGE_DISPLAY then
            (let w2 = put_display p (d\<lparr>d_startTries := 0\<rparr>) w1
             in if dt_origin (d_displayType d) = FromXDMCP \<or> d_status d = zombie
                then StopDisplay p w2 else RestartDisplay p False w2)
          else StopDisplay p w1)"

text \<open>The server of a display has ended.\<close>

definition reap_server :: "nat \<Rightarrow> 'a world_scheme \<Rightarrow> c_error + 'a world_scheme" where
  "reap_server p w =
     bindE (get_display p w) (\<lambda>d0.
       let d = d0\<lparr>d_serverPid := -1\<rparr>; w1 = put_display p d w
       in Inr (case d_status d of
            zombie \<Rightarrow> RemoveDisplay p w1
          | phoenix \<Rightarrow> put_display p (d\<lparr>d_status := notRunning\<rparr>) w1
          | running \<Rightarrow> if d_pid d \<noteq> -1 then TerminateProcess (d_pid d) SIGTERM w1 else w1
          | notRunning \<Rightarrow> w1))"

definition reap_child :: "int \<Rightarrow> int \<Rightarrow> wait_status \<Rightarrow> 'a world_scheme \<Rightarrow> c_error + 'a world_scheme" where
  "reap_child now pid status w =
     (case FindDisplayByPid pid (w_displays w) of
        Some p \<Rightarrow> reap_session now p status w
      | None \<Rightarrow>
          (case FindDisplayByServerPid pid (w_displays w) of
             Some p \<Rightarrow> reap_server p w
           | None \<Rightarrow> Inr w))"

text \<open>The children that have ended, each with what the system answers when its turn comes.\<close>

primrec reap_all ::
    "(('db, 'b, 'h) dm_host_scheme \<times> int \<times> wait_status) list \<Rightarrow> ('db, 'a) daemon_scheme \<Rightarrow>
     c_error + ('db, 'a) daemon_scheme" where
  "reap_all [] w = Inr w"
| "reap_all (c # cs) w =
     (case c of (H, pid, status) \<Rightarrow>
        bindE (if g_autoRescan (dm_vars w) then RescanIfMod H w else Inr w) (\<lambda>w1.
        bindE (reap_child (h_now H) pid status w1) (reap_all cs)))"

text \<open>The signals are blocked while the flag is looked at, and none is lost; the wait itself is not
  part of the model.\<close>

definition WaitForChild ::
    "('db, 'b, 'h) dm_host_scheme \<Rightarrow> (('db, 'b, 'h) dm_host_scheme \<times> int \<times> wait_status) list \<Rightarrow>
     ('db, 'a) daemon_scheme \<Rightarrow> c_error + ('db, 'a) daemon_scheme" where
  "WaitForChild H children w = bindE (reap_all children (w\<lparr>m_ChildReady := False\<rparr>)) (StartDisplays H)"

section \<open>Shutting down\<close>

definition StopAll :: "('db, 'a) xdm_state_scheme \<Rightarrow> c_error + ('db, 'a) xdm_state_scheme" where
  "StopAll w = ForEachDisplay StopDisplay (w\<lparr>xs_sockets := DestroyWellKnownSockets (xs_sockets w)\<rparr>)"

text \<open>The condition of the main loop.\<close>

definition keeps_running :: "('db, 'a) xdm_state_scheme \<Rightarrow> bool" where
  "keeps_running w \<longleftrightarrow> AnyWellKnownSockets (xs_sockets w) \<or> AnyDisplaysLeft (w_displays w)"

section \<open>The main loop\<close>

text \<open>What arrives while the daemon waits: the descriptors \<open>select\<close> reports, None when it fails,
  what a chooser sends, what a client sends with the system at that moment, and whether a child
  ended meanwhile.\<close>

record ('db, 'b) arrivals =
  ar_reads :: "nat set option"
  ar_chooser :: "nat \<Rightarrow> CARD8 list option"
  ar_packet :: "nat \<Rightarrow> ('db, 'b) dm_host \<times> CARD8 list option \<times> sockaddr \<times> int"
  ar_signalled :: bool
  ar_children :: "(('db, 'b) dm_host \<times> int \<times> wait_status) list"

definition chooser_input ::
    "('db, 'b) dm_host \<Rightarrow> ('db, 'b) arrivals \<Rightarrow> nat set \<Rightarrow> int \<Rightarrow> ('db, 'a) daemon_scheme \<Rightarrow>
     c_error + ('db, 'a) daemon_scheme" where
  "chooser_input H A reads fd w =
     (if 0 \<le> fd \<and> nat fd \<in> reads
      then mapE (\<lambda>cs. w\<lparr>xs_choices := cs\<rparr>)
             (ProcessChooserSocket (h_ext H) (h_reader H) (h_now H) (ar_chooser A (nat fd)) (xs_choices w))
      else Inr w)"

primrec ProcessListenSockets ::
    "(nat \<Rightarrow> ('db, 'b) dm_host \<times> CARD8 list option \<times> sockaddr \<times> int) \<Rightarrow> nat list \<Rightarrow> ('db, 'a) daemon_scheme \<Rightarrow>
     c_error + ('db, 'a) daemon_scheme" where
  "ProcessListenSockets received [] w = Inr w"
| "ProcessListenSockets received (fd # fds) w =
     (case received fd of (H, packet, addr, addrlen) \<Rightarrow>
        bindE (ProcessRequestSocket H packet addr addrlen (int fd) w) (ProcessListenSockets received fds))"

definition WaitForSomething ::
    "('db, 'b) dm_host \<Rightarrow> ('db, 'b) arrivals \<Rightarrow> ('db, 'a) daemon_scheme \<Rightarrow> c_error + ('db, 'a) daemon_scheme" where
  "WaitForSomething H A w =
     (if AnyWellKnownSockets (xs_sockets w) \<and> \<not> m_ChildReady w then
        bindE (case ar_reads A of
                 None \<Rightarrow> Inr w
               | Some reads \<Rightarrow>
                   bindE (chooser_input H A reads (ss_chooserFd (xs_sockets w)) w) (\<lambda>w1.
                   bindE (chooser_input H A reads (ss_chooserFd6 (xs_sockets w1)) w1) (\<lambda>w2.
                     ProcessListenSockets (ar_packet A)
                       (ready_listeners (reads - {fd. int fd \<in> {ss_chooserFd (xs_sockets w2), ss_chooserFd6 (xs_sockets w2)}})
                          (xs_sockets w2)) w2)))
          (\<lambda>w'. if ar_signalled A then WaitForChild H (ar_children A) w' else Inr w')
      else WaitForChild H (ar_children A) w)"

text \<open>One turn.  A signal that arrives in the middle of one is a step of its own between two
  operations.\<close>

definition turn ::
    "('db, 'b) dm_host \<Rightarrow> ('db, 'b) arrivals \<Rightarrow> ('db, 'a) daemon_scheme \<Rightarrow> c_error + ('db, 'a) daemon_scheme" where
  "turn H A w =
     bindE (if m_Rescan w then mapE (\<lambda>w1. w1\<lparr>m_Rescan := False\<rparr>) (RescanServers H w) else Inr w) (\<lambda>w1.
     bindE (if m_AddOne w1 then mapE (\<lambda>w2. w2\<lparr>m_AddOne := False\<rparr>) (AddDisplay H w1) else Inr w1)
       (WaitForSomething H A))"

definition init_session_id :: "int \<Rightarrow> 64 word" where
  "init_session_id now = word_of_int ((now mod 2 ^ 15) * 16000)"

text \<open>The start, from the configuration to the first displays.  The argument vector is in
  \<open>m_originalArgv\<close>, where \<open>InitResources\<close> puts it; the process id file is taken between the
  configuration and the sockets (theory \<open>Pidfile\<close>).\<close>

definition start_up :: "('db, 'b) dm_host \<Rightarrow> ('db, 'a) daemon_scheme \<Rightarrow> c_error + ('db, 'a) daemon_scheme" where
  "start_up H w =
     bindE (reread_config H w) (\<lambda>w1.
     bindE (load_globals H (SetConfigFileTime H w1)) (\<lambda>w2.
       let w3 = w2\<lparr>xs_sessionID := init_session_id (h_now H),
                  xs_sockets := CreateWellKnownSockets (h_net H) (xs_sockets w2)\<rparr>
       in bindE (reload_access H (SetAccessFileTime H w3)) (\<lambda>w4.
          bindE (ScanServers H w4) (StartDisplays H))))"

end
