(* ===== verification/Lifecycle.thy ===== *)
theory Lifecycle
  imports Dm
begin

text \<open>
  The life of a display under the display manager: which combinations of status, session and
  server there are, and that every operation of \<open>Dm\<close>, \<open>Manage\<close> and \<open>Xdmcp\<close> keeps to
  them.  \<open>evolves\<close> is what any sequence of operations does to the list of displays.
\<close>

section \<open>The invariant\<close>

text \<open>A running display has a session; one that waits to be started has none; one that waits for
  its old server to end has a server and no session; one that is being removed has a server.\<close>

definition display_ok :: "display \<Rightarrow> bool" where
  "display_ok d \<longleftrightarrow>
     (case d_status d of
        running \<Rightarrow> d_pid d \<noteq> -1
      | notRunning \<Rightarrow> d_pid d = -1
      | phoenix \<Rightarrow> d_pid d = -1 \<and> d_serverPid d \<noteq> -1
      | zombie \<Rightarrow> d_serverPid d \<noteq> -1)"

definition displays_ok :: "'a world_scheme \<Rightarrow> bool" where
  "displays_ok w \<longleftrightarrow> st_ok (w_displays w) \<and> all_nodes st_get display_ok (w_displays w)"

abbreviation node :: "nat \<Rightarrow> 'a world_scheme \<Rightarrow> display option" where
  "node p w \<equiv> st_get (w_displays w) p"

definition evolves :: "'a world_scheme \<Rightarrow> 'b world_scheme \<Rightarrow> bool" where
  "evolves w w' \<longleftrightarrow> (displays_ok w \<longrightarrow> displays_ok w' \<and>
     st_next (w_displays w) \<le> st_next (w_displays w') \<and>
     (\<forall>p. p < st_next (w_displays w) \<longrightarrow> node p w = None \<longrightarrow> node p w' = None) \<and>
     (\<forall>p d d'. node p w = Some d \<longrightarrow> d_status d = zombie \<longrightarrow> node p w' = Some d' \<longrightarrow> d_status d' = zombie))"

lemma evolves_refl [simp]: "evolves w w"
  by (simp add: evolves_def)

lemma live_below_next: "st_ok S \<Longrightarrow> st_get S p = Some x \<Longrightarrow> p < st_next S"
  using st_get_ptrs [of S p] by (simp add: st_ok_def)

lemma evolves_trans [trans]:
  assumes "evolves u v" "evolves v w"
  shows "evolves u w"
proof (cases "displays_ok u")
  case True
  from assms(1) True have uv: "displays_ok v" "st_next (w_displays u) \<le> st_next (w_displays v)"
    "\<And>p. p < st_next (w_displays u) \<Longrightarrow> node p u = None \<Longrightarrow> node p v = None"
    "\<And>p d d'. node p u = Some d \<Longrightarrow> d_status d = zombie \<Longrightarrow> node p v = Some d' \<Longrightarrow> d_status d' = zombie"
    unfolding evolves_def by blast+
  from assms(2) uv(1) have vw: "displays_ok w" "st_next (w_displays v) \<le> st_next (w_displays w)"
    "\<And>p. p < st_next (w_displays v) \<Longrightarrow> node p v = None \<Longrightarrow> node p w = None"
    "\<And>p d d'. node p v = Some d \<Longrightarrow> d_status d = zombie \<Longrightarrow> node p w = Some d' \<Longrightarrow> d_status d' = zombie"
    unfolding evolves_def by blast+
  have gone: "node p w = None" if "p < st_next (w_displays u)" "node p v = None" for p
    using that uv(2) vw(3) by simp
  have "d_status d' = zombie" if "node p u = Some d" "d_status d = zombie" "node p w = Some d'" for p d d'
  proof (cases "node p v")
    case None
    with gone [of p] live_below_next [OF _ that(1)] True that(3) show ?thesis by (simp add: displays_ok_def)
  next
    case (Some e)
    from vw(4) [OF Some uv(4) [OF that(1,2) Some] that(3)] show ?thesis .
  qed
  with uv vw gone show ?thesis unfolding evolves_def by (meson order_trans)
qed (simp add: evolves_def)

lemma evolves_cong: "w_displays u' = w_displays u \<Longrightarrow> w_displays w' = w_displays w \<Longrightarrow> evolves u' w' = evolves u w"
  by (simp add: evolves_def displays_ok_def)

lemma evolves_same: "w_displays w' = w_displays w \<Longrightarrow> evolves w w'"
  by (simp add: evolves_def displays_ok_def)

lemma evolves_daemon_fields [simp]:
  "evolves (w\<lparr>m_ServersModTime := t\<rparr>) v = evolves w v" "evolves (w\<lparr>m_ConfigModTime := t\<rparr>) v = evolves w v"
  "evolves (w\<lparr>m_AccessFileModTime := t\<rparr>) v = evolves w v" "evolves (w\<lparr>m_ChildReady := b\<rparr>) v = evolves w v"
  "evolves u (w\<lparr>m_Rescan := b\<rparr>) = evolves u w" "evolves u (w\<lparr>m_AddOne := b\<rparr>) = evolves u w"
  by (simp_all add: evolves_def displays_ok_def)

section \<open>Operations on one display\<close>

definition only_at :: "nat \<Rightarrow> 'a world_scheme \<Rightarrow> 'b world_scheme \<Rightarrow> bool" where
  "only_at p w w' \<longleftrightarrow> (st_ok (w_displays w) \<longrightarrow> st_ok (w_displays w') \<and>
     st_next (w_displays w') = st_next (w_displays w) \<and> (\<forall>q. q \<noteq> p \<longrightarrow> node q w' = node q w))"

text \<open>What a step at \<open>p\<close> has to show about its display to be one of the allowed steps.\<close>

definition lives_on :: "display option \<Rightarrow> display option \<Rightarrow> bool" where
  "lives_on x y \<longleftrightarrow> (case (x, y) of
     (Some d, Some d') \<Rightarrow> display_ok d' \<and> (d_status d = zombie \<longrightarrow> d_status d' = zombie)
   | (None, Some _) \<Rightarrow> False | _ \<Rightarrow> True)"

lemma only_at_refl [simp]: "only_at p w w"
  by (simp add: only_at_def)

lemma only_at_trans [trans]: "only_at p u v \<Longrightarrow> only_at p v w \<Longrightarrow> only_at p u w"
  by (simp add: only_at_def)

lemma only_at_step: "step_at p w w' \<Longrightarrow> only_at p w w'"
  by (simp add: step_at_def only_at_def)

lemma only_at_same: "w_displays w' = w_displays w \<Longrightarrow> only_at p w w'"
  by (simp add: only_at_def)

lemma evolves_at:
  assumes "only_at p w w'"
    "st_ok (w_displays w) \<Longrightarrow> (\<forall>d. node p w = Some d \<longrightarrow> display_ok d) \<Longrightarrow> lives_on (node p w) (node p w')"
  shows "evolves w w'"
proof (cases "displays_ok w")
  case True
  then have ok: "st_ok (w_displays w)" "\<forall>q d. node q w = Some d \<longrightarrow> display_ok d"
    by (auto simp: displays_ok_def all_nodes_def)
  from assms ok have l: "lives_on (node p w) (node p w')" by blast
  from assms(1) ok(1) have w': "st_ok (w_displays w')" "st_next (w_displays w') = st_next (w_displays w)"
    "\<And>q. q \<noteq> p \<Longrightarrow> node q w' = node q w"
    by (auto simp: only_at_def)
  have "lives_on (node q w) (node q w')" for q
  proof (cases "q = p")
    case False
    with w'(3) ok(2) show ?thesis by (cases "node q w") (auto simp: lives_on_def)
  qed (use l in simp)
  note * = this [unfolded lives_on_def]
  have "display_ok d'" if "node q w' = Some d'" for q d'
    using * [of q] that by (auto split: option.splits)
  moreover have "node q w' = None" if "node q w = None" for q
    using * [of q] that by (auto split: option.splits)
  moreover have "d_status d' = zombie" if "node q w = Some d" "d_status d = zombie" "node q w' = Some d'" for q d d'
    using * [of q] that by simp
  ultimately show ?thesis using w' by (auto simp: evolves_def displays_ok_def all_nodes_def)
qed (simp add: evolves_def)

lemma StopDisplay_node:
  assumes "StopDisplay p w = Inr w'" "st_ok (w_displays w)"
  shows "node p w' = (case node p w of
     None \<Rightarrow> None | Some d \<Rightarrow> if d_serverPid d \<noteq> -1 then Some (d\<lparr>d_status := zombie\<rparr>) else None)"
proof -
  from assms(1) obtain d where "node p w = Some d"
    unfolding StopDisplay_def by (elim bindE_InrE) (simp add: get_display_Inr)
  with assms show ?thesis
    by (auto simp: StopDisplay_def get_display_def deref_def Let_def st_get_set RemoveDisplay_get st_ok_set
        split: if_splits)
qed

lemma RestartDisplay_node:
  assumes "RestartDisplay p f w = Inr w'"
  shows "\<exists>d. node p w = Some d \<and>
    node p w' = Some (d\<lparr>d_status := (if d_serverPid d \<noteq> -1 \<and> (f \<or> sr_terminateServer (d_server d))
      then phoenix else notRunning)\<rparr>)"
  using assms unfolding RestartDisplay_def
  by (elim bindE_InrE) (auto simp: get_display_Inr st_get_set split: if_splits)

lemma evolves_StopDisplay: "StopDisplay p w = Inr w' \<Longrightarrow> evolves w w'"
  by (rule evolves_at [of p])
    (auto simp: only_at_step step_at_StopDisplay StopDisplay_node lives_on_def display_ok_def split: option.splits)

text \<open>Starting leaves status and session alone until the fork.\<close>

definition same_life :: "display \<Rightarrow> display \<Rightarrow> bool" where
  "same_life d d' \<longleftrightarrow> d_status d' = d_status d \<and> d_pid d' = d_pid d"

lemma LoadServerResources_life:
  assumes "LoadServerResources E X db d = Inr d'"
  shows "same_life d d'"
proof -
  let ?np = "''DisplayManager.'' @ CleanUpName (d_name d) 512"
  let ?cp = "''DisplayManager.'' @ CleanUpName (case d_class d of Some c \<Rightarrow> c | None \<Rightarrow> d_name d) 512"
  from assms have l: "load_entries E X db ?np ?cp (serverResources (x_macro X)) d = Inr d'"
    by (simp add: LoadServerResources_def LoadDisplayResources_def Let_def)
  have "apart_from_resources d' = apart_from_resources d"
    by (rule load_entries_frame [OF _ l]) (rule table_frame [of _ "x_macro X"], simp)
  from apart_from_resources_fields(5,6) [OF this] show ?thesis by (simp add: same_life_def)
qed

lemma same_life_auth [simp]: "same_life (d\<lparr>d_auth := a\<rparr>) = same_life d" "same_life d (e\<lparr>d_auth := a\<rparr>) = same_life d e"
  "same_life d d"
  by (auto simp: same_life_def fun_eq_iff)

lemma SaveServerAuthorizations_life:
  "SaveServerAuthorizations E F dir auths d = (b, d', ev) \<Longrightarrow> same_life d d'"
  by (drule SaveServerAuthorizations_display) auto

lemma SetLocalAuthorization_life:
  assumes "SetLocalAuthorization E R F dir d s = (d', s', ev)"
  shows "same_life d d'"
proof -
  define d1 where "d1 = (if au_authorizations (d_auth d) = None then d
    else d\<lparr>d_auth := (d_auth d)\<lparr>au_authorizations := None, au_authNum := 0\<rparr>\<rparr>)"
  have d1: "same_life d1 = same_life d" by (simp add: d1_def)
  show ?thesis
    using assms unfolding SetLocalAuthorization_def Let_def d1_def [symmetric] d1 [symmetric]
    by (auto split: option.splits prod.splits if_splits dest: SaveServerAuthorizations_life)
qed

lemma authorize_local_node:
  "authorize_local H p d w = Inr w' \<Longrightarrow> node p w \<noteq> None \<Longrightarrow> \<exists>d'. node p w' = Some d' \<and> same_life d d'"
  by (auto simp: authorize_local_def Let_def st_get_set same_life_def split: if_splits prod.splits
      dest!: SetLocalAuthorization_life)

lemma server_tries_node:
  "server_tries H p u n w = Inr (b, w') \<Longrightarrow> node p w = Some d \<Longrightarrow> \<exists>d'. node p w' = Some d' \<and> same_life d d'"
proof (induction n arbitrary: w d)
  case (Suc n)
  from Suc.prems(1) obtain ok w1 where w1: "StartServerOnce H p w = Inr (ok, w1)"
    and r: "(if ok then Inr (True, w1) else server_tries H p u n w1) = Inr (b, w')"
    by (auto elim!: bindE_InrE)
  from w1 Suc.prems(2) obtain d1 where d1: "node p w1 = Some d1" "same_life d d1"
    by (auto simp: StartServerOnce_def get_display_Inr Let_def st_get_set same_life_def split: if_splits elim!: bindE_InrE)
  then show ?case
    using r Suc.IH [of w1 d1] by (cases ok) (auto simp: same_life_def)
qed (simp add: same_life_def split: if_splits)

lemma start_session_node:
  "start_session H p w = Inr w' \<Longrightarrow> \<exists>d. node p w = Some d \<and>
    (node p w' = Some d \<or> (\<exists>x. x \<noteq> -1 \<and> node p w' = Some (d\<lparr>d_pid := x, d_status := running\<rparr>)))"
  unfolding start_session_def
  by (elim bindE_InrE) (auto simp: get_display_Inr Let_def st_get_set split: if_splits)

lemma start_session_lives:
  assumes "start_session H p w = Inr w'" "node p w = Some d" "d_status d = notRunning" "d_pid d = -1"
  shows "\<exists>d'. node p w' = Some d' \<and> display_ok d' \<and> d_status d' \<in> {running, notRunning}"
  using start_session_node [OF assms(1)] assms(2-) by (auto simp: display_ok_def)

lemma StartDisplay_lives:
  assumes "StartDisplay H p w = Inr w'" "st_ok (w_displays w)" "node p w = Some d" "d_status d = notRunning" "d_pid d = -1"
  shows "node p w' = None \<or> (\<exists>d'. node p w' = Some d' \<and> display_ok d' \<and> d_status d' \<in> {running, notRunning})"
proof -
  from assms(1,3) obtain d1 where d1: "LoadServerResources (h_ext H) (h_xlib H) (dm_db w) d = Inr d1"
    unfolding StartDisplay_def by (elim bindE_InrE) (simp add: get_display_Inr)
  then have same: "same_life d d1"
    using LoadServerResources_life by blast
  show ?thesis
  proof (cases "dt_location (d_displayType d1)")
    case Local
    let ?d1 = "d1\<lparr>d_server := (d_server d1)\<lparr>sr_pingInterval := 0\<rparr>\<rparr>"
    from assms(1,3) d1 Local have "bindE (authorize_local H p ?d1 w)
        (\<lambda>w1. bindE (get_display p w1) (\<lambda>e.
          bindE (if d_serverPid e = -1 then StartServer H p w1 else Inr (True, w1)) (\<lambda>(ok, w2).
            if ok then start_session H p w2 else Inr (RemoveDisplay p w2)))) = Inr w'"
      by (simp add: StartDisplay_def get_display_def deref_def)
    then obtain w1 e x where w1: "authorize_local H p ?d1 w = Inr w1" "node p w1 = Some e"
      and x: "(if d_serverPid e = -1 then StartServer H p w1 else Inr (True, w1)) = Inr x"
        "(case x of (ok, w2) \<Rightarrow> if ok then start_session H p w2 else Inr (RemoveDisplay p w2)) = Inr w'"
      by (elim bindE_InrE) (auto simp: get_display_Inr)
    obtain ok w2 where ok: "x = (ok, w2)" by (cases x)
    from authorize_local_node [OF w1(1)] assms(3) w1(2) have e: "same_life ?d1 e" by auto
    have st: "st_ok (w_displays w1)" using step_at_authorize [OF w1(1)] assms(2) by (simp add: step_at_def)
    have "\<exists>d2. node p w2 = Some d2 \<and> same_life e d2 \<and> st_ok (w_displays w2)"
    proof (cases "d_serverPid e = -1")
      case True
      with x(1) ok have s: "StartServer H p w1 = Inr (ok, w2)" by simp
      with w1(2) have "\<exists>d2. node p w2 = Some d2 \<and> same_life e d2"
        unfolding StartServer_def by (elim bindE_InrE) (auto simp: Let_def dest!: server_tries_node)
      with step_at_StartServer [OF s] st show ?thesis by (simp add: step_at_def)
    qed (use x(1) ok w1(2) st in \<open>simp add: same_life_def\<close>)
    then obtain d2 where d2: "node p w2 = Some d2" "same_life e d2" "st_ok (w_displays w2)" by blast
    have "d_status d2 = notRunning" "d_pid d2 = -1"
      using d2(2) e same assms(4,5) by (simp_all add: same_life_def)
    with d2 x(2) ok start_session_lives [of H p w2 w' d2] show ?thesis
      by (cases ok) (auto simp: RemoveDisplay_get)
  next
    case Foreign
    with assms(1,3) d1 obtain w1 d2 where w1: "start_session H p w1 = Inr w'" "node p w1 = Some d2" "same_life d1 d2"
      by (auto simp: StartDisplay_def get_display_def deref_def Let_def st_get_set same_life_def
          split: option.splits prod.splits dest!: SaveServerAuthorizations_display)
    moreover have "d_status d2 = notRunning" "d_pid d2 = -1"
      using w1(3) same assms(4,5) by (simp_all add: same_life_def)
    ultimately show ?thesis using start_session_lives [of H p w1 w' d2] by auto
  qed
qed

lemma evolves_StartDisplay:
  assumes "StartDisplay H p w = Inr w'" "node p w = Some d" "d_status d = notRunning"
  shows "evolves w w'"
proof (rule evolves_at)
  show "only_at p w w'" using StartDisplay_step [OF assms(1)] by (simp add: only_at_step)
  assume ok: "st_ok (w_displays w)" "\<forall>d. node p w = Some d \<longrightarrow> display_ok d"
  with assms(2,3) have "d_pid d = -1" by (auto simp: display_ok_def)
  from StartDisplay_lives [OF assms(1) ok(1) assms(2,3) this] show "lives_on (node p w) (node p w')"
    using assms(2,3) by (auto simp: lives_on_def)
qed

lemma evolves_put:
  assumes "node p w = Some d" "same_life d d'" "d_serverPid d' = d_serverPid d"
  shows "evolves w (put_display p d' w)"
  by (rule evolves_at [of p])
    (use assms in \<open>auto simp: only_at_step st_get_set lives_on_def same_life_def display_ok_def split: displayStatus.splits\<close>)

section \<open>Reaping\<close>

lemma only_at_put: "only_at p u w \<Longrightarrow> only_at p u (put_display p d w)"
  by (erule only_at_trans) (simp add: only_at_step)

lemma only_at_Stop: "StopDisplay p v = Inr w \<Longrightarrow> only_at p u v \<Longrightarrow> only_at p u w"
  by (meson only_at_trans only_at_step step_at_StopDisplay)

lemma only_at_Restart: "RestartDisplay p f v = Inr w \<Longrightarrow> only_at p u v \<Longrightarrow> only_at p u w"
  by (meson only_at_trans only_at_step step_at_RestartDisplay)

text \<open>The end of every branch for a session that has ended.\<close>

definition ended :: "nat \<Rightarrow> 'a world_scheme \<Rightarrow> 'a world_scheme \<Rightarrow> bool" where
  "ended p w w' \<longleftrightarrow> only_at p w w' \<and> lives_on (node p w) (node p w')"

lemma ended_evolves:
  assumes "st_ok (w_displays w) \<Longrightarrow> ended p w w'"
  shows "evolves w w'"
proof (cases "st_ok (w_displays w)")
  case True
  with assms show ?thesis by (intro evolves_at [of p]) (simp_all add: ended_def)
qed (simp add: evolves_def displays_ok_def)

lemma ended_Stop:
  assumes "StopDisplay p v = Inr w'" "only_at p w v" "st_ok (w_displays w)" "node p w = Some d"
  shows "ended p w w'"
proof -
  have "st_ok (w_displays v)" using assms(2,3) by (simp add: only_at_def)
  from StopDisplay_node [OF assms(1) this] only_at_Stop [OF assms(1,2)] assms(4) show ?thesis
    by (auto simp: ended_def lives_on_def display_ok_def split: option.splits)
qed

lemma ended_Restart:
  assumes "RestartDisplay p f v = Inr w'" "only_at p w v" "node p w = Some d" "d_status d \<noteq> zombie"
    "node p v = Some e" "d_pid e = -1"
  shows "ended p w w'"
  using RestartDisplay_node [OF assms(1)] only_at_Restart [OF assms(1,2)] assms(3-)
  by (auto simp: ended_def lives_on_def display_ok_def)

lemma ended_counted:
  assumes "counted_restart p v = Inr w'" "only_at p w v" "st_ok (w_displays w)" "node p w = Some d"
    "node p v = Some e" "d_pid e = -1" "d_status e = d_status d"
  shows "ended p w w'"
proof -
  from assms(1) obtain e' where e': "node p v = Some e'" unfolding counted_restart_def
    by (elim bindE_InrE) (simp add: get_display_Inr)
  with assms(5) have ee: "get_display p v = Inr e" by (simp add: get_display_Inr)
  show ?thesis
    using assms(1) ee unfolding counted_restart_def
    by (auto simp: Let_def st_get_set assms split: if_splits
        intro: ended_Stop [OF _ _ assms(3,4)] ended_Restart [OF _ _ assms(4)] only_at_put [OF assms(2)] assms(2))
qed

lemma ended_put:
  assumes "ended p w v" "node p v = Some e" "same_life e e'" "d_serverPid e' = d_serverPid e"
  shows "ended p w (put_display p e' v)"
  using assms by (auto simp: ended_def lives_on_def st_get_set same_life_def display_ok_def
      split: option.splits displayStatus.splits intro: only_at_put)

lemma ended_reserver:
  assumes "reserver now p v = Inr w'" "only_at p w v" "st_ok (w_displays w)" "node p w = Some d"
    "node p v = Some e" "d_pid e = -1" "d_status e = d_status d"
  shows "ended p w w'"
proof -
  let ?e = "e\<lparr>d_startTries := 0\<rparr>"
  define crash where "crash \<longleftrightarrow> d_lastReserv e \<noteq> 0 \<and> now - d_lastReserv e < XDM_BROKEN_INTERVAL"
  define e1 where "e1 = ?e\<lparr>d_reservTries := (if crash then d_reservTries e + 1 else 0)\<rparr>"
  have g: "get_display p v = Inr e" using assms(5) by (simp add: get_display_Inr)
  have r: "(if dt_origin (d_displayType e) = FromXDMCP \<or> d_status e = zombie then StopDisplay p (put_display p ?e v)
      else bindE (if crash \<and> sr_reservAttempts (d_server e1) \<le> d_reservTries e1
                  then StopDisplay p (put_display p e1 v) else RestartDisplay p True (put_display p e1 v))
             (\<lambda>w2. bindE (get_display p w2) (\<lambda>d2. Inr (put_display p (d2\<lparr>d_lastReserv := now\<rparr>) w2)))) = Inr w'"
    using assms(1) unfolding reserver_def g bindE.simps Let_def crash_def e1_def
    by (simp split del: if_split cong: if_cong)
  show ?thesis
  proof (cases "dt_origin (d_displayType e) = FromXDMCP \<or> d_status e = zombie")
    case True
    then show ?thesis using r by (auto intro: ended_Stop [OF _ only_at_put [OF assms(2)] assms(3,4)])
  next
    case False
    with r obtain w2 d2 where w2: "(if crash \<and> sr_reservAttempts (d_server e1) \<le> d_reservTries e1
        then StopDisplay p (put_display p e1 v) else RestartDisplay p True (put_display p e1 v)) = Inr w2"
      "node p w2 = Some d2" "w' = put_display p (d2\<lparr>d_lastReserv := now\<rparr>) w2"
      unfolding if_not_P [OF False] by (elim bindE_InrE) (simp add: get_display_Inr)
    have "node p (put_display p e1 v) = Some e1" "d_pid e1 = -1" using assms(5,6) by (simp_all add: st_get_set e1_def)
    with w2(1) False assms(7) have "ended p w w2"
      by (auto split: if_splits intro: ended_Stop [OF _ only_at_put [OF assms(2)] assms(3,4)]
          ended_Restart [OF _ only_at_put [OF assms(2)] assms(4)])
    then show ?thesis unfolding w2(3) by (rule ended_put [OF _ w2(2)]) (simp_all add: same_life_def)
  qed
qed

lemma SendFailed_displays: "SendFailed p r w = Inr w' \<Longrightarrow> w_displays w' = w_displays w"
  unfolding SendFailed_def
  by (elim bindE_InrE) (auto simp: send_failed_def flush_def Let_def split: option.splits)

lemma evolves_reap_session:
  assumes "reap_session now p status w = Inr w'"
  shows "evolves w w'"
proof -
  from assms obtain d where d: "node p w = Some d"
    unfolding reap_session_def by (elim bindE_InrE) (simp add: get_display_Inr)
  let ?d = "d\<lparr>d_pid := -1\<rparr>"
  let ?w = "put_display p ?d w"
  have at: "only_at p w ?w" "node p ?w = Some ?d" using d by (simp_all add: only_at_step st_get_set)
  have "ended p w w'" if ok: "st_ok (w_displays w)"
  proof -
    note stop = ended_Stop [OF _ _ ok d]
    have restart: "ended p w w'"
      if "RestartDisplay p f (put_display p e ?w) = Inr w'" "d_pid e = -1" "d_status d \<noteq> zombie" for f e
      by (rule ended_Restart [OF that(1) only_at_put [OF at(1)] d that(3) _ that(2)]) (simp add: st_get_set d)
    have sent: "ended p w w'" if "SendFailed p r ?w = Inr v" "counted_restart p v = Inr w'" for r v
      using SendFailed_displays [OF that(1)] at
      by (intro ended_counted [OF that(2) only_at_trans [OF at(1) only_at_same] ok d, of ?d]) simp_all
    have g: "get_display p w = Inr d" using d by (simp add: get_display_Inr)
    show ?thesis
      using assms unfolding reap_session_def g bindE.simps Let_def
      by (auto simp: st_get_set d at split: if_splits elim!: bindE_InrE dest: sent
          intro: stop restart ended_counted [OF _ _ ok d] ended_reserver [OF _ _ ok d] only_at_put at)
  qed
  then show ?thesis by (rule ended_evolves)
qed

lemma evolves_reap_server:
  assumes "reap_server p w = Inr w'"
  shows "evolves w w'"
proof -
  from assms obtain d where d: "node p w = Some d" and w': "w' =
      (let e = d\<lparr>d_serverPid := -1\<rparr>; w1 = put_display p e w
       in case d_status e of
            zombie \<Rightarrow> RemoveDisplay p w1
          | phoenix \<Rightarrow> put_display p (e\<lparr>d_status := notRunning\<rparr>) w1
          | running \<Rightarrow> if d_pid e \<noteq> -1 then TerminateProcess (d_pid e) SIGTERM w1 else w1
          | notRunning \<Rightarrow> w1)"
    unfolding reap_server_def by (elim bindE_InrE) (auto simp: get_display_Inr Let_def)
  have "step_at p w w'"
    unfolding w' Let_def by (cases "d_status d") (simp_all add: step_at_more)
  then show ?thesis
  proof (intro evolves_at [OF only_at_step])
    assume "st_ok (w_displays w)" "\<forall>d. node p w = Some d \<longrightarrow> display_ok d"
    then show "lives_on (node p w) (node p w')"
      using d unfolding w' Let_def lives_on_def
      by (cases "d_status d") (simp_all add: display_ok_def st_get_set RemoveDisplay_get st_ok_set)
  qed
qed

lemma evolves_reap_child: "reap_child now pid status w = Inr w' \<Longrightarrow> evolves w w'"
  by (auto simp: reap_child_def split: option.splits dest: evolves_reap_session evolves_reap_server)

section \<open>Walks over the list\<close>

lemma evolves_for_ptrs:
  assumes "\<And>p w w'. f p w = Inr w' \<Longrightarrow> evolves w w'"
  shows "for_ptrs f ps w = Inr w' \<Longrightarrow> evolves w w'"
  by (induction ps arbitrary: w) (auto elim!: bindE_InrE dest: assms intro: evolves_trans)

lemma evolves_until_ptrs:
  assumes "\<And>p w b w'. f p w = Inr (b, w') \<Longrightarrow> evolves w w'"
  shows "until_ptrs f ps w = Inr (b, w') \<Longrightarrow> evolves w w'"
  by (induction ps arbitrary: w) (auto elim!: bindE_InrE dest: assms intro: evolves_trans split: if_splits)

lemma evolves_MarkDisplay: "MarkDisplay p w = Inr w' \<Longrightarrow> evolves w w'"
  by (auto simp: MarkDisplay_def mapE_Inr_iff get_display_Inr same_life_def intro!: evolves_put)

lemma evolves_CheckDisplayStatus:
  assumes "CheckDisplayStatus H p w = Inr w'"
  shows "evolves w w'"
proof -
  from assms obtain d where d: "node p w = Some d"
    unfolding CheckDisplayStatus_def by (elim bindE_InrE) (simp add: get_display_Inr)
  have g: "get_display p w = Inr d" using d by (simp add: get_display_Inr)
  let ?w = "if d_state d = NewEntry then put_display p (d\<lparr>d_state := OldEntry\<rparr>) w else w"
  have at: "evolves w ?w" "node p ?w = Some (if d_state d = NewEntry then d\<lparr>d_state := OldEntry\<rparr> else d)"
    using d by (auto simp: same_life_def st_get_set intro: evolves_put)
  have "evolves w w'" if "StartDisplay H p ?w = Inr w'" "d_status d = notRunning"
    using evolves_StartDisplay [OF that(1) at(2)] that(2) at(1) by (auto intro: evolves_trans)
  with assms at(1) show ?thesis
    unfolding CheckDisplayStatus_def g bindE.simps Let_def
    by (auto split: if_splits fileState.splits dest: evolves_StopDisplay)
qed

lemma evolves_StartDisplays: "StartDisplays H w = Inr w' \<Longrightarrow> evolves w w'"
  unfolding StartDisplays_def ForEachDisplay_def by (erule evolves_for_ptrs [rotated]) (rule evolves_CheckDisplayStatus)

lemma evolves_AddDisplay: "AddDisplay H w = Inr w' \<Longrightarrow> evolves w w'"
  unfolding AddDisplay_def UntilDisplay_def mapE_Inr_iff
  by (auto elim!: evolves_until_ptrs [rotated])
    (auto simp: AddDynamicDisplay_def mapE_Inr_iff get_display_Inr split: if_splits
      elim!: bindE_InrE intro: evolves_StartDisplay)

section \<open>New displays\<close>

lemma evolves_new:
  assumes "display_ok d" "st_new d (w_displays w) = (p, S)"
  shows "evolves w (w\<lparr>w_displays := S\<rparr>)"
proof (cases "displays_ok w")
  case True
  then have ok: "st_ok (w_displays w)" by (simp add: displays_ok_def)
  have S: "S = snd (st_new d (w_displays w))" using assms(2) by simp
  have nx: "st_next S = Suc (st_next (w_displays w))" unfolding S by (simp add: st_new_def)
  have get: "st_get S q = (if q = st_next (w_displays w) then Some d else node q w)" for q
    unfolding S using ok by (simp add: st_get_new)
  have "d_status e = zombie" if "node q w = Some d'" "d_status d' = zombie" "st_get S q = Some e" for q d' e
    using that live_below_next [OF ok that(1)] by (simp add: get)
  moreover have "st_ok S" "all_nodes st_get display_ok S"
    using True assms(1) unfolding S displays_ok_def by (simp_all add: nodes.inv_new nodes.all_nodes_new)
  ultimately show ?thesis using get nx by (simp add: evolves_def displays_ok_def)
qed (simp add: evolves_def)

lemma new_display_ok: "display_ok (new_display n c)"
  by (simp add: display_ok_def new_display_def)

lemma evolves_NewDisplay: "NewDisplay m n c w = (r, w') \<Longrightarrow> evolves w w'"
  by (auto simp: NewDisplay_def split: if_splits prod.splits intro: evolves_new [OF new_display_ok])

text \<open>What a line of the servers file writes.\<close>

lemma evolves_put_line:
  "node p w = Some d \<Longrightarrow>
    evolves w (put_display p (d\<lparr>d_state := s, d_class := c, d_displayType := t, d_argv := a\<rparr>) w)"
  "node p w = Some d \<Longrightarrow> evolves w (put_display p (d\<lparr>d_displayType := t, d_argv := a\<rparr>) w)"
  by (simp_all add: evolves_put same_life_def)

lemma evolves_ParseDisplay: "ParseDisplay E s w = Inr w' \<Longrightarrow> evolves w w'"
  unfolding ParseDisplay_def
  by (auto simp: get_display_Inr split: option.splits list.splits prod.splits if_splits elim!: bindE_InrE
      intro: evolves_put_line evolves_trans [OF evolves_NewDisplay evolves_put_line(2)])

lemma evolves_scan_lines: "scan_lines E ls w = Inr w' \<Longrightarrow> evolves w w'"
  by (induction ls arbitrary: w)
    (auto simp: Let_def elim!: bindE_InrE split: if_splits dest: evolves_ParseDisplay intro: evolves_trans)

lemma evolves_ScanServers: "ScanServers H w = Inr w' \<Longrightarrow> evolves w w'"
  by (auto simp: ScanServers_def Let_def split: if_splits option.splits
      dest!: evolves_scan_lines evolves_ParseDisplay)

section \<open>The operations of the daemon\<close>

lemma evolves_reread_config: "reread_config H w = Inr w' \<Longrightarrow> evolves w w'"
  by (rule evolves_same) (auto simp: reread_config_def split: option.splits elim!: bindE_InrE)

lemma evolves_load_globals: "load_globals H w = Inr w' \<Longrightarrow> evolves w w'"
  by (rule evolves_same) (auto simp: load_globals_def mapE_Inr_iff)

lemma evolves_reload_config: "reload_config H w = Inr w' \<Longrightarrow> evolves w w'"
  by (auto simp: reload_config_def elim!: bindE_InrE intro: evolves_trans evolves_reread_config evolves_load_globals)

lemma evolves_reload_access: "reload_access H w = Inr w' \<Longrightarrow> evolves w w'"
  by (rule evolves_same) (auto simp: reload_access_def mapE_Inr_iff Let_def split: prod.splits)

lemma evolves_times [simp]:
  "evolves (SetConfigFileTime H w) v = evolves w v" "evolves (SetAccessFileTime H w) v = evolves w v"
  by (simp_all add: SetConfigFileTime_def SetAccessFileTime_def split: option.split)

lemmas evolves_files = evolves_reload_config evolves_reload_access evolves_ScanServers evolves_StartDisplays

lemma evolves_Mark_all: "ForEachDisplay MarkDisplay w = Inr w' \<Longrightarrow> evolves w w'"
  unfolding ForEachDisplay_def by (erule evolves_for_ptrs [rotated]) (rule evolves_MarkDisplay)

lemma evolves_RescanServers:
  assumes "RescanServers H w = Inr w'"
  shows "evolves w w'"
proof -
  from assms obtain w1 w2 w3 w4 where
    "ForEachDisplay MarkDisplay w = Inr w1" "reload_config H (SetConfigFileTime H w1) = Inr w2"
    "ScanServers H w2 = Inr w3" "reload_access H (SetAccessFileTime H w3) = Inr w4" "StartDisplays H w4 = Inr w'"
    unfolding RescanServers_def by (elim bindE_InrE) blast
  then show ?thesis
    by (auto dest!: evolves_Mark_all evolves_files) (meson evolves_trans)
qed

lemma evolves_RescanIfMod:
  assumes "RescanIfMod H w = Inr w'"
  shows "evolves w w'"
proof -
  from assms obtain w1 w2 where
    w1: "(case Option.bind (g_config (dm_vars w)) (\<lambda>c. changed H c (m_ConfigModTime w)) of
            None \<Rightarrow> Inr w | Some t \<Rightarrow> reload_config H (w\<lparr>m_ConfigModTime := t\<rparr>)) = Inr w1"
    and w2: "(case (if first_is CHR ''/'' (servers_of (dm_vars w1)) then changed H (servers_of (dm_vars w1)) (m_ServersModTime w1)
              else None) of
            None \<Rightarrow> Inr w1
          | Some t \<Rightarrow> bindE (ForEachDisplay MarkDisplay (w1\<lparr>m_ServersModTime := t\<rparr>)) (ScanServers H)) = Inr w2"
    and w': "(case (if accessFile_of (dm_vars w2) \<noteq> [] then changed H (accessFile_of (dm_vars w2)) (m_AccessFileModTime w2)
              else None) of
            None \<Rightarrow> Inr w2 | Some t \<Rightarrow> reload_access H (w2\<lparr>m_AccessFileModTime := t\<rparr>)) = Inr w'"
    unfolding RescanIfMod_def Let_def by (elim bindE_InrE)
  have "evolves w w1" using w1 by (auto split: option.splits dest: evolves_reload_config)
  moreover have "evolves w1 w2"
    using w2 by (auto split: option.splits if_splits elim!: bindE_InrE dest!: evolves_Mark_all evolves_ScanServers
        intro: evolves_trans)
  moreover have "evolves w2 w'"
    using w' by (auto split: option.splits if_splits dest: evolves_reload_access)
  ultimately show ?thesis by (blast intro: evolves_trans)
qed

lemma evolves_reap_all: "reap_all cs w = Inr w' \<Longrightarrow> evolves w w'"
proof (induction cs arbitrary: w)
  case (Cons c cs)
  obtain H pid st where c: "c = (H, pid, st)" by (metis prod_cases3)
  from Cons.prems obtain w1 w2 where
    "(if g_autoRescan (dm_vars w) then RescanIfMod H w else Inr w) = Inr w1"
    "reap_child (h_now H) pid st w1 = Inr w2" "reap_all cs w2 = Inr w'"
    by (auto simp: c elim!: bindE_InrE)
  then show ?case
    using Cons.IH by (auto split: if_splits dest!: evolves_RescanIfMod evolves_reap_child intro: evolves_trans)
qed simp

lemma evolves_WaitForChild: "WaitForChild H cs w = Inr w' \<Longrightarrow> evolves w w'"
  unfolding WaitForChild_def
  by (elim bindE_InrE) (auto dest!: evolves_reap_all evolves_StartDisplays intro: evolves_trans)

lemma evolves_StopAll: "StopAll w = Inr w' \<Longrightarrow> evolves w w'"
proof -
  assume "StopAll w = Inr w'"
  then have "evolves (w\<lparr>xs_sockets := DestroyWellKnownSockets (xs_sockets w)\<rparr>) w'"
    unfolding StopAll_def ForEachDisplay_def by (rule evolves_for_ptrs [rotated]) (rule evolves_StopDisplay)
  moreover have "evolves w (w\<lparr>xs_sockets := DestroyWellKnownSockets (xs_sockets w)\<rparr>)" by (rule evolves_same) simp
  ultimately show ?thesis by (rule evolves_trans [rotated])
qed

section \<open>Packets\<close>

lemma evolves_manage_new:
  assumes "manage_new H from fl fd pp x p w = Inr w'" "node p w = Some d" "d_status d = notRunning"
  shows "evolves w w'"
proof -
  from assms obtain a port ct b w1 d2 where c: "chooser_wanted H a ct w = Inr (b, w1)"
    and s: "StartDisplay H p ((put_display p d2 w1)\<lparr>xs_protos := DisposeProtoDisplay pp (xs_protos w1)\<rparr>) = Inr w'"
    and d2: "same_life d d2" "d_serverPid d2 = d_serverPid d"
    unfolding manage_new_def
    by (auto simp: get_display_Inr Let_def xdmcp_display_def same_life_def split: if_splits option.splits elim!: bindE_InrE)
  let ?w = "(put_display p d2 w1)\<lparr>xs_protos := DisposeProtoDisplay pp (xs_protos w1)\<rparr>"
  from chooser_wanted_displays [OF c] have same: "w_displays w1 = w_displays w" by blast
  then have d: "node p w1 = Some d" using assms(2) by simp
  have "node p ?w = Some d2" "d_status d2 = notRunning" using d d2 assms(3) by (simp_all add: st_get_set same_life_def)
  from evolves_StartDisplay [OF s this] have "evolves ?w w'" .
  moreover have "evolves w1 ?w"
    using evolves_put [OF d d2] by (simp add: evolves_def displays_ok_def)
  ultimately show ?thesis using evolves_same [OF same] by (blast intro: evolves_trans)
qed

lemma answered_evolves: "answered w w' \<Longrightarrow> evolves w w'"
  by (rule evolves_same) (simp add: answered_def)

lemma evolves_sends [simp]:
  "evolves w (send_failed from n sid r fd w)" "evolves w (send_refuse from sid fd w)"
  by (intro answered_evolves answered_sends answered_refl)+

lemma new_display_status [simp]: "d_status (new_display n c) = notRunning"
  by (simp add: new_display_def)

lemma NewDisplay_node:
  "NewDisplay m n c w = (Some p, w') \<Longrightarrow> st_ok (w_displays w) \<Longrightarrow> node p w' = Some (new_display n c)"
  using nodes.get_new [of "w_displays w" "new_display n c" p]
  by (auto simp: NewDisplay_def split: if_splits prod.splits)

lemma evolves_manage_session:
  assumes "manage_session H from fl fd sid cls pp x w = Inr w'"
  shows "evolves w w'"
proof -
  obtain r where "NetworkAddressToName (h_ext H) (h_resolver H) (g_sourceAddress (dm_vars w)) (g_removeDomainname (dm_vars w))
      (p_connectionType x) (p_connectionAddress x) from (p_displayNumber x) = Inr r"
    using assms unfolding manage_session_def Let_def by (elim bindE_InrE)
  note nm = this
  show ?thesis
  proof (cases r)
    case None
    with assms nm show ?thesis by (auto simp: manage_session_def)
  next
    case (Some name)
    with assms nm obtain w1 where
      w1: "(case FindDisplayByName name (w_displays w) of None \<Rightarrow> Inr w | Some q \<Rightarrow> StopDisplay q w) = Inr w1"
      and r: "(if \<not> x_calloc (h_ext H) 1 \<or> \<not> x_calloc (h_ext H) 2
          then Inr (send_failed from name sid ''out of memory'' fd w1)
          else case NewDisplay (x_calloc (h_ext H) 3) name (if cls = [] then None else Some (string_of cls)) w1 of
                 (None, w2) \<Rightarrow> Inr (send_failed from name sid ''out of memory'' fd w2)
               | (Some p, w2) \<Rightarrow> manage_new H from fl fd pp x p w2) = Inr w'"
      unfolding manage_session_def Let_def by (auto elim!: bindE_InrE)
    have a: "evolves w w1" using w1 by (auto split: option.splits dest: evolves_StopDisplay)
    have "evolves w1 w'"
    proof (cases "displays_ok w1")
      case True
      obtain q w2 where new: "NewDisplay (x_calloc (h_ext H) 3) name (if cls = [] then None else Some (string_of cls)) w1 = (q, w2)"
        by fastforce
      have "evolves w2 w'" if "q = Some p" "manage_new H from fl fd pp x p w2 = Inr w'" for p
        using evolves_manage_new [OF that(2) NewDisplay_node] new that(1) True by (auto simp: displays_ok_def)
      then have "evolves w2 w' \<or> w' = send_failed from name sid ''out of memory'' fd w1"
        using r unfolding new by (auto split: if_splits option.splits)
      with evolves_NewDisplay [OF new] show ?thesis by (auto intro: evolves_trans)
    qed (simp add: evolves_def)
    with a show ?thesis by (rule evolves_trans)
  qed
qed

lemma evolves_manage: "manage H from fl len fd b w = Inr w' \<Longrightarrow> evolves w w'"
  unfolding manage_def
  by (auto split: option.splits prod.splits if_splits elim!: bindE_InrE dest: evolves_manage_session
)

lemma evolves_ProcessRequestSocket: "ProcessRequestSocket H packet from fl fd w = Inr w' \<Longrightarrow> evolves w w'"
  unfolding ProcessRequestSocket_def broadcast_respond_def query_respond_def
  by (auto simp: Let_def split: option.splits prod.splits if_splits
      intro: answered_evolves direct_query_respond_answers indirect_respond_answers forward_respond_answers
        request_respond_answers send_alive_answers dest: evolves_manage)

lemma evolves_chooser_input: "chooser_input H A reads fd w = Inr w' \<Longrightarrow> evolves w w'"
  by (auto simp: chooser_input_def mapE_Inr_iff split: if_splits intro: evolves_same)

lemma evolves_ProcessListenSockets: "ProcessListenSockets rc fds w = Inr w' \<Longrightarrow> evolves w w'"
proof (induction fds arbitrary: w)
  case (Cons fd fds)
  obtain H packet addr addrlen where rc: "rc fd = (H, packet, addr, addrlen)" by (metis prod_cases4)
  with Cons.prems obtain w1 where "ProcessRequestSocket H packet addr addrlen (int fd) w = Inr w1"
    "ProcessListenSockets rc fds w1 = Inr w'"
    by (auto elim!: bindE_InrE)
  with Cons.IH show ?case by (auto dest!: evolves_ProcessRequestSocket intro: evolves_trans)
qed simp

lemma evolves_WaitForSomething: "WaitForSomething H A w = Inr w' \<Longrightarrow> evolves w w'"
  unfolding WaitForSomething_def
  by (auto split: if_splits option.splits elim!: bindE_InrE
      dest!: evolves_WaitForChild evolves_chooser_input evolves_ProcessListenSockets) (meson evolves_trans)+

lemma evolves_turn:
  assumes "turn H A w = Inr w'"
  shows "evolves w w'"
proof -
  from assms obtain w1 w2 where
    "(if m_Rescan w then mapE (\<lambda>w1. w1\<lparr>m_Rescan := False\<rparr>) (RescanServers H w) else Inr w) = Inr w1"
    "(if m_AddOne w1 then mapE (\<lambda>w2. w2\<lparr>m_AddOne := False\<rparr>) (AddDisplay H w1) else Inr w1) = Inr w2"
    "WaitForSomething H A w2 = Inr w'"
    unfolding turn_def by (elim bindE_InrE)
  then have "evolves w w1" "evolves w1 w2" "evolves w2 w'"
    by (auto simp: mapE_Inr_iff split: if_splits dest: evolves_RescanServers evolves_AddDisplay evolves_WaitForSomething)
  then show ?thesis by (blast intro: evolves_trans)
qed

lemma evolves_start_up:
  assumes "start_up H w = Inr w'"
  shows "evolves w w'"
proof -
  from assms obtain w1 w2 w3 w4 where w: "reread_config H w = Inr w1"
    "load_globals H (SetConfigFileTime H w1) = Inr w2"
    "reload_access H (SetAccessFileTime H (w2\<lparr>xs_sessionID := init_session_id (h_now H),
       xs_sockets := CreateWellKnownSockets (h_net H) (xs_sockets w2)\<rparr>)) = Inr w3"
    "ScanServers H w3 = Inr w4" "StartDisplays H w4 = Inr w'"
    unfolding start_up_def Let_def by (elim bindE_InrE)
  have "evolves (w2\<lparr>xs_sessionID := init_session_id (h_now H),
      xs_sockets := CreateWellKnownSockets (h_net H) (xs_sockets w2)\<rparr>) w3"
    using evolves_reload_access [OF w(3)] unfolding evolves_times .
  then have "evolves w2 w3" by (simp add: evolves_def displays_ok_def)
  moreover have "evolves w1 w2" using evolves_load_globals [OF w(2)] unfolding evolves_times .
  ultimately show ?thesis
    using evolves_reread_config [OF w(1)] evolves_ScanServers [OF w(4)] evolves_StartDisplays [OF w(5)]
    by (blast intro: evolves_trans)
qed

section \<open>Reachable states\<close>

text \<open>The steps of the main loop under systems \<open>Hs\<close>, and the signals between them.\<close>

definition arrivals_from :: "('db, 'b) dm_host set \<Rightarrow> ('db, 'b) arrivals \<Rightarrow> bool" where
  "arrivals_from Hs A \<longleftrightarrow> (\<forall>fd. fst (ar_packet A fd) \<in> Hs) \<and> (\<forall>c \<in> set (ar_children A). fst c \<in> Hs)"

inductive dm_step :: "('db, 'b) dm_host set \<Rightarrow> 'db daemon \<Rightarrow> 'db daemon \<Rightarrow> bool" for Hs where
  turn: "H \<in> Hs \<Longrightarrow> arrivals_from Hs A \<Longrightarrow> keeps_running w \<Longrightarrow> turn H A w = Inr w' \<Longrightarrow> dm_step Hs w w'"
| RescanNotify: "dm_step Hs w (w\<lparr>m_Rescan := True\<rparr>)"
| AddRequest: "dm_step Hs w (w\<lparr>m_AddOne := True\<rparr>)"
| ChildNotify: "dm_step Hs w (w\<lparr>m_ChildReady := True\<rparr>)"
| StopAll: "StopAll w = Inr w' \<Longrightarrow> dm_step Hs w w'"

inductive dm_reach :: "('db, 'b) dm_host set \<Rightarrow> 'db daemon \<Rightarrow> 'db daemon \<Rightarrow> bool" for Hs w0 where
  here: "dm_reach Hs w0 w0"
| step: "dm_reach Hs w0 w \<Longrightarrow> dm_step Hs w w' \<Longrightarrow> dm_reach Hs w0 w'"

inductive_cases dm_stepE: "dm_step Hs w w'"

lemma evolves_dm_step: "dm_step Hs w w' \<Longrightarrow> evolves w w'"
  by (erule dm_stepE) (auto dest: evolves_turn evolves_StopAll intro: evolves_same)

lemma evolves_dm_reach: "dm_reach Hs w w' \<Longrightarrow> evolves w w'"
  by (induction rule: dm_reach.induct) (auto dest: evolves_dm_step intro: evolves_trans)

text \<open>C2: In every state the daemon can reach, a running display has a session process, a display
  that waits to be started has none, one that waits for its server to end has a server and no
  session, and one being removed has a server to wait for.\<close>

theorem reachable_displays_ok:
  assumes "w_displays w0 = st_empty" "start_up H w0 = Inr w1" "dm_reach Hs w1 w" "st_get (w_displays w) p = Some d"
  shows "case d_status d of
      running \<Rightarrow> d_pid d \<noteq> -1
    | notRunning \<Rightarrow> d_pid d = -1
    | phoenix \<Rightarrow> d_pid d = -1 \<and> d_serverPid d \<noteq> -1
    | zombie \<Rightarrow> d_serverPid d \<noteq> -1"
proof -
  have "displays_ok w0" using assms(1) st_ok_empty by (simp add: displays_ok_def all_nodes_def) (simp add: st_empty_def st_get_def)
  with evolves_start_up [OF assms(2)] evolves_dm_reach [OF assms(3)] have "displays_ok w" by (simp add: evolves_def)
  with assms(4) have "display_ok d" by (simp add: displays_ok_def all_nodes_def)
  then show ?thesis by (simp add: display_ok_def)
qed

text \<open>C3: A display that is being removed is never started again, whatever arrives; and a pointer
  to a display that is gone never becomes the pointer of another.\<close>

theorem removal_is_final:
  assumes "displays_ok w" "dm_reach Hs w w'"
  shows "(\<forall>p d d'. st_get (w_displays w) p = Some d \<longrightarrow> d_status d = zombie \<longrightarrow> st_get (w_displays w') p = Some d' \<longrightarrow>
      d_status d' = zombie) \<and>
    (\<forall>p. p < st_next (w_displays w) \<longrightarrow> st_get (w_displays w) p = None \<longrightarrow> st_get (w_displays w') p = None)"
  using evolves_dm_reach [OF assms(2)] assms(1) by (simp add: evolves_def)

end
