(* ===== verification/Handshake.thy ===== *)
theory Handshake
  imports Xdmcp
begin

text \<open>
  The XDMCP handshake as a client sees it, over the handlers of \<open>Xdmcp\<close>: what one packet can
  do to the displays, who is turned away, and the two packets that start a display.
\<close>

section \<open>A daemon to evaluate\<close>

text \<open>A reader of the wire format for the evaluation of the model: big-endian cardinals, and
  counted arrays.\<close>

definition net8 :: "CARD8 list \<Rightarrow> (CARD8 \<times> CARD8 list) option" where
  "net8 b = (case b of [] \<Rightarrow> None | x # r \<Rightarrow> Some (x, r))"

definition net16 :: "CARD8 list \<Rightarrow> (CARD16 \<times> CARD8 list) option" where
  "net16 b = (case b of x # y # r \<Rightarrow> Some (push_bit 8 (ucast x) OR ucast y, r) | _ \<Rightarrow> None)"

definition net32 :: "CARD8 list \<Rightarrow> (CARD32 \<times> CARD8 list) option" where
  "net32 b = Option.bind (net16 b) (\<lambda>(h, r). map_option (\<lambda>(l, s). (push_bit 16 (ucast h) OR ucast l, s)) (net16 r))"

definition net_array8 :: "CARD8 list \<Rightarrow> (ARRAY8 \<times> CARD8 list) option" where
  "net_array8 b = Option.bind (net16 b) (\<lambda>(n, r).
     if unat n \<le> length r then Some (take (unat n) r, drop (unat n) r) else None)"

primrec net_list :: "(CARD8 list \<Rightarrow> ('x \<times> CARD8 list) option) \<Rightarrow> nat \<Rightarrow> CARD8 list \<Rightarrow> ('x list \<times> CARD8 list) option" where
  "net_list f 0 b = Some ([], b)"
| "net_list f (Suc n) b = Option.bind (f b) (\<lambda>(x, r). map_option (\<lambda>(xs, s). (x # xs, s)) (net_list f n r))"

definition net_counted :: "(CARD8 list \<Rightarrow> ('x \<times> CARD8 list) option) \<Rightarrow> CARD8 list \<Rightarrow> ('x list \<times> CARD8 list) option" where
  "net_counted f b = Option.bind (net8 b) (\<lambda>(n, r). net_list f (unat n) r)"

definition net_reader :: "CARD8 list reader" where
  "net_reader =
     \<lparr>r_buffer = id,
      r_header = (\<lambda>b. Option.bind (net16 b) (\<lambda>(v, b1). Option.bind (net16 b1) (\<lambda>(opc, b2).
                    map_option (\<lambda>(len, b3). ((v, opc, len), b3)) (net16 b2)))),
      r_card8 = net8, r_card16 = net16, r_card32 = net32, r_array8 = net_array8,
      r_array16 = net_counted net16, r_arrayofarray8 = net_counted net_array8\<rparr>"

definition sample_globals :: dm_globals where
  "sample_globals =
     \<lparr>g_config = None, g_servers = None, g_request_port = 177, g_debugLevel = 0, g_errorLogFile = None,
      g_daemonMode = False, g_pidFile = None, g_lockPidFile = False, g_authDir = Some ''/var/lib/xdm'',
      g_autoRescan = True, g_removeDomainname = True, g_keyFile = None, g_accessFile = None,
      g_exportList = None, g_randomFile = None, g_prngdSocket = None, g_prngdPort = 0,
      g_randomDevice = None, g_greeterLib = None, g_choiceTimeout = 15, g_sourceAddress = False,
      g_willing = None\<rparr>"

definition sample_sockets :: sock_state where
  "sample_sockets =
     \<lparr>ss_listen = st_empty, ss_mask = {}, ss_max = 0, ss_close = \<lparr>cm_fds = {}, cm_max = 0\<rparr>,
      ss_chooserFd = -1, ss_chooserFd6 = -1, ss_trace = []\<rparr>"

text \<open>The daemon before its first client, with an access file that is empty or absent.\<close>

definition sample_daemon :: "string option \<Rightarrow> (string \<times> string) list xdm_state" where
  "sample_daemon accessFile =
     \<lparr>w_displays = st_empty, w_trace = [],
      dm_auth = \<lparr>as_mit = None, as_xdm = None, as_gen = sample_generator\<rparr>, dm_files = [], dm_db = None,
      dm_vars = sample_globals\<lparr>g_accessFile := accessFile\<rparr>, xs_protos = st_empty, xs_indirect = [],
      xs_choices = [], xs_database = [], xs_sessionID = 41, xs_sockets = sample_sockets\<rparr>"

definition sample_host :: "((string \<times> string) list, CARD8 list) xdm_host" where
  "sample_host =
     \<lparr>h_ext = std_ext, h_xlib = sample_xlib, h_rng = sample_rng, h_files = sample_fs,
      h_fork = (\<lambda>n. 100 + int n), h_pause = (\<lambda>_. [NoneYet]), h_patience = 1,
      h_resolver = \<lparr>rs_canonname = (\<lambda>_. None), rs_getnameinfo = (\<lambda>_. None)\<rparr>,
      h_crypt = \<lparr>c_wrap = (\<lambda>k d. d), c_unwrap = (\<lambda>k d. d), c_increment = id\<rparr>, h_keys = None,
      h_now = 1000, h_run = (\<lambda>_. None), h_reader = net_reader, h_connect = (\<lambda>_. None)\<rparr>"

section \<open>What a packet can do\<close>

text \<open>C1: Whatever arrives, every packet the daemon sends states its own length, and the displays
  stay as they are unless the packet is a MANAGE packet that repeats the session identifier of a
  handshake its sender began for that display number.\<close>

theorem ProcessRequestSocket_safe:
  assumes "ProcessRequestSocket H packet from fl fd w = Inr w'"
  shows "(framed_trace w \<longrightarrow> framed_trace w') \<and>
    (w_displays w' = w_displays w \<or>
     (\<exists>bs v len b dn sid b1 b2 r pp x.
        packet = Some bs \<and> r_header (h_reader H) (r_buffer (h_reader H) bs) = Some ((v, opcode MANAGE, len), b) \<and>
        r_card32 (h_reader H) b = Some (sid, b1) \<and> r_card16 (h_reader H) b1 = Some (dn, b2) \<and>
        r_array8 (h_reader H) b2 = Some r \<and>
        FindProtoDisplay from fl dn (xs_protos w) = Some pp \<and>
        st_get (xs_protos w) pp = Some x \<and> p_sessionID x = sid))"
proof -
  from assms consider "answered w w'"
    | bs v len b where "packet = Some bs"
        "r_header (h_reader H) (r_buffer (h_reader H) bs) = Some ((v, opcode MANAGE, len), b)"
        "manage H from fl (unat len) fd b w = Inr w'"
    unfolding ProcessRequestSocket_def broadcast_respond_def query_respond_def
    by (auto simp: Let_def bind_eq_Some_conv split: option.splits prod.splits if_splits
        dest: direct_query_respond_answers indirect_respond_answers forward_respond_answers
          request_respond_answers send_alive_answers)
  then show ?thesis
  proof cases
    case 1
    then show ?thesis using answered_framed [OF 1] by (auto simp: answered_def)
  next
    case 2
    have "answered w w' \<or> (\<exists>dn sid b1 b2 r pp x. r_card32 (h_reader H) b = Some (sid, b1) \<and>
        r_card16 (h_reader H) b1 = Some (dn, b2) \<and> r_array8 (h_reader H) b2 = Some r \<and>
        FindProtoDisplay from fl dn (xs_protos w) = Some pp \<and>
        st_get (xs_protos w) pp = Some x \<and> p_sessionID x = sid)"
      using manage_without_session [OF 2(3)] by blast
    then show ?thesis using 2(1,2) framed_manage [OF 2(3)] by (auto simp: answered_def)
  qed
qed

abbreviation (input) sample_client :: sockaddr where
  "sample_client \<equiv> SockIn [4, 0] [10, 0, 0, 7]"

lemmas net_defs = net_reader_def net8_def net16_def net32_def net_array8_def net_counted_def

lemma ProcessRequestSocket_safe_witness:
  "\<exists>w'. ProcessRequestSocket sample_host (Some [0, 1, 0, 13, 0, 6, 0, 0, 0, 0, 0, 5]) sample_client 16 3
     (sample_daemon None) = Inr w' \<and> framed_trace w' \<and> w_displays w' = st_empty"
proof -
  let ?b = "[0, 1, 0, 13, 0, 6, 0, 0, 0, 0, 0, 5]"
  have h: "r_header net_reader (r_buffer net_reader ?b) = Some ((1, 13, 6), [0, 0, 0, 0, 0, 5])"
    by (simp add: net_defs)
  have "\<exists>w'. ProcessRequestSocket sample_host (Some ?b) sample_client 16 3 (sample_daemon None) = Inr w'"
    by (simp add: ProcessRequestSocket_def sample_host_def h opcode_def send_alive_def net_defs Let_def
        FindDisplayBySessionID_def FindDisplayByAddress_def sample_daemon_def st_find_def st_empty_def
        split: prod.split)
  then obtain w' where w': "ProcessRequestSocket sample_host (Some ?b) sample_client 16 3 (sample_daemon None) = Inr w'"
    by blast
  have r: "h_reader sample_host = net_reader" by (simp add: sample_host_def)
  from ProcessRequestSocket_safe [OF w'] w' show ?thesis
    by (auto simp: r h opcode_def framed_trace_def sample_daemon_def)
qed

section \<open>Who is turned away\<close>

text \<open>A request that gets as far as the question of admission.\<close>

definition fresh_request ::
    "('db, 'b, 'h) xdm_host_scheme \<Rightarrow> sockaddr \<Rightarrow> int \<Rightarrow> 'b \<Rightarrow> nat \<Rightarrow> request \<Rightarrow> ARRAY8 \<Rightarrow> CARD16 \<Rightarrow>
     ('db, 'a) xstate \<Rightarrow> bool" where
  "fresh_request H from fromlen buffer len q addr family w \<longleftrightarrow>
     read_request (h_reader H) buffer = Some q \<and> request_length q = len \<and>
     FindProtoDisplay from fromlen (rq_displayNumber q) (xs_protos w) = None \<and>
     (\<exists>f n. ConvertAddr (Some from) = (f, Some (n, Some addr)) \<and> 0 \<le> f \<and> word_of_int f = family)"

lemma fresh_request_handshake:
  assumes "fresh_request H from fromlen buffer len q addr family w"
  shows "request_handshake H from fromlen q w =
    bindE (Accept (h_ext H) (accessFile_of (dm_vars w)) (xs_database w) addr family) (\<lambda>reason.
      case reason of
        Some r \<Rightarrow> Inr (Inl r, w)
      | None \<Rightarrow>
          bindE (SelectConnectionTypeIndex (h_ext H) addr family (rq_connectionTypes q) (rq_connectionAddresses q))
            (\<lambda>(_, sel). case sel of
               None \<Rightarrow> Inr (Inl noValidAddr, w)
             | Some (ct, ca) \<Rightarrow>
                 (let (r, S) = NewProtoDisplay (h_ext H) (h_now H) from fromlen (rq_displayNumber q) ct ca
                                 (ucast (xs_sessionID w + 1)) (xs_protos w);
                      w' = w\<lparr>xs_sessionID := xs_sessionID w + 1, xs_protos := S\<rparr>
                  in Inr (case r of None \<Rightarrow> (Inl outOfMemory, w') | Some p \<Rightarrow> (Inr p, w')))))"
proof -
  from assms obtain f n where "FindProtoDisplay from fromlen (rq_displayNumber q) (xs_protos w) = None"
    "ConvertAddr (Some from) = (f, Some (n, Some addr))" "0 \<le> f" "word_of_int f = family"
    by (auto simp: fresh_request_def)
  then show ?thesis unfolding request_handshake_def Let_def by simp
qed

lemma fresh_request_respond:
  "fresh_request H from fromlen buffer len q addr family w \<Longrightarrow>
    request_respond H from fromlen len fd buffer w =
      bindE (request_handshake H from fromlen q w) (\<lambda>(r, w1).
        case r of
          Inl reason \<Rightarrow> Inr (decline from q (rq_authenticationData q) reason None fd w1)
        | Inr p \<Rightarrow> request_accept H from q fd p w1)"
  by (simp add: fresh_request_def request_respond_def)

text \<open>A request from a client the access file does not admit is answered with a DECLINE packet
  that says so, and changes nothing else: no handshake is begun, no session identifier is used up.\<close>

theorem request_not_admitted:
  assumes "fresh_request H from fromlen buffer len q addr family w"
    "AcceptableDisplayAddress (h_ext H) (accessFile_of (dm_vars w)) (xs_database w) addr family REQUEST = Inr False"
  shows "request_respond H from fromlen len fd buffer w =
    Inr (send_decline from (rq_authenticationName q) (rq_authenticationData q) noAccessACL fd w)"
  using assms(2)
  by (simp add: fresh_request_respond [OF assms(1)] fresh_request_handshake [OF assms(1)] Accept_def decline_def)

definition sample_request :: "CARD16 list \<Rightarrow> ARRAYofARRAY8 \<Rightarrow> request" where
  "sample_request types addresses =
     \<lparr>rq_displayNumber = 0, rq_connectionTypes = types, rq_connectionAddresses = addresses,
      rq_authenticationName = [], rq_authenticationData = [], rq_authorizationNames = [],
      rq_manufacturerDisplayID = []\<rparr>"

lemma fresh_sample:
  "fresh_request sample_host sample_client 16 [0, 0, 1, 0, 0, 1, 0, 4, 10, 0, 0, 7, 0, 0, 0, 0, 0, 0, 0] 19
     (sample_request [0] [[10, 0, 0, 7]]) [10, 0, 0, 7] 0 (sample_daemon a)"
  "fresh_request sample_host sample_client 16 [0, 0, 1, 0, 0, 0, 0, 0, 0, 0, 0, 0, 0] 13
     (sample_request [0] []) [10, 0, 0, 7] 0 (sample_daemon a)"
  by (simp_all add: fresh_request_def sample_request_def sample_host_def sample_daemon_def read_request_def
      net_defs request_length_def names_length_def FindProtoDisplay_def st_find_def st_empty_def)

lemma request_not_admitted_witness:
  "request_respond sample_host sample_client 16 19 3 [0, 0, 1, 0, 0, 1, 0, 4, 10, 0, 0, 7, 0, 0, 0, 0, 0, 0, 0]
     (sample_daemon (Some ''Xaccess'')) =
   Inr (send_decline sample_client [] [] noAccessACL 3 (sample_daemon (Some ''Xaccess'')))"
proof -
  have "AcceptableDisplayAddress (h_ext sample_host) (accessFile_of (dm_vars (sample_daemon (Some ''Xaccess''))))
      (xs_database (sample_daemon (Some ''Xaccess''))) [10, 0, 0, 7] 0 REQUEST = Inr False"
    by (simp add: sample_host_def sample_daemon_def sample_globals_def accessFile_of_def
        AcceptableDisplayAddress_def NetworkAddressToHostname_def isLocalAddress_def has_interface_def
        std_ext_def inet_ntop_def)
  from request_not_admitted [OF fresh_sample(1) this] show ?thesis by (simp add: sample_request_def)
qed

text \<open>C37: A client that is admitted can make the daemon read past the end of the array of
  addresses: its first connection type is one the daemon knows, and it sends no addresses.\<close>

theorem request_without_addresses:
  assumes "fresh_request H from fromlen buffer len q addr family w"
    "AcceptableDisplayAddress (h_ext H) (accessFile_of (dm_vars w)) (xs_database w) addr family REQUEST = Inr True"
    "rq_connectionTypes q = t # ts" "usable_type t" "rq_connectionAddresses q = []"
  shows "request_respond H from fromlen len fd buffer w = Inl OutOfBounds"
  using assms(2-)
  by (simp add: fresh_request_respond [OF assms(1)] fresh_request_handshake [OF assms(1)] Accept_def
      SelectConnectionTypeIndex_short)

lemma request_without_addresses_witness:
  "request_respond sample_host sample_client 16 13 3 [0, 0, 1, 0, 0, 0, 0, 0, 0, 0, 0, 0, 0] (sample_daemon None) =
     Inl OutOfBounds"
proof -
  have "AcceptableDisplayAddress (h_ext sample_host) (accessFile_of (dm_vars (sample_daemon None)))
      (xs_database (sample_daemon None)) [10, 0, 0, 7] 0 REQUEST = Inr True"
    by (simp add: sample_daemon_def sample_globals_def accessFile_of_def AcceptableDisplayAddress_def)
  from request_without_addresses [OF fresh_sample(2) this] show ?thesis
    by (simp add: sample_request_def usable_type_def)
qed

section \<open>From the request to the session\<close>

lemma st_set_same:
  assumes "st_ok S" "st_get S p = Some x"
  shows "st_set p x S = S"
proof -
  have "y = x" if "(p, y) \<in> set (st_nodes S)" for y
    using that assms by (simp add: st_ok_def st_ptrs_def st_get_def)
  then have "map (\<lambda>(q, y). (q, if q = p then x else y)) (st_nodes S) = st_nodes S"
    by (intro map_idI) auto
  then show ?thesis by (simp add: st_set_def)
qed

text \<open>Without authentication and authorization the handshake is accepted as it is.\<close>

lemma request_accept_plain:
  assumes "rq_authenticationName q = []" "rq_authorizationNames q = []" "st_ok (xs_protos w)"
    "st_get (xs_protos w) p = Some x"
  shows "request_accept H from q fd p w =
    Inr (send_accept from (p_sessionID x) [] (rq_authenticationData q) [] [] fd w)"
  using assms by (simp add: request_accept_def deref_def CheckAuthentication_def st_set_same)

lemma same_setup_xdm:
  fixes w :: "('db, 'a) xstate"
  assumes "same_setup w w'"
  shows "xs_protos w' = xs_protos w"
  using assms by (cases w; cases w') (simp add: same_setup_def)

lemma manage_new_starts:
  fixes w :: "('db, 'a) xstate" and H :: "('db, 'b, 'h) xdm_host_scheme"
  assumes "\<forall>t. x_calloc (h_ext H) t" "\<forall>t. h_fork H t \<noteq> -1" "st_get (w_displays w) p = Some d"
    "ClientAddress (h_ext H) from = Inr (addr, port, ct)"
    "\<not> IsIndirectClient (h_ext H) addr ct (xs_indirect w)" "p_fileAuthorization x = None"
  shows "\<exists>w' e. manage_new H from fl fd pp x p w = Inr w' \<and> st_get (w_displays w') p = Some e \<and>
    d_status e = running \<and> d_pid e \<noteq> -1 \<and> d_sessionID e = p_sessionID x \<and> d_name e = d_name d \<and>
    xs_protos w' = DisposeProtoDisplay pp (xs_protos w)"
proof -
  let ?d = "(xdmcp_display x from fl fd d)\<lparr>d_useChooser := False, d_clientAddr := addr, d_connectionType := ct\<rparr>"
  let ?w = "(put_display p ?d w)\<lparr>xs_protos := DisposeProtoDisplay pp (xs_protos w)\<rparr>"
  have "st_get (w_displays ?w) p = Some ?d" using assms(3) by (simp add: st_get_set)
  moreover have "dt_location (d_displayType ?d) = Foreign" by (simp add: xdmcp_display_def)
  ultimately obtain w' e where w': "StartDisplay H p ?w = Inr w'" "st_get (w_displays w') p = Some e"
    "d_status e = running" "d_pid e = fork_answer H ?w" "d_sessionID e = d_sessionID ?d" "d_name e = d_name ?d"
    using StartDisplay_foreign [OF assms(1) _ _ assms(2)] by blast
  have "xs_protos w' = xs_protos ?w"
    using StartDisplay_step [OF w'(1)] same_setup_xdm [of ?w w'] by blast
  moreover have "manage_new H from fl fd pp x p w = StartDisplay H p ?w"
    using assms(3-6) by (simp add: manage_new_def get_display_def deref_def chooser_wanted_def Let_def)
  ultimately show ?thesis
    using w' assms(2) by (intro exI [of _ w'] exI [of _ e]) (simp add: fork_answer_def xdmcp_display_def)
qed

text \<open>What a MANAGE packet says.\<close>

definition reads_manage :: "'b reader \<Rightarrow> 'b \<Rightarrow> CARD32 \<Rightarrow> CARD16 \<Rightarrow> ARRAY8 \<Rightarrow> bool" where
  "reads_manage R b sid n cls \<longleftrightarrow>
     (\<exists>b1 b2 b3. r_card32 R b = Some (sid, b1) \<and> r_card16 R b1 = Some (n, b2) \<and> r_array8 R b2 = Some (cls, b3))"

lemma manage_reads:
  "reads_manage (h_reader H) b sid n cls \<Longrightarrow>
    manage H from fl len fd b w =
      (if 8 + length cls \<noteq> len then Inr w
       else case FindProtoDisplay from fl n (xs_protos w) of
              None \<Rightarrow>
                (case FindDisplayByAddress from fl n (w_displays w) of
                   None \<Rightarrow> Inr (send_refuse from sid fd w)
                 | Some p \<Rightarrow>
                     bindE (get_display p w) (\<lambda>d.
                       Inr (if d_sessionID d = sid then w else send_refuse from sid fd w)))
            | Some pp \<Rightarrow>
                bindE (deref (xs_protos w) pp) (\<lambda>x.
                  if p_sessionID x \<noteq> sid then Inr (send_refuse from sid fd w)
                  else manage_session H from fl fd sid cls pp x w))"
  by (auto simp: reads_manage_def manage_def)

lemma manage_session_starts:
  fixes w :: "('db, 'a) xstate" and H :: "('db, 'b, 'h) xdm_host_scheme"
  assumes "\<forall>t. x_calloc (h_ext H) t" "\<forall>t. h_fork H t \<noteq> -1" "st_ok (w_displays w)"
    "ClientAddress (h_ext H) from = Inr (addr, port, ct)"
    "\<not> IsIndirectClient (h_ext H) addr ct (xs_indirect w)" "p_fileAuthorization x = None"
    "NetworkAddressToName (h_ext H) (h_resolver H) (g_sourceAddress (dm_vars w)) (g_removeDomainname (dm_vars w))
       (p_connectionType x) (p_connectionAddress x) from (p_displayNumber x) = Inr (Some name)"
    "FindDisplayByName name (w_displays w) = None"
  shows "\<exists>w' p e. manage_session H from fl fd sid cls pp x w = Inr w' \<and> st_get (w_displays w') p = Some e \<and>
    d_status e = running \<and> d_pid e \<noteq> -1 \<and> d_sessionID e = p_sessionID x \<and> d_name e = name \<and>
    xs_protos w' = DisposeProtoDisplay pp (xs_protos w)"
proof -
  define c where "c = (if cls = [] then None else Some (string_of cls))"
  obtain p ds where new: "st_new (new_display name c) (w_displays w) = (p, ds)" by fastforce
  let ?w = "w\<lparr>w_displays := ds\<rparr>"
  have "st_get (w_displays ?w) p = Some (new_display name c)"
    using nodes.get_new [OF assms(3), of "new_display name c" p] new by simp
  from manage_new_starts [OF assms(1,2) this assms(4) _ assms(6), of fl fd pp] obtain w' e where
    w': "manage_new H from fl fd pp x p ?w = Inr w'" "st_get (w_displays w') p = Some e" "d_status e = running"
    "d_pid e \<noteq> -1" "d_sessionID e = p_sessionID x" "d_name e = name" "xs_protos w' = DisposeProtoDisplay pp (xs_protos w)"
    using assms(5) by (auto simp: new_display_def)
  have "manage_session H from fl fd sid cls pp x w = manage_new H from fl fd pp x p ?w"
    using assms new by (simp add: manage_session_def Let_def NewDisplay_def flip: c_def)
  with w' show ?thesis by (intro exI [of _ w'] exI [of _ p] exI [of _ e]) simp
qed



end
