(* ===== verification/Supervision.thy ===== *)
theory Supervision
  imports Lifecycle Handshake
begin

text \<open>
  What the display manager promises about its displays: the displays of the servers file run, a
  display whose session keeps failing is given up, and a shutdown comes to an end.
\<close>

section \<open>A daemon to evaluate\<close>

definition sample_system :: "((string \<times> string) list, CARD8 list) dm_host" where
  "sample_system =
     \<lparr>h_ext = std_ext, h_xlib = sample_xlib\<lparr>x_XrmGetFileDatabase := (\<lambda>_. Some [(''DisplayManager.servers'', '':1 foreign'')])\<rparr>,
      h_rng = sample_rng, h_files = sample_fs,
      h_fork = (\<lambda>n. 100 + int n), h_pause = (\<lambda>_. [NoneYet]), h_patience = 1,
      h_resolver = \<lparr>rs_canonname = (\<lambda>_. None), rs_getnameinfo = (\<lambda>_. None)\<rparr>,
      h_crypt = \<lparr>c_wrap = (\<lambda>k d. d), c_unwrap = (\<lambda>k d. d), c_increment = id\<rparr>, h_keys = None,
      h_now = 1000, h_run = (\<lambda>_. None), h_reader = net_reader, h_connect = (\<lambda>_. None),
      h_net = \<lparr>n_socket = (\<lambda>_ _. -1), n_bind = (\<lambda>_ _. False), n_port = 0\<rparr>, h_mcast = None,
      h_mtime = (\<lambda>_. None), h_text = (\<lambda>_. None)\<rparr>"

definition sample_manager :: "displays \<Rightarrow> (string \<times> string) list daemon" where
  "sample_manager ds =
     \<lparr>w_displays = ds, w_trace = [],
      dm_auth = \<lparr>as_mit = None, as_xdm = None, as_gen = sample_generator\<rparr>, dm_files = [], dm_db = None,
      dm_vars = sample_globals, xs_protos = st_empty, xs_indirect = [], xs_choices = [], xs_database = [],
      xs_sessionID = 41, xs_sockets = sample_sockets, m_originalArgv = [''xdm''], m_ServersModTime = 0,
      m_ConfigModTime = 0, m_AccessFileModTime = 0, m_nextIsEOF = False, m_Rescan = False, m_AddOne = False,
      m_ChildReady = False\<rparr>"

section \<open>Walks over the list, node by node\<close>

text \<open>A walk whose callback changes its own node only does to each node what the callback does to
  it.\<close>

lemma for_ptrs_nodes:
  assumes "\<And>p w w'. f p w = Inr w' \<Longrightarrow> only_at p w w'"
    "\<And>p w w'. f p w = Inr w' \<Longrightarrow> st_ok (w_displays w) \<Longrightarrow> Q (node p w) (node p w')"
    "for_ptrs f ps w = Inr w'" "st_ok (w_displays w)" "distinct ps"
  shows "st_ok (w_displays w') \<and> (\<forall>p. if p \<in> set ps then Q (node p w) (node p w') else node p w' = node p w)"
  using assms(3-)
proof (induction ps arbitrary: w)
  case (Cons p ps)
  from Cons.prems(1) obtain w1 where w1: "f p w = Inr w1" "for_ptrs f ps w1 = Inr w'" by (auto elim!: bindE_InrE)
  from assms(1) [OF w1(1)] Cons.prems(2) have ok: "st_ok (w_displays w1)" "\<And>q. q \<noteq> p \<Longrightarrow> node q w1 = node q w"
    by (auto simp: only_at_def)
  note IH = Cons.IH [OF w1(2) ok(1)] and Q = assms(2) [OF w1(1) Cons.prems(2)]
  have "if q \<in> set (p # ps) then Q (node q w) (node q w') else node q w' = node q w" for q
    using IH Q ok(2) [of q] Cons.prems(3) by (cases "q = p") (auto dest!: spec [of _ q])
  moreover have "st_ok (w_displays w')" using IH Cons.prems(3) by simp
  ultimately show ?case by blast
qed simp

lemma ForEachDisplay_nodes:
  assumes "\<And>p w w'. f p w = Inr w' \<Longrightarrow> only_at p w w'"
    "\<And>p w w'. f p w = Inr w' \<Longrightarrow> st_ok (w_displays w) \<Longrightarrow> Q (node p w) (node p w')"
    "ForEachDisplay f w = Inr w'" "st_ok (w_displays w)" "Q None None"
  shows "st_ok (w_displays w') \<and> (\<forall>p. Q (node p w) (node p w'))"
proof -
  have "distinct (st_ptrs (w_displays w))" using assms(4) by (simp add: st_ok_def)
  note * = for_ptrs_nodes [where f = f and Q = Q, OF assms(1,2) assms(3) [unfolded ForEachDisplay_def] assms(4) this]
  have "Q (node p w) (node p w')" for p
    using * st_get_ptrs [of "w_displays w" p] assms(5) by (auto split: if_splits)
  with * show ?thesis by blast
qed

section \<open>Starting the displays of the servers file\<close>

lemma StartDisplay_only: "StartDisplay H p v = Inr w \<Longrightarrow> only_at p u v \<Longrightarrow> only_at p u w"
  by (meson only_at_trans only_at_step StartDisplay_step)

lemma CheckDisplayStatus_only: "CheckDisplayStatus H p w = Inr w' \<Longrightarrow> only_at p w w'"
  unfolding CheckDisplayStatus_def
  by (auto simp: Let_def split: if_splits fileState.splits elim!: bindE_InrE
      intro: only_at_Stop [OF _ only_at_refl] StartDisplay_only [OF _ only_at_refl]
        StartDisplay_only [OF _ only_at_put [OF only_at_refl]] only_at_put [OF only_at_refl])

text \<open>What a walk does to one display of the file.\<close>

definition settled :: "display option \<Rightarrow> display option \<Rightarrow> bool" where
  "settled x y \<longleftrightarrow> (case x of
     None \<Rightarrow> y = None
   | Some d \<Rightarrow>
       if dt_origin (d_displayType d) \<noteq> FromFile then y = Some d
       else if d_state d = MissingEntry then (\<forall>e. y = Some e \<longrightarrow> d_status e = zombie)
       else if dt_lifetime (d_displayType d) = Permanent \<and> d_status d = notRunning
            then (\<forall>e. y = Some e \<longrightarrow> d_status e = running)
       else y = Some (d\<lparr>d_state := OldEntry\<rparr>))"

lemma start_session_running:
  assumes "start_session H p w = Inr w'" "\<forall>t. h_fork H t \<noteq> -1"
  shows "\<exists>e. node p w' = Some e \<and> d_status e = running"
  using assms unfolding start_session_def
  by (elim bindE_InrE) (auto simp: get_display_Inr Let_def st_get_set fork_answer_def)

lemma StartDisplay_running:
  assumes "StartDisplay H p w = Inr w'" "st_ok (w_displays w)" "\<forall>t. h_fork H t \<noteq> -1" "node p w' = Some e"
  shows "d_status e = running"
proof -
  have "\<exists>w2. start_session H p w2 = Inr w' \<or> w' = RemoveDisplay p w2 \<and> only_at p w w2"
    using assms(1) unfolding StartDisplay_def
    by (auto simp: Let_def split: if_splits option.splits prod.splits elim!: bindE_InrE
        dest!: step_at_authorize step_at_StartServer) (blast intro: only_at_step step_at_trans)+
  then show ?thesis
    using start_session_running [OF _ assms(3)] assms(2,4) by (fastforce simp: RemoveDisplay_get only_at_def)
qed

lemma CheckDisplayStatus_settles:
  assumes "CheckDisplayStatus H p w = Inr w'" "st_ok (w_displays w)" "\<forall>t. h_fork H t \<noteq> -1"
  shows "settled (node p w) (node p w')"
proof -
  from assms(1) obtain d where d: "node p w = Some d"
    unfolding CheckDisplayStatus_def by (elim bindE_InrE) (simp add: get_display_Inr)
  have g: "get_display p w = Inr d" using d by (simp add: get_display_Inr)
  let ?w = "if d_state d = NewEntry then put_display p (d\<lparr>d_state := OldEntry\<rparr>) w else w"
  have ok: "st_ok (w_displays ?w)" using assms(2) by (simp add: st_ok_set)
  have old: "node p ?w = Some (d\<lparr>d_state := OldEntry\<rparr>)" if "d_state d \<noteq> MissingEntry"
    using that d by (cases "d_state d"; cases d) (auto simp: st_get_set)
  consider (other) "dt_origin (d_displayType d) \<noteq> FromFile" "w' = w"
    | (missing) "dt_origin (d_displayType d) = FromFile" "d_state d = MissingEntry" "StopDisplay p w = Inr w'"
    | (start) "dt_origin (d_displayType d) = FromFile" "d_state d \<noteq> MissingEntry"
        "dt_lifetime (d_displayType d) = Permanent" "d_status d = notRunning" "StartDisplay H p ?w = Inr w'"
    | (stay) "dt_origin (d_displayType d) = FromFile" "d_state d \<noteq> MissingEntry"
        "\<not> (dt_lifetime (d_displayType d) = Permanent \<and> d_status d = notRunning)" "w' = ?w"
    using assms(1) unfolding CheckDisplayStatus_def g bindE.simps Let_def
    by (cases "d_state d") (auto split: if_splits)
  then show ?thesis
  proof cases
    case missing
    with StopDisplay_node [OF missing(3) assms(2)] d show ?thesis by (simp add: settled_def)
  next
    case start
    with StartDisplay_running [OF start(5) ok assms(3)] d show ?thesis by (simp add: settled_def)
  next
    case stay
    with old d show ?thesis by (auto simp: settled_def)
  qed (use d in \<open>simp add: settled_def\<close>)
qed


lemma MarkDisplay_marks:
  "MarkDisplay p w = Inr w' \<Longrightarrow> only_at p w w' \<and>
    node p w' = map_option (d_state_update (\<lambda>_. MissingEntry)) (node p w)"
  by (auto simp: MarkDisplay_def mapE_Inr_iff get_display_Inr st_get_set intro: only_at_put [OF only_at_refl])

text \<open>A servers file that cannot be opened when it is read again costs every display of the file:
  each has been marked as missing by then, and is stopped.\<close>

theorem unreadable_servers_file:
  assumes "ForEachDisplay MarkDisplay w = Inr w1" "ScanServers H w1 = Inr w2" "StartDisplays H w2 = Inr w3"
    "first_is CHR ''/'' (servers_of (dm_vars w1))" "h_text H (servers_of (dm_vars w1)) = None"
    "st_ok (w_displays w)" "\<forall>t. h_fork H t \<noteq> -1"
    "st_get (w_displays w) p = Some d" "dt_origin (d_displayType d) = FromFile"
  shows "\<forall>e. st_get (w_displays w3) p = Some e \<longrightarrow> d_status e = zombie"
proof -
  let ?Q = "\<lambda>x y. y = map_option (d_state_update (\<lambda>_. MissingEntry)) x"
  have "st_ok (w_displays w1) \<and> (\<forall>q. ?Q (node q w) (node q w1))"
    using ForEachDisplay_nodes [where f = MarkDisplay and Q = ?Q, OF _ _ assms(1,6)] MarkDisplay_marks by blast
  moreover have "w2 = w1" using assms(2,4,5) by (simp add: ScanServers_def Let_def)
  ultimately have ok: "st_ok (w_displays w2)" "node p w2 = Some (d\<lparr>d_state := MissingEntry\<rparr>)" using assms(8) by simp_all
  have n: "settled None None" by (simp add: settled_def)
  have "settled (node p w2) (node p w3)"
    using ForEachDisplay_nodes [where f = "CheckDisplayStatus H" and Q = settled, OF _ _ assms(3) [unfolded StartDisplays_def] ok(1) n]
      CheckDisplayStatus_only CheckDisplayStatus_settles [OF _ _ assms(7)] by blast
  with ok(2) assms(9) show ?thesis by (simp add: settled_def)
qed

section \<open>Sessions that fail\<close>

lemma RestartDisplay_Inr: "node p w = Some d \<Longrightarrow> \<exists>w'. RestartDisplay p f w = Inr w'"
  by (simp add: RestartDisplay_def get_display_def deref_def)

lemma StopDisplay_Inr: "node p w = Some d \<Longrightarrow> \<exists>w'. StopDisplay p w = Inr w'"
  by (simp add: StopDisplay_def get_display_def deref_def Let_def)

text \<open>C27: A display of the servers file whose session could not open it is given another try until
  \<open>startAttempts\<close> have failed in a row; then it is stopped.  A session killed by SIGTERM
  counts as a failed try as well.\<close>

theorem failed_start_counts:
  assumes "st_ok (w_displays w)" "st_get (w_displays w) p = Some d" "dt_origin (d_displayType d) = FromFile" "d_status d \<noteq> zombie"
    "status = WExited 4 \<or> status = WSignaled 15"
  shows "\<exists>w'. reap_session now p status w = Inr w' \<and>
    (if d_startTries d + 1 < sr_startAttempts (d_server d)
     then st_get (w_displays w') p = Some (d\<lparr>d_pid := -1, d_startTries := d_startTries d + 1,
            d_status := (if d_serverPid d = -1 then notRunning else phoenix)\<rparr>)
     else st_get (w_displays w') p = (if d_serverPid d = -1 then None
            else Some (d\<lparr>d_pid := -1, d_startTries := d_startTries d + 1, d_status := zombie\<rparr>)))"
proof -
  let ?e = "d\<lparr>d_pid := -1\<rparr>"
  let ?e1 = "?e\<lparr>d_startTries := d_startTries d + 1\<rparr>"
  let ?v = "put_display p ?e1 (put_display p ?e w)"
  have v: "waitVal status \<in> {4, 3840}" using assms(5) by (auto simp: waitVal_def waitCompose_def)
  have r: "reap_session now p status w = counted_restart p (put_display p ?e w)"
    using v assms(2,3) by (auto simp: reap_session_def get_display_def deref_def Let_def waitCompose_def)
  have c: "counted_restart p (put_display p ?e w) =
      (if d_startTries d + 1 < sr_startAttempts (d_server d) then RestartDisplay p True ?v else StopDisplay p ?v)"
    using assms(2-4) by (auto simp: counted_restart_def get_display_def deref_def st_get_set Let_def give_up_def)
  have n: "node p ?v = Some ?e1" "st_ok (w_displays ?v)" using assms(1,2) by (simp_all add: st_get_set st_ok_set)
  obtain w1 w2 where w: "RestartDisplay p True ?v = Inr w1" "StopDisplay p ?v = Inr w2"
    using RestartDisplay_Inr [OF n(1)] StopDisplay_Inr [OF n(1)] by blast
  show ?thesis
    using RestartDisplay_node [OF w(1)] StopDisplay_node [OF w(2) n(2)] n(1) w unfolding r c by auto
qed

text \<open>C28: When a session ends with RESERVER_DISPLAY the daemon writes to the display after freeing
  it, exactly when the display is stopped for crashing too often and its server has already been
  reaped.\<close>

theorem reserver_use_after_free:
  assumes "st_ok (w_displays w)" "st_get (w_displays w) p = Some d" "dt_origin (d_displayType d) = FromFile" "d_status d \<noteq> zombie"
  shows "reap_session now p (WExited 3) w = Inl UseAfterFree \<longleftrightarrow>
    d_serverPid d = -1 \<and> d_lastReserv d \<noteq> 0 \<and> now - d_lastReserv d < 120 \<and>
    sr_reservAttempts (d_server d) \<le> d_reservTries d + 1"
proof -
  let ?v = "put_display p (d\<lparr>d_pid := -1\<rparr>) w"
  define crash where "crash \<longleftrightarrow> d_lastReserv d \<noteq> 0 \<and> now - d_lastReserv d < XDM_BROKEN_INTERVAL"
  define e where "e = d\<lparr>d_pid := -1, d_startTries := 0, d_reservTries := (if crash then d_reservTries d + 1 else 0)\<rparr>"
  let ?u = "put_display p e ?v"
  have n: "node p ?u = Some e" "st_ok (w_displays ?u)" using assms(1,2) by (simp_all add: st_get_set st_ok_set)
  have g: "get_display p ?v = Inr (d\<lparr>d_pid := -1\<rparr>)" using assms(2) by (simp add: get_display_def deref_def st_get_set)
  have "reap_session now p (WExited 3) w = reserver now p ?v"
    using assms(2) by (simp add: reap_session_def get_display_def deref_def waitVal_def waitCompose_def Let_def)
  also have "\<dots> = bindE (if crash \<and> sr_reservAttempts (d_server e) \<le> d_reservTries e then StopDisplay p ?u else RestartDisplay p True ?u)
      (\<lambda>w2. bindE (get_display p w2) (\<lambda>d2. Inr (put_display p (d2\<lparr>d_lastReserv := now\<rparr>) w2)))"
    using assms(3,4) unfolding reserver_def g bindE.simps Let_def crash_def e_def
    by (simp split del: if_split cong: if_cong)
  finally have r: "reap_session now p (WExited 3) w = \<dots>" .
  obtain w1 w2 where w: "RestartDisplay p True ?u = Inr w1" "StopDisplay p ?u = Inr w2"
    using RestartDisplay_Inr [OF n(1)] StopDisplay_Inr [OF n(1)] by blast
  have "node p w1 \<noteq> None" using RestartDisplay_node [OF w(1)] by auto
  moreover have "node p w2 = None \<longleftrightarrow> d_serverPid d = -1"
    using StopDisplay_node [OF w(2) n(2)] n(1) by (simp add: e_def)
  ultimately show ?thesis
    unfolding r using w by (auto simp: get_display_def deref_def crash_def e_def split: option.splits)
qed

end
