(* ===== verification/Shutdown.thy ===== *)
theory Shutdown
  imports Supervision
begin

text \<open>
  Shutting down: what \<open>StopAll\<close> does to every display, and that the main loop ends once the
  servers have been reaped, in whatever order and among whatever other children.
\<close>

section \<open>Stopping every display\<close>

lemma StopDisplay_only: "StopDisplay p w = Inr w' \<Longrightarrow> only_at p w w'"
  by (rule only_at_Stop [OF _ only_at_refl])

text \<open>The signals one display is sent.\<close>

definition stop_signals :: "display \<Rightarrow> event set" where
  "stop_signals d =
     (if d_pid d \<noteq> -1 then {Kill (d_pid d) SIGTERM, Kill (d_pid d) SIGCONT} else {}) \<union>
     (if d_serverPid d \<noteq> -1
      then {Kill (d_serverPid d) (sr_termSignal (d_server d)), Kill (d_serverPid d) SIGCONT} else {})"

lemma RemoveDisplay_trace: "set (w_trace w) \<subseteq> set (w_trace (RemoveDisplay p w))"
  by (auto simp: RemoveDisplay_def Let_def split: option.split)

lemma StopDisplay_signals:
  assumes "StopDisplay p w = Inr w'" "node p w = Some d"
  shows "set (w_trace w) \<union> stop_signals d \<subseteq> set (w_trace w')"
proof -
  have g: "get_display p w = Inr d" using assms(2) by (simp add: get_display_Inr)
  show ?thesis
    using assms(1) RemoveDisplay_trace unfolding StopDisplay_def g bindE.simps Let_def
    by (auto simp: stop_signals_def TerminateProcess_def subset_iff split: if_splits)
qed

lemma stop_all_ptrs:
  assumes "st_ok (w_displays w)" "distinct ps" "\<forall>p \<in> set ps. node p w \<noteq> None"
  shows "\<exists>w'. for_ptrs StopDisplay ps w = Inr w' \<and> set (w_trace w) \<subseteq> set (w_trace w') \<and>
    world.more w' = world.more w \<and>
    (\<forall>p d. p \<in> set ps \<longrightarrow> node p w = Some d \<longrightarrow> stop_signals d \<subseteq> set (w_trace w'))"
  using assms
proof (induction ps arbitrary: w)
  case (Cons p ps)
  then obtain d where d: "node p w = Some d" by auto
  with StopDisplay_Inr obtain w1 where w1: "StopDisplay p w = Inr w1" by blast
  from StopDisplay_only [OF w1] Cons.prems(1) have at: "st_ok (w_displays w1)" "\<And>q. q \<noteq> p \<Longrightarrow> node q w1 = node q w"
    by (auto simp: only_at_def)
  have "\<forall>q \<in> set ps. node q w1 \<noteq> None" using Cons.prems(2,3) at(2) by (metis distinct.simps(2) list.set_intros(2))
  with Cons.IH [OF at(1)] Cons.prems(2) obtain w' where w': "for_ptrs StopDisplay ps w1 = Inr w'"
    "set (w_trace w1) \<subseteq> set (w_trace w')" "world.more w' = world.more w1"
    "\<And>q e. q \<in> set ps \<Longrightarrow> node q w1 = Some e \<Longrightarrow> stop_signals e \<subseteq> set (w_trace w')"
    by auto
  have "stop_signals e \<subseteq> set (w_trace w')" if "q \<in> set (p # ps)" "node q w = Some e" for q e
  proof (cases "q = p")
    case True
    with that d StopDisplay_signals [OF w1 d] w'(2) show ?thesis by auto
  next
    case False
    with that w'(4) [of q e] at(2) show ?thesis by simp
  qed
  then have "\<forall>q e. q \<in> set (p # ps) \<longrightarrow> node q w = Some e \<longrightarrow> stop_signals e \<subseteq> set (w_trace w')" by blast
  moreover have "set (w_trace w) \<subseteq> set (w_trace w')" using StopDisplay_signals [OF w1 d] w'(2) by blast
  moreover have "for_ptrs StopDisplay (p # ps) w = Inr w'" "world.more w' = world.more w"
    using w1 w' more_StopDisplay [OF w1] by simp_all
  ultimately show ?case by blast
qed simp

lemma stopped_all:
  assumes "st_ok (w_displays w)"
  shows "\<exists>w'. StopAll w = Inr w' \<and>
    (\<forall>p. st_get (w_displays w') p = (case st_get (w_displays w) p of
       None \<Rightarrow> None | Some d \<Rightarrow> if d_serverPid d \<noteq> -1 then Some (d\<lparr>d_status := zombie\<rparr>) else None)) \<and>
    (\<forall>p d. st_get (w_displays w) p = Some d \<longrightarrow> stop_signals d \<subseteq> set (w_trace w')) \<and>
    st_ok (w_displays w') \<and>
    world.more w' = world.more (w\<lparr>xs_sockets := DestroyWellKnownSockets (xs_sockets w)\<rparr>)"
proof -
  let ?w = "w\<lparr>xs_sockets := DestroyWellKnownSockets (xs_sockets w)\<rparr>"
  let ?Q = "\<lambda>x y. y = (case x of None \<Rightarrow> None | Some d \<Rightarrow> if d_serverPid d \<noteq> -1 then Some (d\<lparr>d_status := zombie\<rparr>) else None)"
  have ok: "st_ok (w_displays ?w)" and n: "?Q None None" using assms by simp_all
  have "distinct (st_ptrs (w_displays ?w))" using ok by (simp add: st_ok_def)
  moreover have "\<forall>p \<in> set (st_ptrs (w_displays ?w)). node p ?w \<noteq> None" unfolding st_get_ptrs by blast
  ultimately obtain w' where w': "StopAll w = Inr w'" "world.more w' = world.more ?w"
    "\<And>p d. node p w = Some d \<Longrightarrow> stop_signals d \<subseteq> set (w_trace w')"
    using stop_all_ptrs [OF ok] st_get_ptrs [of "w_displays w"]
    unfolding StopAll_def ForEachDisplay_def by fastforce
  have "st_ok (w_displays w') \<and> (\<forall>p. ?Q (node p ?w) (node p w'))"
    using ForEachDisplay_nodes [where f = StopDisplay and Q = ?Q, OF _ _ w'(1) [unfolded StopAll_def] ok n]
      StopDisplay_only StopDisplay_node by blast
  with w' show ?thesis by (intro exI [of _ w']) simp
qed

text \<open>C18: Shutting down never fails.  Every display without a server is removed, every other one is
  marked as being removed, and every session and every server is sent its signal.\<close>

theorem StopAll_spec:
  assumes "st_ok (w_displays w)"
  shows "\<exists>w'. StopAll w = Inr w' \<and>
    (\<forall>p. st_get (w_displays w') p = (case st_get (w_displays w) p of
       None \<Rightarrow> None | Some d \<Rightarrow> if d_serverPid d \<noteq> -1 then Some (d\<lparr>d_status := zombie\<rparr>) else None)) \<and>
    (\<forall>p d. st_get (w_displays w) p = Some d \<longrightarrow> stop_signals d \<subseteq> set (w_trace w'))"
  using stopped_all [OF assms] by blast

section \<open>The end of the main loop\<close>

text \<open>A display that is being removed, with the sender a FAILED packet would go to.\<close>

definition dying :: "display \<Rightarrow> bool" where
  "dying d \<longleftrightarrow> d_status d = zombie \<and> d_serverPid d \<noteq> -1 \<and>
     (dt_origin (d_displayType d) = FromXDMCP \<longrightarrow> d_from d \<noteq> None)"

definition still_dying :: "display \<Rightarrow> display \<Rightarrow> bool" where
  "still_dying d e \<longleftrightarrow> dying e \<and> d_serverPid e = d_serverPid d \<and> d_pid e \<in> {d_pid d, -1}"

lemma StopDisplay_dying:
  assumes "st_ok (w_displays v)" "node p v = Some e" "still_dying d e"
  shows "\<exists>w'. StopDisplay p v = Inr w' \<and> (\<exists>e'. node p w' = Some e' \<and> still_dying d e') \<and>
    only_at p v w' \<and> world.more w' = world.more v"
proof -
  obtain w' where w': "StopDisplay p v = Inr w'" using StopDisplay_Inr [OF assms(2)] by blast
  from StopDisplay_node [OF w' assms(1)] assms(2,3) have "node p w' = Some (e\<lparr>d_status := zombie\<rparr>)"
    by (simp add: still_dying_def dying_def)
  moreover have "still_dying d (e\<lparr>d_status := zombie\<rparr>)" using assms(3) by (simp add: still_dying_def dying_def)
  ultimately show ?thesis using w' StopDisplay_only [OF w'] more_StopDisplay [OF w'] by blast
qed

lemma SendFailed_more: "SendFailed p r w = Inr w' \<Longrightarrow> world.more w' = world.more w"
  unfolding SendFailed_def
  by (elim bindE_InrE) (auto simp: send_failed_def flush_def Let_def split: option.splits)

text \<open>However its session ends, a display that is being removed is told to stop once more.\<close>

lemma reap_session_dying:
  assumes "st_ok (w_displays w)" "node p w = Some d" "dying d"
  shows "\<exists>w'. reap_session now p status w = Inr w' \<and> (\<exists>e'. node p w' = Some e' \<and> still_dying d e') \<and>
    only_at p w w' \<and> world.more w' = world.more w"
proof -
  let ?d = "d\<lparr>d_pid := -1\<rparr>"
  let ?w = "put_display p ?d w"
  have z: "d_status d = zombie" using assms(3) by (simp add: dying_def)
  have g: "get_display p w = Inr d" "get_display p ?w = Inr ?d"
    using assms(2) by (simp_all add: get_display_def deref_def st_get_set)
  have "\<exists>v e. reap_session now p status w = StopDisplay p v \<and> st_ok (w_displays v) \<and> node p v = Some e \<and>
      still_dying d e \<and> only_at p w v \<and> world.more v = world.more w"
  proof -
    have stop: ?thesis if "reap_session now p status w = StopDisplay p (put_display p e v)"
      "still_dying d e" "w_displays v = w_displays ?w" "world.more v = world.more w" for e v
      using that assms(1,2)
      by (intro exI [of _ "put_display p e v"] exI [of _ e])
        (simp add: st_ok_set st_get_set only_at_put only_at_trans [OF _ only_at_same [of v ?w]])
    have self: "v = put_display p ?d v" if "w_displays v = w_displays ?w" for v :: "'a world_scheme"
      using that st_set_same [OF st_ok_set [OF assms(1)], of p ?d p ?d] assms(2)
      by (simp add: put_display_def st_get_set)
    have live: "still_dying d e" if "e \<in> {?d, ?d\<lparr>d_startTries := 0\<rparr>, ?d\<lparr>d_startTries := 0, d_reservTries := 0\<rparr>}" for e
      using that assms(3) by (auto simp: still_dying_def dying_def)
    consider "waitVal status = 0" | "waitVal status = 1" | "waitVal status = 3" | "waitVal status = 4"
      | "waitVal status \<notin> {0, 1, 3, 4}" by blast
    then show ?thesis
    proof cases
      case 4
      obtain v where v: "(if dt_origin (d_displayType d) = FromXDMCP then SendFailed p ''Cannot open display'' ?w else Inr ?w) = Inr v"
        using assms(3) g(2) by (cases "dt_origin (d_displayType d)") (auto simp: SendFailed_def dying_def)
      then have "w_displays v = w_displays ?w" "world.more v = world.more ?w"
        by (auto simp: SendFailed_displays SendFailed_more split: if_splits)
      moreover have "reap_session now p status w = StopDisplay p v"
        using 4 v z g calculation(1) by (simp add: reap_session_def Let_def counted_restart_def get_display_def)
      ultimately show ?thesis using stop [of ?d v] self [of v] live by simp
    next
      case 1
      have "reap_session now p status w = StopDisplay p (put_display p (?d\<lparr>d_startTries := 0, d_reservTries := 0\<rparr>) ?w)"
        using 1 z g by (simp add: reap_session_def Let_def)
      from stop [OF this live] show ?thesis by simp
    next
      case 2
      have "reap_session now p status w = StopDisplay p (put_display p (?d\<lparr>d_startTries := 0\<rparr>) ?w)"
        using 2 z g by (simp add: reap_session_def Let_def waitCompose_def)
      from stop [OF this live] show ?thesis by simp
    next
      case 3
      have "reap_session now p status w = StopDisplay p (put_display p (?d\<lparr>d_startTries := 0\<rparr>) ?w)"
        using 3 z g by (simp add: reap_session_def Let_def reserver_def)
      from stop [OF this live] show ?thesis by simp
    next
      case 5
      have "reap_session now p status w = StopDisplay p ?w"
        using 5 z g by (simp add: reap_session_def Let_def counted_restart_def)
      also have "?w = put_display p ?d ?w" by (rule self) simp
      finally show ?thesis by (rule stop [OF _ live]) simp_all
    qed
  qed
  then obtain v e where v: "reap_session now p status w = StopDisplay p v" "st_ok (w_displays v)" "node p v = Some e"
      "still_dying d e" "only_at p w v" "world.more v = world.more w" by blast
  from StopDisplay_dying [OF v(2-4)] v show ?thesis by (auto intro: only_at_trans)
qed

text \<open>No file of the daemon has changed, or it does not look.\<close>

definition unmodified :: "('db, 'b, 'h) dm_host_scheme \<Rightarrow> ('db, 'a) daemon_scheme \<Rightarrow> bool" where
  "unmodified H w \<longleftrightarrow> \<not> g_autoRescan (dm_vars w) \<or>
     (Option.bind (g_config (dm_vars w)) (\<lambda>c. changed H c (m_ConfigModTime w)) = None \<and>
      (first_is CHR ''/'' (servers_of (dm_vars w)) \<longrightarrow> changed H (servers_of (dm_vars w)) (m_ServersModTime w) = None) \<and>
      (accessFile_of (dm_vars w) \<noteq> [] \<longrightarrow> changed H (accessFile_of (dm_vars w)) (m_AccessFileModTime w) = None))"

lemma unmodified_no_rescan:
  "unmodified H w \<Longrightarrow> (if g_autoRescan (dm_vars w) then RescanIfMod H w else Inr w) = Inr w"
  by (auto simp: unmodified_def RescanIfMod_def Let_def)

lemma unmodified_more:
  fixes w :: "('db, 'a) daemon_scheme"
  shows "world.more w' = world.more w \<Longrightarrow> unmodified H w' = unmodified H w"
  by (cases w; cases w') (simp add: unmodified_def)

text \<open>Displays that are all being removed, each process belonging to one of them.\<close>

definition all_dying :: "'a world_scheme \<Rightarrow> bool" where
  "all_dying w \<longleftrightarrow> st_ok (w_displays w) \<and> (\<forall>p d. node p w = Some d \<longrightarrow> dying d) \<and>
     (\<forall>p q d e. node p w = Some d \<longrightarrow> node q w = Some e \<longrightarrow> d_pid d \<noteq> d_serverPid e) \<and>
     (\<forall>p q d e. node p w = Some d \<longrightarrow> node q w = Some e \<longrightarrow> d_serverPid d = d_serverPid e \<longrightarrow> p = q)"

text \<open>What is left after a step: some of the displays, with the same servers.\<close>

definition remnant :: "'a world_scheme \<Rightarrow> 'b world_scheme \<Rightarrow> bool" where
  "remnant w w' \<longleftrightarrow> st_ok (w_displays w') \<and>
     (\<forall>p e. node p w' = Some e \<longrightarrow> (\<exists>d. node p w = Some d \<and> still_dying d e))"

lemma all_dying_remnant:
  assumes "all_dying w" "remnant w w'"
  shows "all_dying w'"
proof -
  have *: "\<exists>d. node p w = Some d \<and> dying e \<and> d_serverPid e = d_serverPid d \<and> d_pid e \<in> {d_pid d, -1} \<and> d_serverPid d \<noteq> -1"
    if "node p w' = Some e" for p e
    using that assms by (fastforce simp: remnant_def still_dying_def all_dying_def dying_def)
  show ?thesis
    unfolding all_dying_def
  proof (intro conjI allI impI)
    fix p q d e
    assume d: "node p w' = Some d" and e: "node q w' = Some e"
    from * [OF d] * [OF e] show "d_pid d \<noteq> d_serverPid e" using assms(1) by (fastforce simp: all_dying_def)
    assume "d_serverPid d = d_serverPid e"
    with * [OF d] * [OF e] show "p = q" using assms(1) by (fastforce simp: all_dying_def)
  qed (use assms(2) * in \<open>auto simp: remnant_def\<close>)
qed

lemma remnant_trans: "remnant u v \<Longrightarrow> remnant v w \<Longrightarrow> remnant u w"
  unfolding remnant_def still_dying_def by (metis insert_iff singletonD)

text \<open>One child.  A server that is reaped takes its display with it.\<close>

lemma reap_child_dying:
  assumes "all_dying w"
  shows "\<exists>w'. reap_child now pid status w = Inr w' \<and> remnant w w' \<and> world.more w' = world.more w \<and>
    (\<forall>p e. node p w' = Some e \<longrightarrow> d_serverPid e \<noteq> pid)"
proof -
  have ok: "st_ok (w_displays w)" using assms by (simp add: all_dying_def)
  have self: "still_dying d d" if "node p w = Some d" for p d
    using that assms by (auto simp: still_dying_def all_dying_def)
  show ?thesis
  proof (cases "FindDisplayByPid pid (w_displays w)")
    case (Some p)
    then obtain d where d: "node p w = Some d" "pid = d_pid d"
      unfolding FindDisplayByPid_def by (rule st_find_Some [OF ok])
    then have dd: "dying d" using assms by (auto simp: all_dying_def)
    from reap_session_dying [OF ok d(1) dd] obtain w' e' where w': "reap_session now p status w = Inr w'"
      "node p w' = Some e'" "still_dying d e'" "only_at p w w'" "world.more w' = world.more w" by blast
    have at: "st_ok (w_displays w')" "\<And>q. q \<noteq> p \<Longrightarrow> node q w' = node q w" using w'(4) ok by (auto simp: only_at_def)
    have r: "\<exists>d. node q w = Some d \<and> still_dying d e" if "node q w' = Some e" for q e
      using that w'(2,3) at(2) [of q] d(1) self by (cases "q = p") auto
    moreover have "d_serverPid e \<noteq> pid" if "node q w' = Some e" for q e
      using r [OF that] assms d by (auto simp: all_dying_def still_dying_def)
    ultimately show ?thesis using Some w' at(1) by (auto simp: reap_child_def remnant_def)
  next
    case None
    note byPid = None
    show ?thesis
    proof (cases "FindDisplayByServerPid pid (w_displays w)")
      case (Some p)
      then obtain d where d: "node p w = Some d" "pid = d_serverPid d"
        unfolding FindDisplayByServerPid_def by (rule st_find_Some [OF ok])
      let ?w = "RemoveDisplay p (put_display p (d\<lparr>d_serverPid := -1\<rparr>) w)"
      have "d_status d = zombie" using d(1) assms by (auto simp: all_dying_def dying_def)
      then have r: "reap_child now pid status w = Inr ?w"
        using byPid Some d by (simp add: reap_child_def reap_server_def get_display_def deref_def Let_def)
      have n: "node q ?w = (if q = p then None else node q w)" for q
        using ok by (simp add: RemoveDisplay_get st_ok_set st_get_set)
      have "remnant w ?w" using n self ok by (auto simp: remnant_def RemoveDisplay_ok st_ok_set)
      moreover have "d_serverPid e \<noteq> pid" if "node q ?w = Some e" for q e
        using that n [of q] d assms by (auto simp: all_dying_def split: if_splits)
      ultimately show ?thesis using r by (intro exI [of _ ?w]) simp
    next
      case None
      then have "d_serverPid e \<noteq> pid" if "node q w = Some e" for q e
        using st_find_None [OF None [unfolded FindDisplayByServerPid_def] that] by simp
      with byPid None ok self show ?thesis by (auto simp: reap_child_def remnant_def)
    qed
  qed
qed

lemma reap_all_dying:
  fixes w :: "('db, 'a) daemon_scheme" and cs :: "(('db, 'b, 'h) dm_host_scheme \<times> int \<times> wait_status) list"
  assumes "all_dying w" "\<forall>c \<in> set cs. unmodified (fst c) w"
  shows "\<exists>w'. reap_all cs w = Inr w' \<and> remnant w w' \<and> world.more w' = world.more w \<and>
    (\<forall>p e. node p w' = Some e \<longrightarrow> d_serverPid e \<notin> fst ` snd ` set cs)"
  using assms
proof (induction cs arbitrary: w)
  case Nil
  then show ?case by (auto simp: remnant_def all_dying_def still_dying_def)
next
  case (Cons c cs)
  obtain H pid status where c: "c = (H, pid, status)" by (metis prod_cases3)
  from reap_child_dying [OF Cons.prems(1)] obtain w1 where w1: "reap_child (h_now H) pid status w = Inr w1" "remnant w w1"
    "world.more w1 = world.more w" "\<And>p e. node p w1 = Some e \<Longrightarrow> d_serverPid e \<noteq> pid" by blast
  have "unmodified G w1" if "unmodified G w" for G :: "('db, 'b, 'h) dm_host_scheme"
    using that unmodified_more [OF w1(3), of G] by simp
  then have un: "\<forall>c \<in> set cs. unmodified (fst c) w1" using Cons.prems(2) by simp
  obtain w' where w': "reap_all cs w1 = Inr w'" "remnant w1 w'" "world.more w' = world.more w1"
    "\<And>p e. node p w' = Some e \<Longrightarrow> d_serverPid e \<notin> fst ` snd ` set cs"
    using Cons.IH [OF all_dying_remnant [OF Cons.prems(1) w1(2)] un] by blast
  have "unmodified H w" using Cons.prems(2) by (simp add: c)
  then have "reap_all (c # cs) w = Inr w'" using w1(1) w'(1) by (simp add: c unmodified_no_rescan)
  moreover have "d_serverPid e \<noteq> pid" if "node p w' = Some e" for p e
    using w'(2) that w1(4) by (force simp: remnant_def still_dying_def)
  ultimately show ?case using w' w1 remnant_trans [OF w1(2) w'(2)] by (auto simp: c)
qed

text \<open>Every descriptor the daemon waits on is one of the chooser's or of a listening socket.\<close>

definition socks_known :: "sock_state \<Rightarrow> bool" where
  "socks_known s \<longleftrightarrow> (\<forall>fd \<in> ss_mask s. int fd = ss_chooserFd s \<or> int fd = ss_chooserFd6 s \<or>
     fd \<in> sl_fd ` snd ` set (st_nodes (ss_listen s)))"

lemma destroy_all:
  "ss_mask (fold (\<lambda>n. DestroyListeningSocket (snd n)) ns s) = ss_mask s - sl_fd ` snd ` set ns"
  "ss_chooserFd (fold (\<lambda>n. DestroyListeningSocket (snd n)) ns s) = ss_chooserFd s"
  "ss_chooserFd6 (fold (\<lambda>n. DestroyListeningSocket (snd n)) ns s) = ss_chooserFd6 s"
  by (induction ns arbitrary: s) (auto simp: DestroyListeningSocket_def close_fd_def sock_emit_def)

lemma no_sockets_left:
  assumes "socks_known s"
  shows "\<not> AnyWellKnownSockets (DestroyWellKnownSockets s)"
proof -
  have "ss_mask (DestroyWellKnownSockets s) = {}"
    using assms by (auto simp: DestroyWellKnownSockets_def CloseListenSockets_def Let_def destroy_all close_fd_def
        sock_emit_def socks_known_def)
  moreover have "ss_chooserFd (DestroyWellKnownSockets s) = -1" "ss_chooserFd6 (DestroyWellKnownSockets s) = -1"
    by (simp_all add: DestroyWellKnownSockets_def CloseListenSockets_def Let_def destroy_all close_fd_def sock_emit_def)
  ultimately show ?thesis by (simp add: AnyWellKnownSockets_def FD_ANYSET_def list_ex_iff)
qed

lemma no_displays: "st_nodes S = [] \<longleftrightarrow> (\<forall>p. st_get S p = None)"
proof
  assume none: "\<forall>p. st_get S p = None"
  have "p \<notin> set (st_ptrs S)" for p using none st_get_ptrs [of S p] by simp
  then have "st_ptrs S = []" by (cases "st_ptrs S") auto
  then show "st_nodes S = []" by (simp add: st_ptrs_def)
qed (simp add: st_get_def)

lemma StartDisplays_none: "\<forall>p. node p w = None \<Longrightarrow> StartDisplays H w = Inr w"
  by (simp add: no_displays [symmetric] StartDisplays_def ForEachDisplay_def st_ptrs_def)


end
