(* ===== verification/Boot.thy ===== *)
theory Boot
  imports Shutdown
begin

text \<open>The start of a daemon whose configuration names one foreign display.\<close>

lemma sample_servers:
  "servers_of g' = '':1 foreign''"
  if "\<forall>e \<in> set (DmResources (x_macro (h_xlib sample_system))). e_get e g' =
      entry_value (h_xlib sample_system) (Some [(''DisplayManager.servers'', '':1 foreign'')]) ''DisplayManager'' ''DisplayManager'' e g"
proof -
  have "snprintf_keep 1024 ''DisplayManager.servers'' = ''DisplayManager.servers''" by code_simp
  with that have "g_servers g' = Some '':1 foreign''"
    by (simp add: DmResources_def entry_defs entry_value_def configured_def resource_text_def sample_system_def sample_xlib_def)
  then show ?thesis by (simp add: servers_of_def)
qed

lemma sample_reload:
  "\<exists>w1. reload_config sample_system (sample_manager st_empty) = Inr w1 \<and> w_displays w1 = st_empty \<and>
     servers_of (dm_vars w1) = '':1 foreign'' \<and> xs_sockets w1 = sample_sockets"
proof -
  let ?db = "[(''DisplayManager.servers'', '':1 foreign'')]"
  have m: "\<forall>t. x_calloc (h_ext sample_system) t" by (simp add: sample_system_def std_ext_def)
  have "\<exists>c. GetResource (h_ext sample_system) (h_xlib sample_system) (Some []) ''DisplayManager.configFile''
      ''DisplayManager.ConfigFile'' (R_STRING None) (x_macro (h_xlib sample_system) ''DEF_XDM_CONFIG'') = Inr (R_STRING (Some c))"
    using m by (simp add: GetResource_def split: prod.split)
  then obtain c where c: "GetResource (h_ext sample_system) (h_xlib sample_system) (Some []) ''DisplayManager.configFile''
      ''DisplayManager.ConfigFile'' (R_STRING None) (x_macro (h_xlib sample_system) ''DEF_XDM_CONFIG'') = Inr (R_STRING (Some c))" ..
  let ?g = "sample_globals\<lparr>g_config := Some c\<rparr>"
  have r: "ReinitResources (h_ext sample_system) (h_xlib sample_system) [''xdm''] sample_globals =
      Inr (Some (?db, ?g, []))"
    using m c by (simp add: ReinitResources_def sample_globals_def) (simp add: sample_system_def sample_xlib_def)
  obtain g' where g': "LoadDMResources (h_ext sample_system) (h_xlib sample_system) (Some ?db) ?g = Inr g'"
    "servers_of g' = '':1 foreign''"
    using daemon_table.load_table [OF m, of "h_xlib sample_system" "Some ?db" "''DisplayManager''" "''DisplayManager''"
        "x_macro (h_xlib sample_system)" ?g] sample_servers
    unfolding LoadDMResources_def by blast
  show ?thesis
    by (simp add: reload_config_def reread_config_def load_globals_def sample_manager_def r g')
qed

lemma sample_times [simp]: "SetConfigFileTime sample_system w = w" "SetAccessFileTime sample_system w = w"
  by (simp_all add: SetConfigFileTime_def SetAccessFileTime_def sample_system_def split: option.split)

lemma sample_listen:
  "UpdateListenSockets std_ext \<lparr>n_socket = (\<lambda>_ _. -1), n_bind = (\<lambda>_ _. False), n_port = 0\<rparr> None [] sample_sockets =
     Inr sample_sockets"
  by (simp add: UpdateListenSockets_def ForEachListenAddr_def sample_sockets_def st_empty_def st_ptrs_def UpdateListener_def update_listener_def CreateListeningSocket_def CreateSocklistEntry_def FindInList_def st_find_def Let_def)

abbreviation (input) foreign_display :: display where
  "foreign_display \<equiv> (new_display '':1'' None)\<lparr>d_displayType := \<lparr>dt_location = Foreign, dt_lifetime = Permanent, dt_origin = FromFile\<rparr>,
     d_argv := Some []\<rparr>"

lemma sample_line:
  assumes "w_displays w = st_empty" "servers_of (dm_vars w) = '':1 foreign''"
  shows "\<exists>w'. ScanServers sample_system w = Inr w' \<and> st_ptrs (w_displays w') = [0] \<and> node 0 w' = Some foreign_display"
proof -
  have s: "split_words '':1 foreign'' = ['':1'', ''foreign'']" by code_simp
  have d: "display_words ''foreign'' [] = (\<lparr>dt_location = Foreign, dt_lifetime = Permanent, dt_origin = FromFile\<rparr>, None, [])"
    by code_simp
  show ?thesis
    using assms
    by (simp add: ScanServers_def first_is_def ParseDisplay_def splitIntoWords_def s d FindDisplayByName_def st_find_def
        st_empty_def NewDisplay_def st_new_def get_display_def deref_def st_get_def copyArgs_def put_display_def
        st_set_def st_ptrs_def sample_system_def std_ext_def)
qed

lemma sample_starts:
  fixes w :: "((string \<times> string) list, 'a) daemon_scheme"
  assumes "st_ptrs (w_displays w) = [0]" "node 0 w = Some foreign_display"
  shows "\<exists>w' d. StartDisplays sample_system w = Inr w' \<and> node 0 w' = Some d \<and> d_status d = running"
proof -
  let ?d = "foreign_display\<lparr>d_state := OldEntry\<rparr>"
  have m: "\<forall>t. x_calloc (h_ext sample_system) t" "\<forall>t. h_fork sample_system t \<noteq> -1"
    by (auto simp: sample_system_def std_ext_def)
  have n: "node 0 (put_display 0 ?d w) = Some ?d" using assms(2) by (simp add: st_get_set)
  have "\<exists>w' e. StartDisplay sample_system 0 (put_display 0 ?d w) = Inr w' \<and> node 0 w' = Some e \<and> d_status e = running"
    using StartDisplay_foreign [OF m(1) n _ m(2)] by auto
  then obtain w' e where "StartDisplay sample_system 0 (put_display 0 ?d w) = Inr w'" "node 0 w' = Some e" "d_status e = running"
    by blast
  then show ?thesis
    using assms by (simp add: StartDisplays_def ForEachDisplay_def CheckDisplayStatus_def get_display_def deref_def new_display_def)
qed

lemma sample_order:
  "start_up sample_system w =
     bindE (reload_config sample_system w) (\<lambda>w2.
       bindE (reload_access sample_system (w2\<lparr>xs_sessionID := init_session_id (h_now sample_system),
           xs_sockets := CreateWellKnownSockets (h_net sample_system) (xs_sockets w2)\<rparr>)) (\<lambda>w4.
         bindE (ScanServers sample_system w4) (StartDisplays sample_system)))"
  by (cases "reread_config sample_system w") (simp_all add: start_up_def reload_config_def)

lemma sample_start_up:
  "\<exists>w' d. start_up sample_system (sample_manager st_empty) = Inr w' \<and> node 0 w' = Some d \<and> d_status d = running"
proof -
  obtain w1 where w1: "reload_config sample_system (sample_manager st_empty) = Inr w1" "w_displays w1 = st_empty"
    "servers_of (dm_vars w1) = '':1 foreign''" "xs_sockets w1 = sample_sockets" using sample_reload by blast
  have acc: "\<exists>w3. reload_access sample_system w = Inr w3 \<and> w_displays w3 = w_displays w \<and> dm_vars w3 = dm_vars w"
    if "xs_sockets w = sample_sockets" for w :: "(string \<times> string) list daemon"
  proof -
    have "\<exists>b e. ScanAccessDatabase std_ext (accessFile_of (dm_vars w)) None (m_nextIsEOF w) = (b, [], e)"
      by (auto simp: ScanAccessDatabase_def)
    then obtain b e where "ScanAccessDatabase std_ext (accessFile_of (dm_vars w)) None (m_nextIsEOF w) = (b, [], e)"
      by blast
    moreover have "h_ext sample_system = std_ext" "h_text sample_system = (\<lambda>_. None)" "h_mcast sample_system = None"
      "h_net sample_system = \<lparr>n_socket = (\<lambda>_ _. -1), n_bind = (\<lambda>_ _. False), n_port = 0\<rparr>"
      by (simp_all add: sample_system_def)
    ultimately show ?thesis using that sample_listen by (simp add: reload_access_def)
  qed
  let ?w2 = "w1\<lparr>xs_sessionID := init_session_id (h_now sample_system), xs_sockets := sample_sockets\<rparr>"
  have ws: "CreateWellKnownSockets (h_net sample_system) sample_sockets = sample_sockets"
    by (simp add: CreateWellKnownSockets_def sample_system_def)
  obtain w3 where w3: "reload_access sample_system ?w2 = Inr w3" "w_displays w3 = st_empty" "servers_of (dm_vars w3) = '':1 foreign''"
    using acc [of ?w2] w1 by auto
  obtain w4 where w4: "ScanServers sample_system w3 = Inr w4" "st_ptrs (w_displays w4) = [0]" "node 0 w4 = Some foreign_display"
    using sample_line [OF w3(2,3)] by blast
  from sample_starts [OF w4(2,3)] w1 w3 w4 ws show ?thesis by (simp add: sample_order)
qed

lemma reachable_displays_ok_witness:
  "\<exists>w d. start_up sample_system (sample_manager st_empty) = Inr w \<and> st_get (w_displays w) 0 = Some d \<and>
     d_status d = running \<and> d_pid d \<noteq> -1"
proof -
  obtain w d where w: "start_up sample_system (sample_manager st_empty) = Inr w" "node 0 w = Some d" "d_status d = running"
    using sample_start_up by blast
  have e: "w_displays (sample_manager st_empty) = st_empty" by (simp add: sample_manager_def)
  from reachable_displays_ok [OF e w(1) dm_reach.here [where Hs = "{sample_system}"] w(2)] w show ?thesis by auto
qed

section \<open>One display in every state\<close>

definition sample_local :: "displayStatus \<Rightarrow> int \<Rightarrow> int \<Rightarrow> display" where
  "sample_local st pid server =
     (new_display '':0'' None)\<lparr>d_displayType := \<lparr>dt_location = Local, dt_lifetime = Permanent, dt_origin = FromFile\<rparr>,
        d_argv := Some [''/bin/X''], d_state := OldEntry, d_status := st, d_pid := pid, d_serverPid := server,
        d_startTries := 2, d_lastReserv := 950, d_reservTries := 1,
        d_server := (d_server (new_display [] None))\<lparr>sr_startAttempts := 4, sr_reservAttempts := 2, sr_termSignal := 15\<rparr>\<rparr>"

abbreviation (input) sample_one :: "display \<Rightarrow> (string \<times> string) list daemon" where
  "sample_one d \<equiv> sample_manager (snd (st_new d st_empty))"

lemma sample_node: "node p (sample_one d) = (if p = 0 then Some d else None)"
  by (simp add: sample_manager_def nodes.get_new [OF st_ok_empty] st_new_def st_get_def st_empty_def)

lemma sample_at: "st_get (w_displays (sample_one d)) 0 = Some d"
  by (simp add: sample_node)

lemma sample_ok: "st_ok (w_displays (sample_one d))"
  by (simp add: sample_manager_def nodes.inv_new [OF st_ok_empty])

lemmas sample_local_fields = sample_local_def new_display_def

lemma removal_is_final_witness:
  "\<exists>w'. dm_reach {sample_system} (sample_one (sample_local zombie (-1) 200)) w' \<and> m_Rescan w' \<and>
     (\<exists>d. st_get (w_displays w') 0 = Some d \<and> d_status d = zombie)"
proof -
  let ?w = "sample_one (sample_local zombie (-1) 200)"
  let ?w' = "?w\<lparr>m_Rescan := True\<rparr>"
  have ok: "displays_ok ?w"
    using sample_ok by (auto simp: displays_ok_def all_nodes_def sample_node sample_local_fields display_ok_def split: if_splits)
  have r: "dm_reach {sample_system} ?w ?w'"
    by (rule dm_reach.step [OF dm_reach.here dm_step.RescanNotify])
  have n: "node 0 ?w' = Some (sample_local zombie (-1) 200)" using sample_at by simp
  have z: "d_status (sample_local zombie (-1) 200) = zombie" by (simp add: sample_local_fields)
  have "d_status (sample_local zombie (-1) 200) = zombie"
    using removal_is_final [OF ok r, THEN conjunct1, rule_format, OF sample_at z n] .
  moreover have "m_Rescan ?w'" by simp
  ultimately show ?thesis using n r by blast
qed


lemma failed_start_counts_witness:
  "\<exists>w'. reap_session 1000 0 (WSignaled 15) (sample_one (sample_local running 100 200)) = Inr w' \<and>
     map_option d_status (st_get (w_displays w') 0) = Some phoenix"
  using failed_start_counts [OF sample_ok, where p = 0 and d = "sample_local running 100 200" and status = "WSignaled 15" and now = 1000]
  by (auto simp: sample_node sample_local_fields)

lemma reserver_use_after_free_witness:
  "reap_session 1000 0 (WExited 3) (sample_one (sample_local running 100 (-1))) = Inl UseAfterFree"
  using reserver_use_after_free [OF sample_ok, where p = 0 and d = "sample_local running 100 (-1)" and now = 1000]
  by (simp add: sample_node sample_local_fields)

lemma StopAll_spec_witness:
  "\<exists>w'. StopAll (sample_one (sample_local running 100 200)) = Inr w' \<and>
     map_option d_status (st_get (w_displays w') 0) = Some zombie \<and>
     {Kill 100 15, Kill 100 18, Kill 200 15, Kill 200 18} \<subseteq> set (w_trace w')"
proof -
  let ?d = "sample_local running 100 200"
  obtain w' where w': "StopAll (sample_one ?d) = Inr w'"
    "node 0 w' = (if d_serverPid ?d \<noteq> -1 then Some (?d\<lparr>d_status := zombie\<rparr>) else None)"
    "stop_signals ?d \<subseteq> set (w_trace w')"
    using StopAll_spec [OF sample_ok, of ?d] by (auto simp: sample_node)
  then show ?thesis by (simp add: sample_local_fields stop_signals_def)
qed


definition sample_rescan :: "(string \<times> string) list daemon" where
  "sample_rescan = (sample_one (sample_local notRunning (-1) 200))\<lparr>dm_vars := sample_globals\<lparr>g_servers := Some ''/etc/Xservers''\<rparr>\<rparr>"

lemma unreadable_servers_file_witness:
  "\<exists>w1 w2 w3. ForEachDisplay MarkDisplay sample_rescan = Inr w1 \<and>
     ScanServers sample_system w1 = Inr w2 \<and> StartDisplays sample_system w2 = Inr w3 \<and>
     (\<forall>e. st_get (w_displays w3) 0 = Some e \<longrightarrow> d_status e = zombie)"
proof -
  let ?d = "sample_local notRunning (-1) 200"
  let ?w1 = "put_display 0 (?d\<lparr>d_state := MissingEntry\<rparr>) sample_rescan"
  have n: "node p sample_rescan = (if p = 0 then Some ?d else None)" for p
    by (simp add: sample_rescan_def sample_node)
  have p: "st_ptrs (w_displays sample_rescan) = [0]"
    by (simp add: sample_rescan_def sample_manager_def st_new_def st_empty_def st_ptrs_def)
  have ok: "st_ok (w_displays sample_rescan)" using sample_ok by (simp add: sample_rescan_def)
  have m: "ForEachDisplay MarkDisplay sample_rescan = Inr ?w1"
    by (simp add: ForEachDisplay_def p MarkDisplay_def get_display_def deref_def n)
  have v: "servers_of (dm_vars ?w1) = ''/etc/Xservers''"
    by (simp add: put_display_def sample_rescan_def servers_of_def)
  have t: "h_text sample_system (servers_of (dm_vars ?w1)) = None" "first_is CHR ''/'' (servers_of (dm_vars ?w1))"
    unfolding v by (simp_all add: sample_system_def first_is_def)
  have s: "ScanServers sample_system ?w1 = Inr ?w1" using t by (simp add: ScanServers_def Let_def)
  have n1: "node 0 ?w1 = Some (?d\<lparr>d_state := MissingEntry\<rparr>)" using n by (simp add: st_get_set)
  then obtain w3 where w3: "StopDisplay 0 ?w1 = Inr w3" using StopDisplay_Inr by blast
  have "StartDisplays sample_system ?w1 = Inr w3"
    using w3 n1 p by (simp add: StartDisplays_def ForEachDisplay_def CheckDisplayStatus_def get_display_def deref_def sample_local_fields)
  moreover have f: "\<forall>t. h_fork sample_system t \<noteq> -1" by (auto simp: sample_system_def)
  moreover have "node 0 sample_rescan = Some ?d" "dt_origin (d_displayType ?d) = FromFile"
    using n by (simp_all add: sample_local_fields)
  ultimately show ?thesis
    using unreadable_servers_file [OF m s _ t(2,1) ok] m s by blast
qed

end
