(* ===== verification/Pidfile.thy ===== *)
theory Pidfile
  imports Address
begin

text \<open>
  The process id file and the process title, both of \<open>xdm/dm.c\<close>.
\<close>

section \<open>The process id file\<close>

text \<open>What creating the file answers, at the first and at the second attempt; what the file holds
  if it can be opened for reading; whether the stream can be made and written.\<close>

datatype create_result = Created nat | EEXIST | ENOENT | CreateFailed

record pid_host =
  pf_create :: "nat \<Rightarrow> create_result"
  pf_text :: "string option"
  pf_fdopen :: bool
  pf_write :: bool
  pf_getpid :: int

datatype pid_event = MkPidDir string | WrotePid string | UnlinkPid string

text \<open>The directory that is made is the path up to the last slash, or the whole path when there is
  no slash or only one in front.\<close>

definition pid_dir :: "string \<Rightarrow> string" where
  "pid_dir pidFile =
     (case strrchr pidFile CHR ''/'' of Some (d # dir, _) \<Rightarrow> d # dir | _ \<Rightarrow> pidFile)"

text \<open>\<open>fscanf\<close> with \<open>%ld\<close>: None when there is no number.\<close>

definition scan_long :: "string \<Rightarrow> int option" where
  "scan_long s =
     (let t = dropWhile isspace s;
          u = (case t of c # cs \<Rightarrow> if c = CHR ''-'' \<or> c = CHR ''+'' then cs else t | [] \<Rightarrow> [])
      in if takeWhile is_digit u = [] then None else Some (strtol s))"

definition StorePid :: "ext \<Rightarrow> pid_host \<Rightarrow> string \<Rightarrow> int \<times> pid_event list" where
  "StorePid E P pidFile =
     (if pidFile = [] then (0, [])
      else
        (let again = (pf_create P 0 = ENOENT);
             ev = (if again \<and> x_strdup E pidFile \<noteq> None then [MkPidDir (pid_dir pidFile)] else [])
         in case (if again then pf_create P 1 else pf_create P 0) of
              Created fd \<Rightarrow>
                (if \<not> pf_fdopen P \<or> \<not> pf_write P then (-1, ev)
                 else (0, ev @ [WrotePid (snprintf_keep 11 (show_int (pf_getpid P)) @ [CHR 0x0A])]))
            | EEXIST \<Rightarrow>
                (case pf_text P of
                   None \<Rightarrow> (-1, ev)
                 | Some t \<Rightarrow> (case scan_long t of Some oldpid \<Rightarrow> oldpid | None \<Rightarrow> -1, ev))
            | _ \<Rightarrow> (-1, ev)))"

text \<open>In \<open>main\<close>, \<open>oldpid\<close> is an \<open>int\<close>.\<close>

definition another_runs :: "ext \<Rightarrow> pid_host \<Rightarrow> string \<Rightarrow> bool" where
  "another_runs E P pidFile \<longleftrightarrow> to_int32 (fst (StorePid E P pidFile)) \<noteq> 0"

definition RemovePid :: "int \<Rightarrow> pid_host \<Rightarrow> string \<Rightarrow> pid_event list" where
  "RemovePid parent_pid P pidFile = (if parent_pid \<noteq> pf_getpid P then [] else [UnlinkPid pidFile])"

section \<open>The process title\<close>

text \<open>The bytes of the arguments are overwritten in place: a dash, the strings one after the other,
  as far as there is room, and blanks.\<close>

primrec title_strings :: "nat \<Rightarrow> string list \<Rightarrow> string" where
  "title_strings left [] = replicate left CHR '' ''"
| "title_strings left (s # ss) = take left s @ title_strings (left - length s) ss"

definition SetTitle :: "string list \<Rightarrow> string \<Rightarrow> string" where
  "SetTitle names region =
     (if region = [] then region else CHR ''-'' # title_strings (length region - 1) names)"

section \<open>Facts\<close>

lemma length_title_strings: "length (title_strings left ss) = left"
  by (induction ss arbitrary: left) auto

lemma is_digit_char: "n < 10 \<Longrightarrow> is_digit (char_of (48 + n :: nat)) \<and> int (of_char (char_of (48 + n :: nat))) - 48 = int n"
  by (simp add: is_digit_def of_char_of)

lemma digits_value_snoc: "digits_value (ds @ [c]) = 10 * digits_value ds + (int (of_char c) - 48)"
  by (simp add: digits_value_def)

lemma show_nat_digits: "(\<forall>c \<in> set (show_nat n). is_digit c) \<and> digits_value (show_nat n) = int n \<and> show_nat n \<noteq> []"
proof (induction n rule: show_nat.induct)
  case (1 n)
  show ?case
  proof (cases "n < 10")
    case True
    then show ?thesis using is_digit_char [of n] by (subst (1 2 3) show_nat.simps) (simp add: digits_value_def)
  next
    case False
    have e: "show_nat n = show_nat (n div 10) @ [char_of (48 + n mod 10)]"
      using False by (subst show_nat.simps) simp
    have "digits_value (show_nat n) = 10 * int (n div 10) + int (n mod 10)"
      using 1 [OF False] is_digit_char [of "n mod 10"] by (simp add: e digits_value_snoc)
    moreover have "10 * int (n div 10) + int (n mod 10) = int n" by presburger
    ultimately show ?thesis using 1 [OF False] is_digit_char [of "n mod 10"] by (simp add: e)
  qed
qed

section \<open>Two daemons\<close>

lemma takeWhile_digits:
  "\<forall>c \<in> set ds. is_digit c \<Longrightarrow> \<not> is_digit x \<Longrightarrow> takeWhile is_digit (ds @ x # r) = ds"
  by (induction ds) auto

lemma digit_not_space: "is_digit c \<Longrightarrow> \<not> isspace c \<and> c \<noteq> CHR ''-'' \<and> c \<noteq> CHR ''+''"
  by (auto simp: is_digit_def isspace_def)

lemma scan_long_shown:
  assumes "\<not> is_digit x" "n < 2 ^ 63"
  shows "scan_long (show_nat n @ x # r) = Some (int n)"
proof -
  obtain c cs where c: "show_nat n = c # cs" using show_nat_digits [of n] by (cases "show_nat n") auto
  have d: "is_digit c" "\<forall>c \<in> set (show_nat n). is_digit c" using show_nat_digits [of n] by (simp_all add: c)
  have w: "dropWhile isspace (show_nat n @ x # r) = show_nat n @ x # r"
    using digit_not_space [OF d(1)] by (simp add: c)
  have t: "takeWhile is_digit (show_nat n @ x # r) = show_nat n" by (rule takeWhile_digits [OF d(2) assms(1)])
  have "int n < 2 ^ 63" using assms(2) by (metis of_nat_less_iff of_nat_numeral of_nat_power)
  then show ?thesis
    using digit_not_space [OF d(1)] show_nat_digits [of n] t
    by (simp add: scan_long_def strtol_def w Let_def) (simp add: c)
qed

lemma small_show_nat: "n < 10 ^ k \<Longrightarrow> 0 < k \<Longrightarrow> length (show_nat n) \<le> k"
proof (induction n arbitrary: k rule: show_nat.induct)
  case (1 n)
  show ?case
  proof (cases "n < 10")
    case True
    then show ?thesis using 1(3) by (subst show_nat.simps) simp
  next
    case False
    then have "k \<noteq> 1" using 1(2) by auto
    with 1(3) obtain m where m: "k = Suc m" "0 < m" by (cases k) auto
    have "n div 10 < 10 ^ m" using 1(2) by (simp add: m less_mult_imp_div_less mult.commute)
    with 1(1) [OF False _ m(2)] have "length (show_nat (n div 10)) \<le> m" by simp
    then show ?thesis using False by (subst show_nat.simps) (simp add: m)
  qed
qed

lemma to_int32_small: "0 \<le> i \<Longrightarrow> i < 2 ^ 31 \<Longrightarrow> to_int32 i = i"
  unfolding to_int32_def signed_of_int by (simp add: signed_take_bit_int_eq_self)

text \<open>What one daemon leaves in the file stops the next one: it reads the first one's process id
  back and does not start.\<close>

theorem second_daemon_stops:
  assumes "pidFile \<noteq> []" "StorePid E P pidFile = (0, ev)" "0 < pf_getpid P" "pf_getpid P < 2 ^ 31"
    "pf_create Q 0 = EEXIST" "WrotePid text \<in> set ev" "pf_text Q = Some text"
  shows "fst (StorePid E Q pidFile) = pf_getpid P \<and> another_runs E Q pidFile"
proof -
  obtain n where n: "pf_getpid P = int n" using assms(3) by (metis less_imp_le nonneg_int_cases)
  have "length (show_nat n) \<le> 10" using small_show_nat [of n 10] assms(4) by (simp add: n)
  then have k: "snprintf_keep 11 (show_nat n) = show_nat n" by (intro snprintf_keep_short) simp
  have "text = show_nat n @ [CHR 0x0A]"
    using assms(1,2,6) n k by (auto simp: StorePid_def Let_def show_int_def split: if_splits create_result.splits option.splits)
  then have "scan_long text = Some (int n)"
    using scan_long_shown [of "CHR 0x0A" n "[]"] assms(4) by (simp add: n is_digit_def)
  then have "fst (StorePid E Q pidFile) = int n" using assms(1,5,7) by (simp add: StorePid_def)
  then show ?thesis using assms(3,4) to_int32_small [of "int n"] by (simp add: another_runs_def n)
qed

text \<open>A process id file that is there already stops the daemon unless it holds a number that is a
  multiple of 2 ^ 32, such as 0: then the daemon runs without having stored its own.\<close>

theorem StorePid_existing:
  assumes "pidFile \<noteq> []" "pf_create P 0 = EEXIST"
  shows "snd (StorePid E P pidFile) = [] \<and>
    (another_runs E P pidFile \<longleftrightarrow>
      \<not> (\<exists>t v. pf_text P = Some t \<and> scan_long t = Some v \<and> 2 ^ 32 dvd v))"
proof -
  have "to_int32 v = 0 \<longleftrightarrow> 2 ^ 32 dvd v" for v
  proof -
    have "to_int32 v = 0 \<longleftrightarrow> (word_of_int v :: 32 word) = 0"
      unfolding to_int32_def by (rule signed_eq_0_iff)
    then show ?thesis by (simp add: word_of_int_eq_0_iff)
  qed
  moreover have "to_int32 (-1) \<noteq> 0" by (simp add: to_int32_def)
  ultimately show ?thesis
    using assms by (auto simp: another_runs_def StorePid_def split: option.splits)
qed

definition sample_pid :: "int \<Rightarrow> create_result \<Rightarrow> string option \<Rightarrow> pid_host" where
  "sample_pid pid r t = \<lparr>pf_create = (\<lambda>_. r), pf_text = t, pf_fdopen = True, pf_write = True, pf_getpid = pid\<rparr>"

lemma second_daemon_stops_witness:
  "another_runs std_ext (sample_pid 9 EEXIST (Some [CHR ''7'', CHR 0x0A])) ''/run/xdm.pid''"
proof -
  have s: "snprintf_keep 11 (show_int 7) @ [CHR 0x0A] = [CHR ''7'', CHR 0x0A]" by code_simp
  have "StorePid std_ext (sample_pid 7 (Created 3) None) ''/run/xdm.pid'' = (0, [WrotePid [CHR ''7'', CHR 0x0A]])"
    by (simp add: StorePid_def sample_pid_def s)
  from second_daemon_stops [OF _ this, of "sample_pid 9 EEXIST (Some [CHR ''7'', CHR 0x0A])"]
  show ?thesis by (simp add: sample_pid_def)
qed

lemma StorePid_existing_witness:
  "\<not> another_runs std_ext (sample_pid 9 EEXIST (Some ''0'')) ''/run/xdm.pid''"
proof -
  have v: "scan_long ''0'' = Some 0" by code_simp
  have "pf_create (sample_pid 9 EEXIST (Some ''0'')) 0 = EEXIST" "pf_text (sample_pid 9 EEXIST (Some ''0'')) = Some ''0''"
    by (simp_all add: sample_pid_def)
  with StorePid_existing [of "''/run/xdm.pid''" "sample_pid 9 EEXIST (Some ''0'')" std_ext] v show ?thesis by auto
qed

end
