(* ===== verification/Verify.thy ===== *)
theory Verify
  imports Auth
begin

text \<open>
  Environments of a session (\<open>defaultEnv\<close>, \<open>systemEnv\<close> of \<open>xdm/session.c\<close>, \<open>userEnv\<close> of
  \<open>greeter/verify.c\<close>) and the decision whether a user is who he says, \<open>Verify\<close>, as it is built on
  Linux with shadow passwords and without PAM and Kerberos.

  The user database, \<open>crypt\<close> and the daemon's own environment are the record \<open>accounts\<close>.
\<close>

section \<open>Data\<close>

record passwd =
  pw_passwd :: string
  pw_uid :: int
  pw_gid :: int
  pw_dir :: string
  pw_shell :: string

record accounts =
  n_getpwnam :: "string \<Rightarrow> passwd option"
  n_getspnam :: "string \<Rightarrow> string option"
  n_crypt :: "string \<Rightarrow> string \<Rightarrow> string option"
  n_getenv :: "string \<Rightarrow> string option"

record greet_info =
  gi_name :: string
  gi_password :: string
  gi_string :: "string option"
  gi_allow_null_passwd :: bool
  gi_allow_root_login :: bool

section \<open>Environments\<close>

text \<open>What \<open>asprintf\<close> makes of a string that may be NULL.\<close>

definition c_text :: "string option \<Rightarrow> string" where
  "c_text s = (case s of Some t \<Rightarrow> t | None \<Rightarrow> ''(null)'')"

definition defaultEnv :: "ext \<Rightarrow> accounts \<Rightarrow> string list option \<Rightarrow> env" where
  "defaultEnv E N exportList =
     fold (\<lambda>x env. case n_getenv N x of Some v \<Rightarrow> setEnv (x_calloc E 0) env x v | None \<Rightarrow> env)
       (case exportList of Some xs \<Rightarrow> xs | None \<Rightarrow> []) None"

definition systemEnv ::
    "ext \<Rightarrow> accounts \<Rightarrow> string list option \<Rightarrow> display \<Rightarrow> string option \<Rightarrow> string option \<Rightarrow> env" where
  "systemEnv E N exportList d user home =
     (let set = (\<lambda>x v env. setEnv (x_calloc E 0) env x v);
          set_some = (\<lambda>x v env. case v of Some s \<Rightarrow> set x s env | None \<Rightarrow> env);
          env = set ''DISPLAY'' (d_name d) (defaultEnv E N exportList);
          env = set_some ''HOME'' home env;
          env = set_some ''LOGNAME'' user (set_some ''USER'' user env);
          env = set ''PATH'' (c_text (se_systemPath (d_session d))) env;
          env = set ''SHELL'' (c_text (se_systemShell (d_session d))) env;
          env = set_some ''XAUTHORITY'' (au_authFile (d_auth d)) env
      in set_some ''WINDOWPATH'' (d_windowPath d) env)"

definition envvars :: "string list" where
  "envvars = [''TZ'']"

definition userEnv ::
    "ext \<Rightarrow> accounts \<Rightarrow> string list option \<Rightarrow> display \<Rightarrow> bool \<Rightarrow> string \<Rightarrow> string \<Rightarrow> string \<Rightarrow> env" where
  "userEnv E N exportList d useSystemPath user home shell =
     (let set = (\<lambda>x v env. setEnv (x_calloc E 0) env x v);
          env = set ''DISPLAY'' (d_name d) (defaultEnv E N exportList);
          env = set ''HOME'' home env;
          env = set ''LOGNAME'' user env;
          env = set ''USER'' user env;
          env = set ''PATH'' (c_text (if useSystemPath then se_systemPath (d_session d) else se_userPath (d_session d))) env;
          env = set ''SHELL'' shell env
      in fold (\<lambda>x env. case n_getenv N x of Some v \<Rightarrow> set x v env | None \<Rightarrow> env) envvars env)"

section \<open>Verification\<close>

text \<open>The hash the password is compared with: that of the shadow file, where it has one.\<close>

definition user_pass :: "accounts \<Rightarrow> string \<Rightarrow> passwd \<Rightarrow> string" where
  "user_pass N name p = (case n_getspnam N name of Some s \<Rightarrow> s | None \<Rightarrow> pw_passwd p)"

definition session_argv :: "ext \<Rightarrow> display \<Rightarrow> greet_info \<Rightarrow> string list option" where
  "session_argv E d g =
     (let mem = x_calloc E 0;
          argv = (case se_session (d_session d) of Some s \<Rightarrow> parseArgs mem None s | None \<Rightarrow> None);
          argv = (case gi_string g of Some s \<Rightarrow> parseArgs mem argv s | None \<Rightarrow> argv)
      in if argv = None then parseArgs mem None ''xsession'' else argv)"

definition Verify ::
    "ext \<Rightarrow> accounts \<Rightarrow> string list option \<Rightarrow> display \<Rightarrow> greet_info \<Rightarrow> verify_info \<Rightarrow> bool \<times> greet_info \<times> verify_info" where
  "Verify E N exportList d g v =
     (let refuse = (False, g\<lparr>gi_password := ''''\<rparr>, v)
      in case n_getpwnam N (gi_name g) of
           None \<Rightarrow> refuse
         | Some p \<Rightarrow>
             if gi_name g = '''' then refuse
             else if pw_uid p = 0 \<and> \<not> gi_allow_root_login g then refuse
             else if pw_passwd p = ''!'' \<or> pw_passwd p = ''*'' then refuse
             else
               (let pass = user_pass N (gi_name g) p
                in if n_crypt N (gi_password g) pass \<noteq> Some pass \<and>
                      (\<not> gi_allow_null_passwd g \<or> pw_passwd p \<noteq> '''') then refuse
                   else if pw_uid p = 0 \<and> \<not> gi_allow_root_login g then refuse
                   else (True, g,
                         v\<lparr>vi_uid := pw_uid p, vi_gid := pw_gid p, vi_argv := session_argv E d g,
                           vi_userEnviron := userEnv E N exportList d (pw_uid p = 0) (gi_name g) (pw_dir p) (pw_shell p),
                           vi_systemEnviron := systemEnv E N exportList d (Some (gi_name g)) (Some (pw_dir p))\<rparr>)))"

section \<open>What the environments hold\<close>

lemma getEnv_put:
  "env_name n \<Longrightarrow> env_name m \<Longrightarrow> getEnv (setEnv True e m v) n = (if n = m then Some v else getEnv e n)"
  by (simp add: env_ops.get_put_same env_ops.get_put_other)

text \<open>Copying variables from the daemon's environment is a sequence of assignments.\<close>

definition exported :: "accounts \<Rightarrow> string list \<Rightarrow> (string \<times> string) list" where
  "exported N xs = concat (map (\<lambda>x. case n_getenv N x of Some v \<Rightarrow> [(x, v)] | None \<Rightarrow> []) xs)"

lemma fold_exported:
  "fold (\<lambda>x env. case n_getenv N x of Some v \<Rightarrow> setEnv True env x v | None \<Rightarrow> env) xs e =
    fold (\<lambda>(m, v) e. setEnv True e m v) (exported N xs) e"
  by (induction xs arbitrary: e) (simp_all add: exported_def split: option.split)

lemma set_exported: "set (exported N xs) = {(x, v). x \<in> set xs \<and> n_getenv N x = Some v}"
  by (auto simp: exported_def split: option.splits)

lemma map_of_exported: "map_of (rev (exported N xs)) x = (if x \<in> set xs then n_getenv N x else None)"
proof (cases "map_of (rev (exported N xs)) x")
  case None
  then show ?thesis using set_exported [of N xs] by (force simp: map_of_eq_None_iff image_iff)
next
  case (Some v)
  then have "(x, v) \<in> set (exported N xs)" using map_of_SomeD by fastforce
  with Some show ?thesis by (simp add: set_exported)
qed

lemma getEnv_exported:
  fixes N :: accounts
  assumes "env_name x" "\<forall>y \<in> set xs. env_name y"
  shows "getEnv (fold (\<lambda>x env. case n_getenv N x of Some v \<Rightarrow> setEnv True env x v | None \<Rightarrow> env) xs e) x =
    (if x \<in> set xs \<and> n_getenv N x \<noteq> None then n_getenv N x else getEnv e x)"
proof -
  have "\<forall>(m, v) \<in> set (exported N xs). env_name m" using assms(2) by (auto simp: set_exported)
  from env_ops.get_puts [OF assms(1) this] show ?thesis
    by (auto simp: fold_exported map_of_exported)
qed

lemma getEnv_None [simp]: "getEnv None x = None"
  by (simp add: getEnv_def)

lemma getEnv_defaultEnv:
  assumes "x_calloc E 0" "env_name x" "\<forall>y \<in> set exports. env_name y"
  shows "getEnv (defaultEnv E N (Some exports)) x = (if x \<in> set exports then n_getenv N x else None)"
  using getEnv_exported [OF assms(2,3), of N None] unfolding defaultEnv_def eqTrueI [OF assms(1)] by auto

lemma literal_names:
  "env_name ''DISPLAY''" "env_name ''HOME''" "env_name ''LOGNAME''" "env_name ''USER''" "env_name ''PATH''"
  "env_name ''SHELL''" "env_name ''TZ''" "env_name ''XAUTHORITY''" "env_name ''WINDOWPATH''"
  by (simp_all add: env_name_def)

lemma getEnv_userEnv:
  assumes "x_calloc E 0" "env_name x" "\<forall>y \<in> set exports. env_name y"
  shows "getEnv (userEnv E N (Some exports) d useSystemPath user home shell) x =
    (if x = ''TZ'' \<and> n_getenv N x \<noteq> None then n_getenv N x
     else if x = ''SHELL'' then Some shell
     else if x = ''PATH'' then Some (c_text (if useSystemPath then se_systemPath (d_session d) else se_userPath (d_session d)))
     else if x = ''USER'' \<or> x = ''LOGNAME'' then Some user
     else if x = ''HOME'' then Some home
     else if x = ''DISPLAY'' then Some (d_name d)
     else if x \<in> set exports then n_getenv N x else None)"
proof -
  have e: "\<forall>y \<in> set envvars. env_name y" by (simp add: envvars_def literal_names)
  show ?thesis
    unfolding userEnv_def Let_def eqTrueI [OF assms(1)] getEnv_exported [OF assms(2) e]
    using getEnv_defaultEnv [OF assms, of N]
    by (cases "x = ''TZ''") (simp_all add: envvars_def getEnv_put assms(2) literal_names)
qed

lemma getEnv_systemEnv:
  assumes "x_calloc E 0" "env_name x" "\<forall>y \<in> set exports. env_name y"
  shows "getEnv (systemEnv E N (Some exports) d (Some user) (Some home)) x =
    (if x = ''WINDOWPATH'' \<and> d_windowPath d \<noteq> None then d_windowPath d
     else if x = ''XAUTHORITY'' \<and> au_authFile (d_auth d) \<noteq> None then au_authFile (d_auth d)
     else if x = ''SHELL'' then Some (c_text (se_systemShell (d_session d)))
     else if x = ''PATH'' then Some (c_text (se_systemPath (d_session d)))
     else if x = ''USER'' \<or> x = ''LOGNAME'' then Some user
     else if x = ''HOME'' then Some home
     else if x = ''DISPLAY'' then Some (d_name d)
     else if x \<in> set exports then n_getenv N x else None)"
  unfolding systemEnv_def Let_def
  using assms(1) getEnv_defaultEnv [OF assms, of N]
  by (simp add: getEnv_put assms(2) literal_names split: option.split)

section \<open>Properties\<close>

text \<open>What a user needs to be let in.\<close>

definition may_log_in :: "accounts \<Rightarrow> greet_info \<Rightarrow> passwd \<Rightarrow> bool" where
  "may_log_in N g p \<longleftrightarrow>
     gi_name g \<noteq> '''' \<and> (pw_uid p = 0 \<longrightarrow> gi_allow_root_login g) \<and> pw_passwd p \<notin> {''!'', ''*''} \<and>
     (n_crypt N (gi_password g) (user_pass N (gi_name g) p) = Some (user_pass N (gi_name g) p) \<or>
      gi_allow_null_passwd g \<and> pw_passwd p = '''')"

lemma Verify_refuse:
  assumes "\<forall>p. n_getpwnam N (gi_name g) = Some p \<longrightarrow> \<not> may_log_in N g p"
  shows "Verify E N exportList d g v = (False, g\<lparr>gi_password := ''''\<rparr>, v)"
  using assms by (auto simp: Verify_def may_log_in_def Let_def split: option.split)

lemma Verify_accept:
  assumes "n_getpwnam N (gi_name g) = Some p" "may_log_in N g p"
  shows "Verify E N exportList d g v =
    (True, g, v\<lparr>vi_uid := pw_uid p, vi_gid := pw_gid p, vi_argv := session_argv E d g,
       vi_userEnviron := userEnv E N exportList d (pw_uid p = 0) (gi_name g) (pw_dir p) (pw_shell p),
       vi_systemEnviron := systemEnv E N exportList d (Some (gi_name g)) (Some (pw_dir p))\<rparr>)"
  using assms by (auto simp: Verify_def may_log_in_def Let_def)

text \<open>C11: verification.  A user is accepted exactly when the account exists, is neither locked nor a
  refused root account, and the password hashes to what the shadow file, or without an entry there the
  password file, holds, or null passwords are allowed and the password file has none.  The session then gets
  the account's user and group, and its environment holds for every name exactly what this table says; a
  user who is refused leaves the record of the session as it was, and the password is wiped.\<close>

theorem Verify_spec:
  assumes "Verify E N (Some exports) d g v = (ok, g', v')" "x_calloc E 0" "\<forall>y \<in> set exports. env_name y"
  shows "(ok \<longleftrightarrow> (\<exists>p. n_getpwnam N (gi_name g) = Some p \<and> may_log_in N g p)) \<and>
    (\<not> ok \<longrightarrow> v' = v \<and> gi_password g' = '''') \<and>
    (ok \<longrightarrow> (\<exists>p. n_getpwnam N (gi_name g) = Some p \<and> vi_uid v' = pw_uid p \<and> vi_gid v' = pw_gid p \<and>
      (\<forall>x. env_name x \<longrightarrow> getEnv (vi_userEnviron v') x =
        (if x = ''TZ'' \<and> n_getenv N x \<noteq> None then n_getenv N x
         else if x = ''SHELL'' then Some (pw_shell p)
         else if x = ''PATH'' then Some (c_text (if pw_uid p = 0 then se_systemPath (d_session d) else se_userPath (d_session d)))
         else if x = ''USER'' \<or> x = ''LOGNAME'' then Some (gi_name g)
         else if x = ''HOME'' then Some (pw_dir p)
         else if x = ''DISPLAY'' then Some (d_name d)
         else if x \<in> set exports then n_getenv N x else None))))"
proof (cases "\<exists>p. n_getpwnam N (gi_name g) = Some p \<and> may_log_in N g p")
  case True
  then obtain p where p: "n_getpwnam N (gi_name g) = Some p" "may_log_in N g p" by blast
  with assms(1) Verify_accept [OF p] have "ok"
    "v' = v\<lparr>vi_uid := pw_uid p, vi_gid := pw_gid p, vi_argv := session_argv E d g,
       vi_userEnviron := userEnv E N (Some exports) d (pw_uid p = 0) (gi_name g) (pw_dir p) (pw_shell p),
       vi_systemEnviron := systemEnv E N (Some exports) d (Some (gi_name g)) (Some (pw_dir p))\<rparr>" by auto
  then show ?thesis using p getEnv_userEnv [OF assms(2) _ assms(3)] by auto
next
  case False
  then have "ok = False" "g' = g\<lparr>gi_password := ''''\<rparr>" "v' = v" using assms(1) Verify_refuse [of N g E "Some exports" d v] by auto
  with False show ?thesis by simp
qed

section \<open>An example\<close>

text \<open>Two accounts: that of alice has its hash in the shadow file and \<open>x\<close> in the other, that of bob
  has nothing in the one and a hash in the other.\<close>

definition sample_accounts :: accounts where
  "sample_accounts =
     \<lparr>n_getpwnam = (\<lambda>n. if n = ''alice'' then Some \<lparr>pw_passwd = ''x'', pw_uid = 1000, pw_gid = 100, pw_dir = ''/home/alice'', pw_shell = ''/bin/sh''\<rparr>
        else if n = ''bob'' then Some \<lparr>pw_passwd = '''', pw_uid = 1001, pw_gid = 100, pw_dir = ''/home/bob'', pw_shell = ''/bin/sh''\<rparr> else None),
      n_getspnam = (\<lambda>n. Some (n @ ''-hash'')), n_crypt = (\<lambda>p s. if s = p @ ''-hash'' then Some s else None),
      n_getenv = (\<lambda>n. if n = ''LANG'' then Some ''C'' else None)\<rparr>"

definition sample_greet :: "string \<Rightarrow> string \<Rightarrow> bool \<Rightarrow> greet_info" where
  "sample_greet name pass null = \<lparr>gi_name = name, gi_password = pass, gi_string = None, gi_allow_null_passwd = null,
     gi_allow_root_login = False\<rparr>"

theorem Verify_spec_witness:
  "\<exists>g v. Verify std_ext sample_accounts (Some [''LANG'']) (new_display '':0'' None) (sample_greet ''alice'' ''alice'' False) (sample_user '''') = (True, g, v) \<and>
    vi_uid v = 1000 \<and> getEnv (vi_userEnviron v) ''HOME'' = Some ''/home/alice'' \<and> getEnv (vi_userEnviron v) ''LANG'' = Some ''C''"
proof -
  obtain ok g v where r: "Verify std_ext sample_accounts (Some [''LANG'']) (new_display '':0'' None)
      (sample_greet ''alice'' ''alice'' False) (sample_user '''') = (ok, g, v)" by (metis prod_cases3)
  have e: "\<forall>y \<in> set [''LANG'']. env_name y" "env_name ''HOME''" "env_name ''LANG''" by (simp_all add: env_name_def)
  have "ok" "vi_uid v = 1000" "getEnv (vi_userEnviron v) ''HOME'' = Some ''/home/alice''" "getEnv (vi_userEnviron v) ''LANG'' = Some ''C''"
    using Verify_spec [OF r] e
    by (simp_all add: std_ext_def sample_greet_def sample_accounts_def may_log_in_def user_pass_def)
  with r show ?thesis by auto
qed

text \<open>Null passwords are decided by the wrong file.  An account whose entry in the password file has
  no password is open to everybody, whatever is typed and whatever the shadow file holds, when null
  passwords are allowed; and one whose password in the shadow file is empty is not, as long as its other
  entry is not empty too.\<close>

theorem null_password_of_passwd_file:
  assumes "n_getpwnam N (gi_name g) = Some p" "gi_name g \<noteq> ''''" "pw_uid p \<noteq> 0" "gi_allow_null_passwd g"
  shows "(pw_passwd p = '''' \<longrightarrow> fst (Verify E N exports d (g\<lparr>gi_password := pass\<rparr>) v)) \<and>
    (pw_passwd p = ''x'' \<and> n_getspnam N (gi_name g) = Some '''' \<and> n_crypt N '''' '''' \<noteq> Some '''' \<longrightarrow>
      \<not> fst (Verify E N exports d (g\<lparr>gi_password := ''''\<rparr>) v))"
proof (intro conjI impI)
  assume "pw_passwd p = ''''"
  then have "may_log_in N (g\<lparr>gi_password := pass\<rparr>) p" using assms by (simp add: may_log_in_def)
  then show "fst (Verify E N exports d (g\<lparr>gi_password := pass\<rparr>) v)"
    using assms(1) Verify_accept [of N "g\<lparr>gi_password := pass\<rparr>" p] by simp
next
  assume x: "pw_passwd p = ''x'' \<and> n_getspnam N (gi_name g) = Some '''' \<and> n_crypt N '''' '''' \<noteq> Some ''''"
  then have "\<not> may_log_in N (g\<lparr>gi_password := ''''\<rparr>) p" by (simp add: may_log_in_def user_pass_def)
  then have "Verify E N exports d (g\<lparr>gi_password := ''''\<rparr>) v = (False, g\<lparr>gi_password := ''''\<rparr>\<lparr>gi_password := ''''\<rparr>, v)"
    using assms(1) by (intro Verify_refuse) simp
  then show "\<not> fst (Verify E N exports d (g\<lparr>gi_password := ''''\<rparr>) v)" by simp
qed

theorem null_password_of_passwd_file_witness:
  "fst (Verify std_ext sample_accounts None (new_display '':0'' None) (sample_greet ''bob'' ''anything'' True) (sample_user ''''))"
  using null_password_of_passwd_file [of sample_accounts "sample_greet ''bob'' '''' True"
      "\<lparr>pw_passwd = '''', pw_uid = 1001, pw_gid = 100, pw_dir = ''/home/bob'', pw_shell = ''/bin/sh''\<rparr>"
      std_ext None "new_display '':0'' None" "''anything''" "sample_user ''''"]
  by (simp add: sample_accounts_def sample_greet_def)

end
