(* ===== verification/Session.thy ===== *)
theory Session
  imports Verify Manage
begin

text \<open>
  The process that runs a session, \<open>xdm/session.c\<close>: running programs, starting the user's client
  with the user's rights, waiting for it, and the end of the session.

  The process and the processes it forks are told by what they do to the outside, oldest first; a
  forked child is an entry of its parent's list that holds what the child does.  What the system
  answers is the record \<open>sys\<close>: a program that \<open>execve\<close> can run replaces the process.  The
  signals SIGTERM and SIGALRM arrive while the process waits for its client.
\<close>

section \<open>Running programs\<close>

datatype exec_error = ENOENT | Other_error

text \<open>How a process ends: with a status, as another program, or it is still waiting.\<close>

datatype process_end = Exits int | Becomes | Waits

datatype call =
    Execve string "string list" env
  | Child "c_error + (bool \<times> call list)"
  | SetGid int
  | InitGroups string int
  | SetUid int
  | ChDir string
  | WipePassword
  | WroteAuth "(string \<times> Xauth list) option"
  | Client "c_error + (process_end \<times> call list)"
  | KillGroup int int
  | Signal int int
  | ResetServer
  | DeleteXloginResources
  | DisableAccess

datatype abort_answer = KillFailed | Collected int | TimedOut

record sys =
  y_ext :: ext
  y_accounts :: accounts
  y_exportList :: "string list option"
  y_execve :: "string \<Rightarrow> exec_error option"
  y_fopen :: "string \<Rightarrow> string option"
  y_access :: "string \<Rightarrow> bool"
  y_fork :: "string list option \<Rightarrow> int"
  y_status :: "string list option \<Rightarrow> int"
  y_client_fork :: int
  y_setgid :: "int \<Rightarrow> bool"
  y_initgroups :: "string \<Rightarrow> int \<Rightarrow> bool"
  y_setuid :: "int \<Rightarrow> bool"
  y_chdir :: "string \<Rightarrow> bool"
  y_login_files :: user_files
  y_logout_files :: user_files
  y_abort :: "nat \<Rightarrow> abort_answer"
  y_greeter_loads :: bool
  y_opens :: bool
  y_secures :: bool
  y_allow_null_passwd :: bool
  y_allow_root_login :: bool

text \<open>The interpreter a script names in its first line and the argument behind it, which is all of the
  rest of the line.\<close>

definition script_command :: "string \<Rightarrow> string \<times> string option" where
  "script_command line =
     (let l = (if line \<noteq> [] \<and> last line = CHR 0x0A then butlast line else line)
      in if take 2 l = ''#!'' then
           (let p = dropWhile isspace (drop 2 l);
                prog = takeWhile (\<lambda>c. \<not> isspace c) p;
                r = drop (length prog) p
            in (prog, if r \<noteq> [] then Some (dropWhile isspace r) else None))
         else (''/bin/sh'', None))"

text \<open>True when the process has become another program; otherwise \<open>execute\<close> returns.\<close>

definition execute :: "sys \<Rightarrow> string list \<Rightarrow> env \<Rightarrow> c_error + (bool \<times> call list)" where
  "execute Y argv env =
     (case argv of
        [] \<Rightarrow> Inl NullDeref
      | file # _ \<Rightarrow>
          (let first = [Execve file argv env]
           in case y_execve Y file of
                None \<Rightarrow> Inr (True, first)
              | Some ENOENT \<Rightarrow> Inr (False, first)
              | Some Other_error \<Rightarrow>
                  (case y_fopen Y file of
                     None \<Rightarrow> Inr (False, first)
                   | Some content \<Rightarrow>
                       (let line = cstr (fst (fgets1 1023 content))
                        in if line = [] \<or> \<not> x_calloc (y_ext Y) (length argv) then Inr (False, first)
                           else (let (p, optarg) = script_command line;
                                     newargv = p # (case optarg of Some a \<Rightarrow> [a] | None \<Rightarrow> []) @ argv
                                 in Inr (y_execve Y p = None, first @ [Execve p newargv env]))))))"

text \<open>The status of the child, or 1 when there is none.\<close>

definition runAndWait :: "sys \<Rightarrow> string list option \<Rightarrow> env \<Rightarrow> c_error + (int \<times> call list)" where
  "runAndWait Y args env =
     (if y_fork Y args = -1 then (case args of None \<Rightarrow> Inl NullDeref | Some _ \<Rightarrow> Inr (1, []))
      else Inr (y_status Y args, [Child (case args of None \<Rightarrow> Inl NullDeref | Some a \<Rightarrow> execute Y a env)]))"

text \<open>When memory runs out the vector is an array on the stack, which is freed like the other.\<close>

definition source :: "sys \<Rightarrow> env \<Rightarrow> string option \<Rightarrow> c_error + (int \<times> call list)" where
  "source Y env file =
     (case file of
        None \<Rightarrow> Inr (0, [])
      | Some f \<Rightarrow>
          (if f = '''' \<or> y_fopen Y f = None then Inr (0, [])
           else case parseArgs (x_calloc (y_ext Y) 0) None f of
                  Some args \<Rightarrow> runAndWait Y (Some args) env
                | None \<Rightarrow> bindE (runAndWait Y (Some [f]) env) (\<lambda>r. Inl BadFree)))"

abbreviation system_env :: "sys \<Rightarrow> display \<Rightarrow> env" where
  "system_env Y d \<equiv> systemEnv (y_ext Y) (y_accounts Y) (y_exportList Y) d None None"

definition LoadXloginResources :: "sys \<Rightarrow> display \<Rightarrow> c_error + call list" where
  "LoadXloginResources Y d =
     (case se_resources (d_session d) of
        None \<Rightarrow> Inl NullDeref
      | Some f \<Rightarrow>
          (if f = '''' \<or> \<not> y_access Y f then Inr []
           else case se_xrdb (d_session d) of
                  None \<Rightarrow> Inl NullDeref
                | Some xrdb \<Rightarrow>
                    (let mem = x_calloc (y_ext Y) 0
                     in mapE snd (runAndWait Y (parseArgs mem (parseArgs mem None xrdb) f) (system_env Y d)))))"

definition SetupDisplay :: "sys \<Rightarrow> display \<Rightarrow> c_error + call list" where
  "SetupDisplay Y d =
     (case se_setup (d_session d) of
        None \<Rightarrow> Inr []
      | Some f \<Rightarrow> if f = '''' then Inr [] else mapE snd (source Y (system_env Y d) (Some f)))"

section \<open>The end of a session\<close>

abbreviation (input) SIGKILL :: int where "SIGKILL \<equiv> 9"

primrec abort_loop :: "(nat \<Rightarrow> abort_answer) \<Rightarrow> int \<Rightarrow> int \<Rightarrow> nat \<Rightarrow> nat \<Rightarrow> call list" where
  "abort_loop ans pid sig i 0 = []"
| "abort_loop ans pid sig i (Suc n) =
     KillGroup pid sig #
     (case ans i of
        KillFailed \<Rightarrow> []
      | Collected r \<Rightarrow> if r = pid then [] else abort_loop ans pid SIGKILL (Suc i) n
      | TimedOut \<Rightarrow> abort_loop ans pid SIGKILL (Suc i) n)"

definition AbortClient :: "sys \<Rightarrow> int \<Rightarrow> call list" where
  "AbortClient Y pid = abort_loop (y_abort Y) pid SIGTERM 0 4"

text \<open>The process exits with the status; first the server is told to reset, and the user's authority
  file is cleaned up with the user's rights.\<close>

definition SessionExit :: "sys \<Rightarrow> display \<Rightarrow> verify_info \<Rightarrow> bool \<Rightarrow> c_error + call list" where
  "SessionExit Y d v removeAuth =
     (let reset = [if 2 \<le> d_serverPid d \<and> sr_resetSignal (d_server d) \<noteq> 0
                   then Signal (d_serverPid d) (sr_resetSignal (d_server d)) else ResetServer]
      in if \<not> removeAuth then Inr reset
         else if \<not> y_setgid Y (vi_gid v) then Inr (reset @ [SetGid (vi_gid v)])
         else if \<not> y_setuid Y (vi_uid v) then Inr (reset @ [SetGid (vi_gid v), SetUid (vi_uid v)])
         else mapE (\<lambda>(d', file). reset @ [SetGid (vi_gid v), SetUid (vi_uid v), WroteAuth file])
                (RemoveUserAuthorization (y_ext Y) (y_logout_files Y) d v))"

definition finish_session ::
    "sys \<Rightarrow> display \<Rightarrow> verify_info \<Rightarrow> int \<Rightarrow> c_error + (process_end \<times> call list)" where
  "finish_session Y d v status =
     bindE (source Y (vi_systemEnviron v) (se_reset (d_session d))) (\<lambda>(r, cs).
       mapE (\<lambda>cs'. (Exits status, cs @ cs')) (SessionExit Y d v True))"

definition SessionPingFailed ::
    "sys \<Rightarrow> display \<Rightarrow> verify_info \<Rightarrow> int \<Rightarrow> c_error + (process_end \<times> call list)" where
  "SessionPingFailed Y d v clientPid =
     (if 1 < clientPid
      then mapE (map_prod id (append (AbortClient Y clientPid))) (finish_session Y d v RESERVER_DISPLAY)
      else mapE (Pair (Exits RESERVER_DISPLAY)) (SessionExit Y d v True))"

section \<open>The client\<close>

text \<open>The child up to the point where it has the user's rights; None when it has returned to
  \<open>ManageSession\<close> because the system refused.\<close>

definition become_user :: "sys \<Rightarrow> verify_info \<Rightarrow> string \<Rightarrow> bool \<times> call list" where
  "become_user Y v name =
     (if \<not> y_setgid Y (vi_gid v) then (False, [SetGid (vi_gid v)])
      else if \<not> y_initgroups Y name (vi_gid v) then (False, [SetGid (vi_gid v), InitGroups name (vi_gid v)])
      else (y_setuid Y (vi_uid v), [SetGid (vi_gid v), InitGroups name (vi_gid v), SetUid (vi_uid v)]))"

definition go_home :: "sys \<Rightarrow> env \<Rightarrow> env \<times> call list" where
  "go_home Y env =
     (case getEnv env ''HOME'' of
        None \<Rightarrow> (env, [])
      | Some home \<Rightarrow>
          if y_chdir Y home then (env, [ChDir home])
          else (setEnv (x_calloc (y_ext Y) 0) env ''HOME'' ''/'', [ChDir home, ChDir ''/'']))"

text \<open>The session, and when it cannot be executed the failsafe client.\<close>

definition run_client :: "sys \<Rightarrow> display \<Rightarrow> string list option \<Rightarrow> env \<Rightarrow> c_error + (process_end \<times> call list)" where
  "run_client Y d argv env =
     bindE (case argv of None \<Rightarrow> Inr (False, []) | Some a \<Rightarrow> execute Y a env) (\<lambda>(ran, cs).
       if ran then Inr (Becomes, cs)
       else mapE (\<lambda>(ran', cs'). (if ran' then Becomes else Exits 1, cs @ cs'))
              (execute Y (case se_failsafeClient (d_session d) of Some f \<Rightarrow> [f] | None \<Rightarrow> []) env))"

text \<open>The child of the client's \<open>fork\<close>.  One that is refused the user's rights returns 0 to the
  caller, in which it goes on as if it were the parent.\<close>

definition client_process :: "sys \<Rightarrow> display \<Rightarrow> verify_info \<Rightarrow> string \<Rightarrow> c_error + (process_end \<times> call list)" where
  "client_process Y d v name =
     (case become_user Y v name of
        (False, cs) \<Rightarrow> mapE (map_prod id (append cs)) (finish_session Y d v OBEYSESS_DISPLAY)
      | (True, cs) \<Rightarrow>
          (let mem = x_calloc (y_ext Y) 0;
               env = (case d_windowPath d of
                        Some p \<Rightarrow> setEnv mem (vi_userEnviron v) ''WINDOWPATH'' p | None \<Rightarrow> vi_userEnviron v)
           in bindE (SetUserAuthorization (y_ext Y) (y_login_files Y) d (v\<lparr>vi_userEnviron := env\<rparr>)) (\<lambda>(d', v', file).
                let (env', moved) = go_home Y (vi_userEnviron v')
                in mapE (map_prod id (append (cs @ [WipePassword, WroteAuth file] @ moved)))
                     (run_client Y d' (vi_argv v') env'))))"

text \<open>The process id of the client, None when it could not be forked, for the parent.\<close>

definition StartClient :: "sys \<Rightarrow> display \<Rightarrow> verify_info \<Rightarrow> string \<Rightarrow> int option \<times> call list" where
  "StartClient Y d v name =
     (if y_client_fork Y = -1 then (None, [WipePassword])
      else (Some (y_client_fork Y), [Client (client_process Y d v name), WipePassword]))"

text \<open>While the process waits for the client: a child has ended, the time of a ping has come and the
  server answers it or not, or the daemon asks the session to end.\<close>

datatype wait_event = Ended int | Ping bool | Terminated

fun wait_client :: "sys \<Rightarrow> display \<Rightarrow> verify_info \<Rightarrow> int \<Rightarrow> wait_event list \<Rightarrow> c_error + (process_end \<times> call list)" where
  "wait_client Y d v pid [] = Inr (Waits, [])"
| "wait_client Y d v pid (Ended p # es) =
     (if p = pid then finish_session Y d v OBEYSESS_DISPLAY else wait_client Y d v pid es)"
| "wait_client Y d v pid (Ping answers # es) =
     (if sr_pingInterval (d_server d) \<noteq> 0 \<and> \<not> answers then SessionPingFailed Y d v pid
      else wait_client Y d v pid es)"
| "wait_client Y d v pid (Terminated # es) =
     mapE (map_prod id (append (AbortClient Y pid))) (finish_session Y d v OBEYSESS_DISPLAY)"

definition run_session ::
    "sys \<Rightarrow> display \<Rightarrow> verify_info \<Rightarrow> string \<Rightarrow> wait_event list \<Rightarrow> c_error + (process_end \<times> call list)" where
  "run_session Y d v name es =
     (case StartClient Y d v name of
        (None, cs) \<Rightarrow> mapE (map_prod id (append cs)) (finish_session Y d v OBEYSESS_DISPLAY)
      | (Some pid, cs) \<Rightarrow> mapE (map_prod id (append cs)) (wait_client Y d v pid es))"

end
