(* ===== verification/Login.thy ===== *)
theory Login
  imports Prelude
begin

text \<open>
  The login widget, \<open>greeter/Login.c\<close>, as it is built with Xft and a logo: its prompts, where
  things are drawn, and the drawing of values, cursor and messages.  \<open>Login_Edit\<close> has what the
  keys do.

  A value is the whole buffer it is kept in, so that reading and writing past it are visible.  What
  is drawn is a list, newest first.  Fonts, the sizes of the widget and the resources the code only
  reads are the record \<open>look\<close>.  Signed arithmetic does not wrap; where the code mixes in the
  unsigned size of the logo, the result is taken modulo \<open>2 ^ 32\<close> as the compiler does.
\<close>

section \<open>Data\<close>

datatype loginPromptState =
  LOGIN_PROMPT_NOT_SHOWN | LOGIN_PROMPT_ECHO_ON | LOGIN_PROMPT_ECHO_OFF | LOGIN_TEXT_INFO

datatype login_state = INITIALIZING | PROMPTING | SHOW_MESSAGE | DONE

record loginPromptData =
  lp_promptText :: "string option"
  lp_defaultPrompt :: string
  lp_valueText :: string
  lp_valueShownStart :: nat
  lp_valueShownEnd :: nat
  lp_cursor :: nat
  lp_state :: loginPromptState

definition LAST_PROMPT :: nat where
  "LAST_PROMPT = 1"

datatype lfont = TextFont | PromptFont | GreetFont | FailFont

datatype gc = TextGC | BgGC | XorGC | HiGC | ShdGC | InpGC

datatype draw =
    FillRectangle gc int int int int
  | DrawLine gc int int int int
  | DrawPoint gc int int
  | DrawString lfont int int string
  | ClearArea int int int int
  | Flush
  | Bell
  | SetFocus
  | Sleep int

record look =
  k_width_of :: "lfont \<Rightarrow> string \<Rightarrow> int"
  k_advance :: "lfont \<Rightarrow> int"
  k_ascent :: "lfont \<Rightarrow> int"
  k_descent :: "lfont \<Rightarrow> int"
  k_width :: int
  k_height :: int
  k_outframewidth :: int
  k_inframeswidth :: int
  k_sepwidth :: int
  k_logoWidth :: int
  k_logoPadding :: int
  k_greeting :: string
  k_unsecure_greet :: string
  k_namePrompt :: string
  k_passwdPrompt :: string
  k_failMsg :: string
  k_passwdChangeMsg :: string
  k_failTimeout :: int
  k_secure_session :: bool
  k_echo_passwd :: bool
  k_echo_passwd_char :: string
  k_NAME_LEN :: nat
  k_PASSWORD_LEN :: nat
  k_strdup :: bool

text \<open>The part of the widget that changes, and behind it the static variables of \<open>greet.c\<close> the
  widget's callback sets.\<close>

record login =
  lw_state :: login_state
  lw_activePrompt :: nat
  lw_failUp :: bool
  lw_fail :: string
  lw_prompts :: "loginPromptData list"
  lw_sessionArg :: "string option"
  lw_allow_access :: bool
  lw_interval_id :: bool
  lw_msgTimeout :: int
  lw_drawn :: "draw list"
  gr_name :: string
  gr_password :: string
  gr_code :: int
  gr_done :: bool

definition paint :: "draw list \<Rightarrow> login \<Rightarrow> login" where
  "paint ds w = w\<lparr>lw_drawn := rev ds @ lw_drawn w\<rparr>"

definition prompt :: "nat \<Rightarrow> login \<Rightarrow> c_error + loginPromptData" where
  "prompt n w = (if n < length (lw_prompts w) then Inr (lw_prompts w ! n) else Inl OutOfBounds)"

definition set_prompt :: "nat \<Rightarrow> loginPromptData \<Rightarrow> login \<Rightarrow> login" where
  "set_prompt n p w = w\<lparr>lw_prompts := (lw_prompts w)[n := p]\<rparr>"

section \<open>Reading and writing buffers\<close>

definition strlen_from :: "string \<Rightarrow> nat \<Rightarrow> c_error + nat" where
  "strlen_from b i = (if NUL \<in> set (drop i b) then Inr (length (cstr (drop i b))) else Inl OutOfBounds)"

definition bytes_at :: "string \<Rightarrow> nat \<Rightarrow> nat \<Rightarrow> c_error + string" where
  "bytes_at b i n = (if i + n \<le> length b then Inr (take n (drop i b)) else Inl OutOfBounds)"

definition write_at :: "string \<Rightarrow> nat \<Rightarrow> string \<Rightarrow> c_error + string" where
  "write_at b i s = (if i + length s \<le> length b then Inr (take i b @ s @ drop (i + length s) b) else Inl OutOfBounds)"

section \<open>Where things are\<close>

definition u32 :: "int \<Rightarrow> int" where
  "u32 x = x mod 2 ^ 32"

definition i32 :: "int \<Rightarrow> int" where
  "i32 x = (x + 2 ^ 31) mod 2 ^ 32 - 2 ^ 31"

text \<open>C's division rounds to zero.\<close>

definition c_div :: "int \<Rightarrow> int \<Rightarrow> int" where
  "c_div a b = (if a < 0 then - (- a div b) else a div b)"

abbreviation F_Y_INC :: "look \<Rightarrow> lfont \<Rightarrow> int" where
  "F_Y_INC L f \<equiv> k_ascent L f + k_descent L f"

definition Y_INC :: "look \<Rightarrow> int" where
  "Y_INC L = max (F_Y_INC L TextFont) (F_Y_INC L PromptFont)"

definition LOGO_W :: "look \<Rightarrow> int" where
  "LOGO_W L = u32 (k_logoWidth L + k_logoPadding L * 2)"

definition TEXT_PROMPT_W :: "look \<Rightarrow> string \<Rightarrow> int" where
  "TEXT_PROMPT_W L m = k_width_of L PromptFont m + k_inframeswidth L"

definition CUR_PROMPT_W :: "look \<Rightarrow> loginPromptData \<Rightarrow> int" where
  "CUR_PROMPT_W L p =
     max (max (TEXT_PROMPT_W L (k_namePrompt L)) (TEXT_PROMPT_W L (k_passwdPrompt L)))
       (case lp_promptText p of Some m \<Rightarrow> TEXT_PROMPT_W L m | None \<Rightarrow> 0)"

definition GREETING :: "look \<Rightarrow> login \<Rightarrow> string" where
  "GREETING L w = (if k_secure_session L \<and> \<not> lw_allow_access w then k_greeting L else k_unsecure_greet L)"

definition GREET_X :: "look \<Rightarrow> login \<Rightarrow> int" where
  "GREET_X L w = c_div (k_width L - k_width_of L GreetFont (GREETING L w)) 2"

definition GREET_Y :: "look \<Rightarrow> login \<Rightarrow> int" where
  "GREET_Y L w = (if GREETING L w \<noteq> [] then 2 * F_Y_INC L GreetFont else 0)"

definition PROMPT_X :: "look \<Rightarrow> int" where
  "PROMPT_X L = 2 * k_advance L PromptFont"

definition PROMPT_SPACE_Y :: "look \<Rightarrow> int" where
  "PROMPT_SPACE_Y L = c_div (10 * Y_INC L) 5"

definition PROMPT_Y :: "look \<Rightarrow> login \<Rightarrow> nat \<Rightarrow> int" where
  "PROMPT_Y L w n =
     GREET_Y L w + F_Y_INC L GreetFont + k_ascent L GreetFont + Y_INC L + int n * PROMPT_SPACE_Y L"

definition PROMPT_W :: "look \<Rightarrow> int" where
  "PROMPT_W L = k_width L - 2 * k_advance L TextFont"

definition PROMPT_H :: "look \<Rightarrow> int" where
  "PROMPT_H L = c_div (5 * Y_INC L) 4"

definition VALUE_X :: "look \<Rightarrow> loginPromptData \<Rightarrow> int" where
  "VALUE_X L p = PROMPT_X L + CUR_PROMPT_W L p"

text \<open>Unsigned, because the width of the logo is.\<close>

definition MAX_VALUE_W :: "look \<Rightarrow> loginPromptData \<Rightarrow> int" where
  "MAX_VALUE_W L p = u32 (PROMPT_W L - VALUE_X L p - 5 - 1 - k_inframeswidth L * 2 - LOGO_W L)"

definition ERROR_W :: "look \<Rightarrow> string \<Rightarrow> int" where
  "ERROR_W L m = u32 (k_width_of L FailFont m + LOGO_W L)"

definition ERROR_X :: "look \<Rightarrow> string \<Rightarrow> int" where
  "ERROR_X L m = c_div (i32 (k_width L - LOGO_W L - k_width_of L FailFont m)) 2"

definition FAIL_Y :: "look \<Rightarrow> login \<Rightarrow> int" where
  "FAIL_Y L w = PROMPT_Y L w 1 + 2 * F_Y_INC L FailFont + k_ascent L FailFont"

definition PAD_X :: "look \<Rightarrow> int" where
  "PAD_X L = 2 * (PROMPT_X L + max (k_advance L GreetFont) (k_advance L FailFont))"

section \<open>Values\<close>

definition echo_char :: "look \<Rightarrow> char" where
  "echo_char L = (case k_echo_passwd_char L of [] \<Rightarrow> NUL | c # _ \<Rightarrow> c)"

text \<open>The buffer a value is drawn from: its own, or one of equal length full of echo characters.\<close>

definition masked :: "look \<Rightarrow> loginPromptData \<Rightarrow> bool" where
  "masked L p \<longleftrightarrow> lp_state p = LOGIN_PROMPT_ECHO_OFF \<and> k_echo_passwd L"

definition shown_buffer :: "look \<Rightarrow> loginPromptData \<Rightarrow> c_error + string" where
  "shown_buffer L p =
     (if masked L p then mapE (\<lambda>n. replicate n (echo_char L) @ [NUL]) (strlen_from (lp_valueText p) 0)
      else Inr (lp_valueText p))"

text \<open>The amount of text that fits, from \<open>offset\<close> on: the loop drops a character at a time, at the
  front as long as the cursor is behind it.\<close>

primrec fit :: "look \<Rightarrow> string \<Rightarrow> int \<Rightarrow> nat \<Rightarrow> nat \<Rightarrow> nat \<Rightarrow> nat \<times> nat" where
  "fit L b width cur off 0 = (off, 0)"
| "fit L b width cur off (Suc l) =
     (if width < k_width_of L TextFont (take (Suc l) (drop off b))
      then fit L b width cur (if off < cur then Suc off else off) l
      else (off, Suc l))"

definition realizeValue :: "look \<Rightarrow> gc \<Rightarrow> nat \<Rightarrow> nat \<Rightarrow> login \<Rightarrow> c_error + login" where
  "realizeValue L g cur n w =
     bindE (prompt n w) (\<lambda>p.
     bindE (shown_buffer L p) (\<lambda>b.
       let x = VALUE_X L p;
           y = PROMPT_Y L w n;
           height = PROMPT_H L - k_inframeswidth L * 2;
           width = i32 (MAX_VALUE_W L p);
           top = y - F_Y_INC L TextFont
       in bindE (if lp_valueShownStart p < cur then mapE (k_width_of L TextFont) (bytes_at b 0 cur) else Inr 0) (\<lambda>curoff.
          if g = BgGC then
            Inr (if curoff < width then paint [FillRectangle BgGC (x + curoff) top (width - curoff) height] w else w)
          else if lp_state p = LOGIN_PROMPT_ECHO_ON \<or> lp_state p = LOGIN_TEXT_INFO \<or> masked L p then
            (let offset = max cur (lp_valueShownStart p)
             in bindE (strlen_from b offset) (\<lambda>textlen.
                if width - curoff < k_width_of L TextFont (take textlen (drop offset b)) then
                  bindE (strlen_from b (lp_valueShownStart p)) (\<lambda>whole.
                    let (off, l) = fit L b width (lp_cursor p) (lp_valueShownStart p) whole
                    in Inr (paint [FillRectangle BgGC x top width height, DrawString TextFont x y (take l (drop off b))]
                         (set_prompt n (p\<lparr>lp_valueShownStart := off, lp_valueShownEnd := off + l\<rparr>) w)))
                else Inr (paint [DrawString TextFont (x + curoff) y (take textlen (drop offset b))] w)))
          else Inr w)))"

definition EraseValue :: "look \<Rightarrow> nat \<Rightarrow> nat \<Rightarrow> login \<Rightarrow> c_error + login" where
  "EraseValue L cur n w = realizeValue L BgGC cur n w"

definition DrawValue :: "look \<Rightarrow> nat \<Rightarrow> nat \<Rightarrow> login \<Rightarrow> c_error + login" where
  "DrawValue L cur n w = realizeValue L TextGC cur n w"

section \<open>The cursor\<close>

text \<open>How far the cursor is to the right of the value's left edge, None where no cursor is shown.  A
  negative length is not one the font library can measure.\<close>

definition cursor_offset :: "look \<Rightarrow> loginPromptData \<Rightarrow> c_error + int option" where
  "cursor_offset L p =
     (case lp_state p of
        LOGIN_PROMPT_NOT_SHOWN \<Rightarrow> Inr None
      | LOGIN_TEXT_INFO \<Rightarrow> Inr None
      | LOGIN_PROMPT_ECHO_ON \<Rightarrow>
          if 0 < lp_cursor p then
            (if lp_cursor p < lp_valueShownStart p then Inl OutOfBounds
             else mapE (\<lambda>s. Some (k_width_of L TextFont s))
                    (bytes_at (lp_valueText p) (lp_valueShownStart p) (lp_cursor p - lp_valueShownStart p)))
          else Inr (Some 0)
      | LOGIN_PROMPT_ECHO_OFF \<Rightarrow>
          Inr (Some
            (if k_echo_passwd L then
               (if echo_char L \<noteq> NUL
                then (int (lp_cursor p) - int (lp_valueShownStart p)) * k_width_of L TextFont [echo_char L]
                else if int (lp_cursor p) < MAX_VALUE_W L p then int (lp_cursor p)
                else i32 (MAX_VALUE_W L p))
             else 0)))"

definition realizeCursor :: "look \<Rightarrow> gc \<Rightarrow> login \<Rightarrow> c_error + login" where
  "realizeCursor L g w =
     (if lw_state w \<noteq> PROMPTING then Inr w
      else
        bindE (prompt (lw_activePrompt w) w) (\<lambda>p.
        bindE (cursor_offset L p) (\<lambda>c.
          case c of
            None \<Rightarrow> Inr w
          | Some dx \<Rightarrow>
              (let x = VALUE_X L p + dx;
                   y = PROMPT_Y L w (lw_activePrompt w);
                   height = F_Y_INC L TextFont;
                   top = y - k_ascent L TextFont
               in Inr (paint
                    ([FillRectangle g x (top + 1) 1 (height - 1)] @
                     concat (map (\<lambda>d. [DrawPoint g (x - d) top, DrawPoint g (x + d) top,
                                       DrawPoint g (x - d) (top + height), DrawPoint g (x + d) (top + height)]) [1, 2]) @
                     [Flush]) w)))))"

abbreviation XorCursor :: "look \<Rightarrow> login \<Rightarrow> c_error + login" where
  "XorCursor L w \<equiv> realizeCursor L XorGC w"

abbreviation EraseCursor :: "look \<Rightarrow> login \<Rightarrow> c_error + login" where
  "EraseCursor L w \<equiv> realizeCursor L BgGC w"

section \<open>Messages\<close>

text \<open>The end of the first line of \<open>r\<close>: the inner loop steps from blank to blank until the line up
  to the next one is at least \<open>maxw\<close> wide, or the message ends.  On an empty \<open>r\<close> the first step
  goes past the terminator.\<close>

function line_end :: "look \<Rightarrow> int \<Rightarrow> string \<Rightarrow> nat \<Rightarrow> c_error + nat option" where
  "line_end L maxw r k =
     (if length r < Suc k then Inl OutOfBounds
      else
        (let j = Suc k + length (takeWhile (\<lambda>c. \<not> isspace c) (drop (Suc k) r))
         in if length r \<le> j then Inr None
            else if ERROR_W L (take j r) < u32 maxw then line_end L maxw r j
            else Inr (Some j)))"
  by pat_completeness auto

termination
  by (relation "measure (\<lambda>(L, maxw, r, k). length r - k)") auto

declare line_end.simps [simp del]

text \<open>A line that is drawn, or cleared when the message is taken down.\<close>

definition fail_line :: "look \<Rightarrow> bool \<Rightarrow> int \<Rightarrow> int \<Rightarrow> string \<Rightarrow> draw" where
  "fail_line L up x y s =
     (if up then DrawString FailFont x y s
      else ClearArea x (y - k_ascent L FailFont) (i32 (ERROR_W L s)) (F_Y_INC L FailFont))"

lemma line_end_bounds: "line_end L maxw r k = Inr (Some j) \<Longrightarrow> k < j \<and> j < length r"
proof (induction L maxw r k rule: line_end.induct)
  case (1 L maxw r k)
  let ?j = "Suc k + length (takeWhile (\<lambda>c. \<not> isspace c) (drop (Suc k) r))"
  have r: "\<not> length r < Suc k" "\<not> length r \<le> ?j"
    "if ERROR_W L (take ?j r) < u32 maxw then line_end L maxw r ?j = Inr (Some j) else ?j = j"
    using 1(2) by (simp_all add: line_end.simps [of L maxw r k] Let_def split: if_splits)
  show ?case
  proof (cases "ERROR_W L (take ?j r) < u32 maxw")
    case True
    with 1(1) [OF r(1) refl r(2)] r(3) have "?j < j \<and> j < length r" by simp
    then show ?thesis by linarith
  next
    case False
    with r show ?thesis by auto
  qed
qed

function fail_lines :: "look \<Rightarrow> bool \<Rightarrow> int \<Rightarrow> int \<Rightarrow> string \<Rightarrow> c_error + draw list" where
  "fail_lines L up maxw y r =
     (case line_end L maxw r 0 of
        Inl e \<Rightarrow> Inl e
      | Inr None \<Rightarrow> Inr [fail_line L up (ERROR_X L r) y r]
      | Inr (Some j) \<Rightarrow>
          mapE (Cons (fail_line L up (ERROR_X L (take j r)) y (take j r)))
            (fail_lines L up maxw (y + F_Y_INC L FailFont) (drop (Suc j) r)))"
  by pat_completeness auto

termination
  by (relation "measure (\<lambda>(L, up, maxw, y, r). length r)") (auto dest: line_end_bounds)

declare fail_lines.simps [simp del]

definition RedrawFail :: "look \<Rightarrow> login \<Rightarrow> c_error + login" where
  "RedrawFail L w =
     (let maxw = k_width L - PAD_X L
      in if u32 maxw < ERROR_W L (lw_fail w) \<and> k_strdup L then
           mapE (\<lambda>ds. paint ds w)
             (fail_lines L (lw_failUp w) maxw (PROMPT_Y L w LAST_PROMPT + 2 * F_Y_INC L PromptFont) (lw_fail w))
         else Inr (paint [fail_line L (lw_failUp w) (ERROR_X L (lw_fail w)) (FAIL_Y L w) (lw_fail w)] w))"

definition EraseFail :: "look \<Rightarrow> login \<Rightarrow> c_error + login" where
  "EraseFail L w = RedrawFail L (w\<lparr>lw_failUp := False\<rparr>)"

definition RemoveFail :: "look \<Rightarrow> login \<Rightarrow> c_error + login" where
  "RemoveFail L w = (if lw_failUp w then EraseFail L w else Inr w)"

definition failTimeout :: "look \<Rightarrow> login \<Rightarrow> c_error + login" where
  "failTimeout L w = EraseFail L (w\<lparr>lw_interval_id := False\<rparr>)"

definition ErrorMessage :: "look \<Rightarrow> string \<Rightarrow> bool \<Rightarrow> login \<Rightarrow> c_error + login" where
  "ErrorMessage L message timeout w =
     bindE (RemoveFail L (w\<lparr>lw_interval_id := False\<rparr>)) (\<lambda>w1.
       mapE (\<lambda>w2. if timeout \<and> 0 < k_failTimeout L then w2\<lparr>lw_interval_id := True\<rparr> else w2)
         (RedrawFail L (w1\<lparr>lw_fail := (if k_strdup L then message else k_failMsg L), lw_failUp := True\<rparr>)))"

definition ShowChangePasswdMessage :: "look \<Rightarrow> login \<Rightarrow> c_error + login" where
  "ShowChangePasswdMessage L w = ErrorMessage L (k_passwdChangeMsg L) False w"

end
