(* ===== verification/Login_Edit.thy ===== *)
theory Login_Edit
  imports Login Manage
begin

text \<open>
  The login widget continued: drawing the whole of it, setting prompts and values, the actions bound
  to keys, and the loop of \<open>greeter/greet.c\<close> that waits until the user has entered a name and a
  password or has asked for something else.
\<close>

section \<open>The whole widget\<close>

definition CUR_PROMPT_TEXT :: "loginPromptData \<Rightarrow> string" where
  "CUR_PROMPT_TEXT p = (case lp_promptText p of Some m \<Rightarrow> m | None \<Rightarrow> lp_defaultPrompt p)"

definition borders :: "look \<Rightarrow> draw list" where
  "borders L = concat (map (\<lambda>i.
     [DrawLine HiGC (i - 1) (i - 1) (k_width L - i) (i - 1),
      DrawLine HiGC (i - 1) (i - 1) (i - 1) (k_height L - i),
      DrawLine ShdGC (k_width L - i) (i - 1) (k_width L - i) (k_height L - i),
      DrawLine ShdGC (i - 1) (k_height L - i) (k_width L - i) (k_height L - i)]) [1..k_outframewidth L])"

definition separator :: "look \<Rightarrow> login \<Rightarrow> draw list" where
  "separator L w =
     (let x = i32 (k_outframewidth L + k_logoPadding L);
          y = GREET_Y L w + F_Y_INC L GreetFont;
          e = x + i32 (k_width L - 2 * k_outframewidth L - (k_logoWidth L + 3 * k_logoPadding L))
      in concat (map (\<lambda>i.
           [DrawLine ShdGC x (y + i - 1) e (y + i - 1),
            DrawLine HiGC x (y + 2 * k_inframeswidth L - i) e (y + 2 * k_inframeswidth L - i)]) [1..k_sepwidth L]))"

definition editbox :: "look \<Rightarrow> login \<Rightarrow> nat \<Rightarrow> loginPromptData \<Rightarrow> draw list" where
  "editbox L w n p =
     (let x = VALUE_X L p - k_inframeswidth L - 3;
          y = PROMPT_Y L w n - k_inframeswidth L - 1 - F_Y_INC L TextFont;
          wd = i32 (PROMPT_W L - VALUE_X L p - LOGO_W L);
          ht = PROMPT_H L + k_inframeswidth L + 2;
          (topLeft, botRight, inp) =
            (if lp_state p = LOGIN_PROMPT_ECHO_ON \<or> lp_state p = LOGIN_PROMPT_ECHO_OFF
             then (ShdGC, HiGC, InpGC) else (BgGC, BgGC, BgGC))
      in concat (map (\<lambda>i.
           [DrawLine topLeft (x + i - 1) (y + i - 1) (x + wd - i) (y + i - 1),
            DrawLine topLeft (x + i - 1) (y + i - 1) (x + i - 1) (y + ht - i),
            DrawLine botRight (x + wd - i) (y + i - 1) (x + wd - i) (y + ht - i),
            DrawLine botRight (x + i - 1) (y + ht - i) (x + wd - i) (y + ht - i)]) [1..k_inframeswidth L]) @
         [FillRectangle inp (x + k_inframeswidth L) (y + k_inframeswidth L)
            (wd - 2 * k_inframeswidth L) (ht - 2 * k_inframeswidth L)])"

primrec draw_prompts :: "look \<Rightarrow> nat list \<Rightarrow> login \<Rightarrow> c_error + login" where
  "draw_prompts L [] w = Inr w"
| "draw_prompts L (n # ns) w =
     bindE (prompt n w) (\<lambda>p.
     bindE (if lp_state p \<noteq> LOGIN_PROMPT_NOT_SHOWN
            then DrawValue L 0 n (paint [DrawString PromptFont (PROMPT_X L) (PROMPT_Y L w n) (CUR_PROMPT_TEXT p)] w)
            else Inr w) (draw_prompts L ns))"

definition draw_frames :: "look \<Rightarrow> login \<Rightarrow> c_error + login" where
  "draw_frames L w =
     bindE (prompt 0 w) (\<lambda>p0. bindE (prompt 1 w) (\<lambda>p1.
       Inr (paint (borders L @ separator L w @ editbox L w 0 p0 @ editbox L w 1 p1 @
         (if GREETING L w \<noteq> []
          then [DrawString GreetFont (i32 (GREET_X L w - (k_logoWidth L div 2 + k_logoPadding L))) (GREET_Y L w)
                  (GREETING L w)] else [])) w)))"

definition draw_it :: "look \<Rightarrow> login \<Rightarrow> c_error + login" where
  "draw_it L w =
     bindE (EraseCursor L w) (\<lambda>w1.
     bindE (draw_frames L w1) (\<lambda>w2.
     bindE (draw_prompts L [0, 1] w2) (\<lambda>w3.
     bindE (RedrawFail L w3) (\<lambda>w4.
     mapE (paint [SetFocus]) (XorCursor L w4)))))"

section \<open>Prompts and values\<close>

text \<open>At least two blanks are to end a prompt; the code looks at its last two characters without
  asking whether it has two.\<close>

definition padded_prompt :: "string \<Rightarrow> c_error + string" where
  "padded_prompt message =
     (let n = length message
      in if n < 2 then Inl OutOfBounds
         else Inr (message @ (if isspace (message ! (n - 2)) then [] else '' '') @
                (if isspace (message ! (n - 1)) then [] else '' '')))"

text \<open>\<open>now\<close> is the time before and \<open>now'\<close> the time after the wait for the last message.\<close>

definition SetPrompt ::
    "look \<Rightarrow> int \<Rightarrow> int \<Rightarrow> nat \<Rightarrow> string option \<Rightarrow> loginPromptState \<Rightarrow> bool \<Rightarrow> login \<Rightarrow> c_error + login" where
  "SetPrompt L now now' n message state minimumTime w =
     bindE (prompt n w) (\<lambda>p0.
       let p = p0\<lparr>lp_promptText := None, lp_state := state\<rparr>; w0 = set_prompt n p w
       in if state = LOGIN_PROMPT_NOT_SHOWN then Inr w0
          else
            bindE (padded_prompt (case message of Some m \<Rightarrow> m | None \<Rightarrow> lp_defaultPrompt p)) (\<lambda>text.
              let w1 = set_prompt n (p\<lparr>lp_promptText := Some text\<rparr>) w0
              in if lw_state w = INITIALIZING then Inr w1
                 else
                   (let w2 = (if lp_state p0 = LOGIN_TEXT_INFO \<and> lw_msgTimeout w1 \<noteq> 0
                              then (if 0 < lw_msgTimeout w1 - now then paint [Sleep (lw_msgTimeout w1 - now)] w1 else w1)
                                     \<lparr>lw_msgTimeout := 0\<rparr>
                              else w1);
                        w3 = (if state = LOGIN_TEXT_INFO
                              then (if minimumTime then w2\<lparr>lw_msgTimeout := now' + k_failTimeout L\<rparr> else w2)
                                     \<lparr>lw_state := SHOW_MESSAGE\<rparr>
                              else w2\<lparr>lw_activePrompt := n, lw_state := PROMPTING\<rparr>)
                    in draw_it L (paint [ClearArea 0 0 0 0]
                         (set_prompt n (p\<lparr>lp_promptText := Some text, lp_cursor := 0\<rparr>) w3)))))"

definition GetPrompt :: "nat \<Rightarrow> login \<Rightarrow> c_error + string" where
  "GetPrompt n w = mapE CUR_PROMPT_TEXT (prompt n w)"

text \<open>The terminator behind the copied value goes one past the end of the buffer.\<close>

definition SetValue :: "nat \<Rightarrow> string option \<Rightarrow> login \<Rightarrow> c_error + (bool \<times> login)" where
  "SetValue n v w =
     (if LAST_PROMPT < n then Inr (False, w)
      else
        bindE (prompt n w) (\<lambda>p.
        bindE (case v of
                 None \<Rightarrow> Inr (replicate (length (lp_valueText p)) NUL)
               | Some s \<Rightarrow>
                   (let m = length (lp_valueText p); t = take m s
                    in write_at (t @ replicate (m - length t) NUL) m [NUL])) (\<lambda>b.
          Inr (True, set_prompt n (p\<lparr>lp_valueText := b, lp_valueShownStart := 0, lp_valueShownEnd := 0, lp_cursor := 0\<rparr>) w))))"

definition GetValue :: "nat \<Rightarrow> login \<Rightarrow> c_error + string option" where
  "GetValue n w = (if LAST_PROMPT < n then Inr None else mapE (\<lambda>p. Some (lp_valueText p)) (prompt n w))"

text \<open>\<open>ResetLogin\<close> for one prompt, and for both.\<close>

definition reset_prompt :: "look \<Rightarrow> nat \<Rightarrow> login \<Rightarrow> c_error + login" where
  "reset_prompt L n w =
     bindE (EraseValue L 0 n w) (\<lambda>w1.
     bindE (prompt n w1) (\<lambda>p.
       Inr (set_prompt n (p\<lparr>lp_valueText := replicate (length (lp_valueText p)) NUL, lp_valueShownStart := 0,
              lp_cursor := 0\<rparr>) w1)))"

definition ResetLogin :: "look \<Rightarrow> login \<Rightarrow> c_error + login" where
  "ResetLogin L w =
     bindE (reset_prompt L 0 w) (\<lambda>w1.
     mapE (\<lambda>w2. w2\<lparr>lw_state := PROMPTING, lw_activePrompt := 0\<rparr>) (reset_prompt L 1 w1))"

definition DrawFail :: "look \<Rightarrow> login \<Rightarrow> c_error + login" where
  "DrawFail L w =
     bindE (XorCursor L w) (\<lambda>w1.
     bindE (ResetLogin L w1) (\<lambda>w2.
     bindE (XorCursor L w2) (ErrorMessage L (k_failMsg L) True)))"

section \<open>Editing a value\<close>

text \<open>The guard and the frame every editing action has: take down a message, do nothing unless the
  widget is prompting, and undraw and redraw the cursor around the change.\<close>

definition editing :: "look \<Rightarrow> (nat \<Rightarrow> loginPromptData \<Rightarrow> login \<Rightarrow> c_error + login) \<Rightarrow> login \<Rightarrow> c_error + login" where
  "editing L change w =
     bindE (RemoveFail L w) (\<lambda>w1.
       if lw_state w1 \<noteq> PROMPTING then Inr w1
       else
         bindE (XorCursor L w1) (\<lambda>w2.
         bindE (prompt (lw_activePrompt w2) w2) (\<lambda>p.
         bindE (change (lw_activePrompt w2) p w2) (XorCursor L))))"

text \<open>Erase, change the prompt, and draw again, from a position on.\<close>

definition redrawn :: "look \<Rightarrow> nat \<Rightarrow> nat \<Rightarrow> (loginPromptData \<Rightarrow> loginPromptData) \<Rightarrow> login \<Rightarrow> c_error + login" where
  "redrawn L at n f w =
     bindE (EraseValue L at n w) (\<lambda>w1.
     bindE (prompt n w1) (\<lambda>p. DrawValue L at n (set_prompt n (f p) w1)))"

text \<open>The string behind the cursor moved onto it.  The two overlap, for which C promises nothing;
  this is the forward copy.\<close>

definition delete_at :: "nat \<Rightarrow> string \<Rightarrow> string" where
  "delete_at c b = (let s = cstr (drop (Suc c) b) in take c b @ s @ NUL # drop (Suc (c + length s)) b)"

definition realizeDeleteChar :: "look \<Rightarrow> nat \<Rightarrow> login \<Rightarrow> c_error + login" where
  "realizeDeleteChar L n w =
     bindE (prompt n w) (\<lambda>p.
     bindE (strlen_from (lp_valueText p) 0) (\<lambda>len.
       if lp_cursor p < len then
         (if lp_cursor p < lp_valueShownStart p
          then redrawn L 0 n (\<lambda>q. q\<lparr>lp_valueShownStart := lp_cursor q, lp_valueText := delete_at (lp_cursor q) (lp_valueText q)\<rparr>) w
          else redrawn L (lp_cursor p) n (\<lambda>q. q\<lparr>lp_valueText := delete_at (lp_cursor q) (lp_valueText q)\<rparr>) w)
       else Inr w))"

definition DeleteBackwardChar :: "look \<Rightarrow> login \<Rightarrow> c_error + login" where
  "DeleteBackwardChar L =
     editing L (\<lambda>n p w.
       if 0 < lp_cursor p then realizeDeleteChar L n (set_prompt n (p\<lparr>lp_cursor := lp_cursor p - 1\<rparr>) w) else Inr w)"

definition DeleteForwardChar :: "look \<Rightarrow> login \<Rightarrow> c_error + login" where
  "DeleteForwardChar L = editing L (\<lambda>n p w. realizeDeleteChar L n w)"

definition MoveBackwardChar :: "look \<Rightarrow> login \<Rightarrow> c_error + login" where
  "MoveBackwardChar L =
     editing L (\<lambda>n p w.
       let p1 = (if 0 < lp_cursor p then p\<lparr>lp_cursor := lp_cursor p - 1\<rparr> else p); w1 = set_prompt n p1 w
       in if lp_cursor p1 < lp_valueShownStart p1
          then redrawn L 0 n (\<lambda>q. q\<lparr>lp_valueShownStart := lp_cursor q\<rparr>) w1 else Inr w1)"

definition MoveForwardChar :: "look \<Rightarrow> login \<Rightarrow> c_error + login" where
  "MoveForwardChar L =
     editing L (\<lambda>n p w.
       bindE (strlen_from (lp_valueText p) 0) (\<lambda>len.
         if lp_cursor p < len then
           (let p1 = p\<lparr>lp_cursor := lp_cursor p + 1\<rparr>; w1 = set_prompt n p1 w
            in if lp_valueShownEnd p1 < lp_cursor p1 then redrawn L 0 n id w1 else Inr w1)
         else Inr w))"

definition MoveToBegining :: "look \<Rightarrow> login \<Rightarrow> c_error + login" where
  "MoveToBegining L =
     editing L (\<lambda>n p w.
       let w1 = set_prompt n (p\<lparr>lp_cursor := 0\<rparr>) w
       in if 0 < lp_valueShownStart p then redrawn L 0 n (\<lambda>q. q\<lparr>lp_valueShownStart := 0\<rparr>) w1 else Inr w1)"

definition MoveToEnd :: "look \<Rightarrow> login \<Rightarrow> c_error + login" where
  "MoveToEnd L =
     editing L (\<lambda>n p w.
       bindE (strlen_from (lp_valueText p) 0) (\<lambda>len.
         let w1 = set_prompt n (p\<lparr>lp_cursor := len\<rparr>) w
         in if lp_valueShownEnd p < len then redrawn L 0 n id w1 else Inr w1))"

definition EraseToEndOfLine :: "look \<Rightarrow> login \<Rightarrow> c_error + login" where
  "EraseToEndOfLine L =
     editing L (\<lambda>n p w.
       bindE (EraseValue L (lp_cursor p) n w) (\<lambda>w1.
       bindE (prompt n w1) (\<lambda>q.
       bindE (write_at (lp_valueText q) (lp_cursor q) (replicate (length (lp_valueText q) - lp_cursor q) NUL)) (\<lambda>b.
         Inr (set_prompt n (q\<lparr>lp_valueText := b\<rparr>) w1)))))"

definition EraseLine :: "look \<Rightarrow> login \<Rightarrow> c_error + login" where
  "EraseLine L w = bindE (MoveToBegining L w) (EraseToEndOfLine L)"

section \<open>Leaving a field\<close>

datatype notify = NOTIFY_OK | NOTIFY_ABORT | NOTIFY_RESTART | NOTIFY_ABORT_DISPLAY

definition wiped :: "loginPromptData \<Rightarrow> loginPromptData" where
  "wiped p = p\<lparr>lp_valueText := replicate (length (lp_valueText p)) NUL\<rparr>"

text \<open>The callback: the values are copied and then overwritten.\<close>

definition GreetDone :: "look \<Rightarrow> notify \<Rightarrow> login \<Rightarrow> c_error + login" where
  "GreetDone L status w =
     bindE (prompt 0 w) (\<lambda>p0. bindE (prompt 1 w) (\<lambda>p1.
       let w1 = (case status of
             NOTIFY_OK \<Rightarrow> w\<lparr>gr_name := take (k_NAME_LEN L - 1) (cstr (lp_valueText p0)),
                            gr_password := take (k_PASSWORD_LEN L - 1) (cstr (lp_valueText p1)), gr_code := 0\<rparr>
           | NOTIFY_ABORT \<Rightarrow> w\<lparr>gr_code := RESERVER_DISPLAY\<rparr>
           | NOTIFY_RESTART \<Rightarrow> w\<lparr>gr_code := REMANAGE_DISPLAY\<rparr>
           | NOTIFY_ABORT_DISPLAY \<Rightarrow> w\<lparr>gr_code := UNMANAGE_DISPLAY\<rparr>)
       in Inr (set_prompt 1 (wiped p1) (set_prompt 0 (wiped p0) (w1\<lparr>gr_done := True\<rparr>)))))"

definition echoes :: "loginPromptData \<Rightarrow> bool" where
  "echoes p \<longleftrightarrow> lp_state p = LOGIN_PROMPT_ECHO_ON \<or> lp_state p = LOGIN_PROMPT_ECHO_OFF"

text \<open>The first prompt behind \<open>n\<close> that takes input.\<close>

definition next_prompt :: "nat \<Rightarrow> login \<Rightarrow> nat option" where
  "next_prompt n w = find_first (\<lambda>i. echoes (lw_prompts w ! i)) [Suc n..<Suc LAST_PROMPT]"

definition FinishField :: "look \<Rightarrow> login \<Rightarrow> c_error + login" where
  "FinishField L w =
     bindE (RemoveFail L w) (\<lambda>w1.
       if lw_state w1 \<noteq> PROMPTING then Inr w1
       else
         bindE (XorCursor L w1) (\<lambda>w2.
         bindE (case next_prompt (lw_activePrompt w) w2 of
                  Some n \<Rightarrow> Inr (w2\<lparr>lw_activePrompt := n\<rparr>)
                | None \<Rightarrow> GreetDone L NOTIFY_OK (w2\<lparr>lw_state := DONE\<rparr>)) (XorCursor L)))"

text \<open>The search goes round the prompts.  It looks at nothing but its counter, which takes at most
  \<open>LAST_PROMPT + 1\<close> values at the head of the loop; one that goes on for longer never ends.\<close>

primrec tab_search :: "nat \<Rightarrow> nat \<Rightarrow> nat \<Rightarrow> login \<Rightarrow> c_error + nat option" where
  "tab_search 0 n nxt w = Inl NoReturn"
| "tab_search (Suc k) n nxt w =
     (if nxt = n then Inr None
      else (let i = (if LAST_PROMPT < nxt then 0 else nxt)
            in bindE (prompt i w) (\<lambda>p. if echoes p then Inr (Some i) else tab_search k n (Suc i) w)))"

definition TabField :: "look \<Rightarrow> login \<Rightarrow> c_error + login" where
  "TabField L w =
     bindE (RemoveFail L w) (\<lambda>w1.
       if lw_state w1 \<noteq> PROMPTING then Inr w1
       else
         bindE (XorCursor L w1) (\<lambda>w2.
         bindE (tab_search (LAST_PROMPT + 3) (lw_activePrompt w) (Suc (lw_activePrompt w)) w2) (\<lambda>r.
           XorCursor L (case r of Some n \<Rightarrow> w2\<lparr>lw_activePrompt := n\<rparr> | None \<Rightarrow> w2))))"

definition AllowAccess :: "look \<Rightarrow> login \<Rightarrow> c_error + login" where
  "AllowAccess L w = mapE (\<lambda>w1. w1\<lparr>lw_allow_access := \<not> lw_allow_access w1\<rparr>) (RemoveFail L w)"

definition SetSessionArgument :: "look \<Rightarrow> string list \<Rightarrow> login \<Rightarrow> c_error + login" where
  "SetSessionArgument L params w =
     mapE (\<lambda>w1. w1\<lparr>lw_sessionArg := (case params of [] \<Rightarrow> None | s # _ \<Rightarrow> Some s)\<rparr>) (RemoveFail L w)"

definition end_session :: "look \<Rightarrow> notify \<Rightarrow> login \<Rightarrow> c_error + login" where
  "end_session L status w =
     bindE (XorCursor L w) (\<lambda>w1.
     bindE (RemoveFail L w1) (\<lambda>w2.
     bindE (GreetDone L status (w2\<lparr>lw_state := DONE\<rparr>)) (XorCursor L)))"

definition RestartSession :: "look \<Rightarrow> login \<Rightarrow> c_error + login" where
  "RestartSession L w = end_session L NOTIFY_RESTART w"

definition AbortSession :: "look \<Rightarrow> login \<Rightarrow> c_error + login" where
  "AbortSession L w = end_session L NOTIFY_ABORT w"

definition AbortDisplay :: "look \<Rightarrow> login \<Rightarrow> c_error + login" where
  "AbortDisplay L w = end_session L NOTIFY_ABORT_DISPLAY w"

section \<open>Keys\<close>

datatype keysym =
    XK_Return | XK_KP_Enter | XK_Linefeed | XK_Execute
  | XK_BackSpace | XK_Delete | XK_KP_Delete | DXK_Remove
  | XK_Left | XK_KP_Left | XK_Right | XK_KP_Right
  | XK_End | XK_KP_End | XK_Home | XK_KP_Home
  | XK_other bool

text \<open>The last branch: the characters go in at the cursor, as many as the buffer holds.  The tail is
  moved up first, with its terminator.\<close>

definition room :: "loginPromptData \<Rightarrow> nat \<Rightarrow> nat \<Rightarrow> int" where
  "room p len n =
     (let m = int (length (lp_valueText p))
      in if m - 1 \<le> int n + int len then m - int len - 2 else int n)"

definition inserted :: "string \<Rightarrow> loginPromptData \<Rightarrow> c_error + loginPromptData" where
  "inserted s p =
     bindE (strlen_from (lp_valueText p) (lp_cursor p)) (\<lambda>tail.
     bindE (write_at (lp_valueText p) (lp_cursor p + length s) (take (Suc tail) (drop (lp_cursor p) (lp_valueText p)))) (\<lambda>b.
     bindE (write_at b (lp_cursor p) s) (\<lambda>b'. Inr (p\<lparr>lp_valueText := b'\<rparr>))))"

definition insert_text :: "look \<Rightarrow> nat \<Rightarrow> string \<Rightarrow> login \<Rightarrow> c_error + login" where
  "insert_text L n s w =
     bindE (prompt n w) (\<lambda>p.
     bindE (EraseValue L (lp_cursor p) n w) (\<lambda>w1.
     bindE (prompt n w1) (\<lambda>p1.
     bindE (inserted s p1) (\<lambda>p2.
     bindE (DrawValue L (lp_cursor p2) n (set_prompt n p2 w1)) (\<lambda>w2.
     bindE (prompt n w2) (\<lambda>p3.
       Inr (set_prompt n (p3\<lparr>lp_cursor := lp_cursor p3 + length s\<rparr>) w2)))))))"

text \<open>What the lookup gives: the key, and as many bytes as it says there are.  A length that is that
  of the buffer, or more when the string did not fit, puts the terminator past its end.\<close>

definition insert_default :: "look \<Rightarrow> nat \<Rightarrow> string \<Rightarrow> login \<Rightarrow> c_error + login" where
  "insert_default L n s w =
     bindE (if lw_state w = PROMPTING
            then bindE (prompt n w) (\<lambda>p. mapE (\<lambda>len. room p len (length s)) (strlen_from (lp_valueText p) 0))
            else Inr (int (length s))) (\<lambda>k.
     bindE (EraseCursor L w) (\<lambda>w1.
     bindE (RemoveFail L w1) (\<lambda>w2.
     bindE (if k \<noteq> 0 \<and> lw_state w2 = PROMPTING
            then if k < 0 then Inl OutOfBounds else insert_text L n (take (nat k) s) w2
            else Inr w2) (XorCursor L))))"

definition InsertChar :: "look \<Rightarrow> keysym \<Rightarrow> string \<Rightarrow> login \<Rightarrow> c_error + login" where
  "InsertChar L key s w =
     (if 128 \<le> length s then Inl OutOfBounds
      else if key \<in> {XK_Return, XK_KP_Enter, XK_Linefeed, XK_Execute} then FinishField L w
      else if key = XK_BackSpace then DeleteBackwardChar L w
      else if key \<in> {XK_Delete, XK_KP_Delete, DXK_Remove} then DeleteForwardChar L w
      else if key \<in> {XK_Left, XK_KP_Left} then MoveBackwardChar L w
      else if key \<in> {XK_Right, XK_KP_Right} then MoveForwardChar L w
      else if key \<in> {XK_End, XK_KP_End} then MoveToEnd L w
      else if key \<in> {XK_Home, XK_KP_Home} then MoveToBegining L w
      else if s = [] then Inr (if key = XK_other True then w else paint [Bell] w)
      else insert_default L (lw_activePrompt w) s w)"

text \<open>\<open>loginActionsTable\<close>.\<close>

datatype login_action =
    delete_previous_character | delete_character | move_backward_character | move_forward_character
  | move_to_begining | move_to_end | erase_to_end_of_line | erase_line | finish_field | tab_field
  | abort_session | abort_display | restart_session | insert_char keysym string
  | set_session_argument "string list" | allow_all_access

fun loginActions :: "look \<Rightarrow> login_action \<Rightarrow> login \<Rightarrow> c_error + login" where
  "loginActions L delete_previous_character w = DeleteBackwardChar L w"
| "loginActions L delete_character w = DeleteForwardChar L w"
| "loginActions L move_backward_character w = MoveBackwardChar L w"
| "loginActions L move_forward_character w = MoveForwardChar L w"
| "loginActions L move_to_begining w = MoveToBegining L w"
| "loginActions L move_to_end w = MoveToEnd L w"
| "loginActions L erase_to_end_of_line w = EraseToEndOfLine L w"
| "loginActions L erase_line w = EraseLine L w"
| "loginActions L finish_field w = FinishField L w"
| "loginActions L tab_field w = TabField L w"
| "loginActions L abort_session w = AbortSession L w"
| "loginActions L abort_display w = AbortDisplay L w"
| "loginActions L restart_session w = RestartSession L w"
| "loginActions L (insert_char key s) w = InsertChar L key s w"
| "loginActions L (set_session_argument params) w = SetSessionArgument L params w"
| "loginActions L allow_all_access w = AllowAccess L w"

section \<open>The life of the widget\<close>

text \<open>\<open>Initialize\<close>.  The record comes from the toolkit with the resources set; the positions in the
  values are not among what the function sets.\<close>

definition Initialize :: "look \<Rightarrow> login \<Rightarrow> c_error + login" where
  "Initialize L raw =
     bindE (prompt 0 raw) (\<lambda>p0. bindE (prompt 1 raw) (\<lambda>p1.
       let w = raw\<lparr>lw_state := INITIALIZING, lw_activePrompt := 0, lw_failUp := False, lw_fail := k_failMsg L\<rparr>;
           u = p0\<lparr>lp_promptText := None, lp_defaultPrompt := k_namePrompt L,
                  lp_valueText := (lp_valueText p0)[0 := NUL], lp_valueShownStart := 0\<rparr>;
           v = p1\<lparr>lp_promptText := None, lp_defaultPrompt := k_passwdPrompt L,
                  lp_valueText := (lp_valueText p1)[0 := NUL], lp_valueShownStart := 0\<rparr>
       in bindE (SetPrompt L 0 0 1 None LOGIN_PROMPT_ECHO_OFF False (set_prompt 1 v (set_prompt 0 u w))) (\<lambda>w1.
          mapE (\<lambda>w2. w2\<lparr>lw_state := PROMPTING\<rparr>) (SetPrompt L 0 0 0 None LOGIN_PROMPT_ECHO_ON False w1))))"

text \<open>What the toolkit delivers while the greeter waits: a key with its action, an exposure, the timer
  of a message, or the one that asks whether the server still answers.\<close>

datatype greet_event = Key login_action | Expose | MessageTimer | PingTimer bool

text \<open>The loop of \<open>Greet\<close> over the events that arrive.  It ends with the code of the callback; it is
  still waiting when they are used up; and a server that does not answer ends the session.\<close>

datatype greet_result = Waiting | Finished int | PingFailed

definition greet_event_step :: "look \<Rightarrow> greet_event \<Rightarrow> login \<Rightarrow> c_error + login" where
  "greet_event_step L e w =
     (case e of
        Key a \<Rightarrow> loginActions L a w
      | Expose \<Rightarrow> draw_it L w
      | MessageTimer \<Rightarrow> if lw_interval_id w then failTimeout L w else Inr w
      | PingTimer answers \<Rightarrow> Inr w)"

primrec greet_loop :: "look \<Rightarrow> greet_event list \<Rightarrow> login \<Rightarrow> c_error + (greet_result \<times> greet_event list \<times> login)" where
  "greet_loop L [] w = Inr (if gr_done w then Finished (gr_code w) else Waiting, [], w)"
| "greet_loop L (e # es) w =
     (if gr_done w then Inr (Finished (gr_code w), e # es, w)
      else if e = PingTimer False then Inr (PingFailed, es, w)
      else bindE (greet_event_step L e w) (greet_loop L es))"

definition Greet :: "look \<Rightarrow> greet_event list \<Rightarrow> login \<Rightarrow> c_error + (greet_result \<times> greet_event list \<times> login)" where
  "Greet L es w = greet_loop L es (w\<lparr>lw_allow_access := False, gr_done := False\<rparr>)"

text \<open>The name without leading blanks.\<close>

definition greet_name :: "login \<Rightarrow> string" where
  "greet_name w = dropWhile (\<lambda>c. c = CHR '' '') (gr_name w)"

lemma greet_loop_shorter: "greet_loop L es w = Inr (Finished c, es', w') \<Longrightarrow> \<not> gr_done w \<Longrightarrow> length es' < length es"
proof (induction es arbitrary: w)
  case Nil
  then show ?case by simp
next
  case (Cons e es)
  then obtain w1 where w1: "greet_loop L es w1 = Inr (Finished c, es', w')"
    by (auto simp: bindE_Inr_iff split: if_splits)
  show ?case
  proof (cases "gr_done w1")
    case True
    with w1 show ?thesis by (cases es) auto
  next
    case False
    with Cons.IH w1 show ?thesis by fastforce
  qed
qed

lemma Greet_shorter: "Greet L es w = Inr (Finished c, es', w') \<Longrightarrow> length es' < length es"
  unfolding Greet_def by (erule greet_loop_shorter) simp

text \<open>\<open>GreetUser\<close> up to the end of its loop: it asks until somebody is verified, who then is in the
  last argument, or until the session ends with a code.\<close>

datatype user_result = StillWaiting | SessionEnds int | ServerGone | Verified string string

function GreetUser ::
    "look \<Rightarrow> (string \<Rightarrow> string \<Rightarrow> bool) \<Rightarrow> greet_event list \<Rightarrow> login \<Rightarrow> c_error + (user_result \<times> login)" where
  "GreetUser L Verify es w =
     (case Greet L es w of
        Inl e \<Rightarrow> Inl e
      | Inr (r, es', w1) \<Rightarrow>
          (case r of
             Waiting \<Rightarrow> Inr (StillWaiting, w1)
           | PingFailed \<Rightarrow> Inr (ServerGone, w1)
           | Finished c \<Rightarrow>
               if c \<noteq> 0 then Inr (SessionEnds c, w1)
               else if Verify (greet_name w1) (gr_password w1)
               then Inr (Verified (greet_name w1) (gr_password w1), w1)
               else
                 (case DrawFail L w1 of
                    Inl e \<Rightarrow> Inl e
                  | Inr w2 \<Rightarrow> GreetUser L Verify es' (w2\<lparr>gr_name := takeWhile (\<lambda>c. c = CHR '' '') (gr_name w2), gr_password := ''''\<rparr>))))"
  by pat_completeness auto

termination
  by (relation "measure (\<lambda>(L, Verify, es, w). length es)") (auto dest: Greet_shorter)

declare GreetUser.simps [simp del]

end
