(* ===== verification/Login_Safe.thy ===== *)
theory Login_Safe
  imports Login_Edit
begin

text \<open>
  What the editing of a field amounts to, and that it never leaves the buffers, whatever is typed and
  however long the user goes on, unless a key stands for the character NUL.
\<close>

section \<open>Buffers\<close>

lemma NUL_split: "NUL \<in> set b \<Longrightarrow> \<exists>r. b = cstr b @ NUL # r \<and> NUL \<notin> set (cstr b)"
  by (induction b) (auto simp: cstr_def)

lemma cstr_upto [simp]: "NUL \<notin> set t \<Longrightarrow> cstr (t @ NUL # r) = t"
  by (induction t) (auto simp: cstr_def)

lemma strlen_from_ok: "NUL \<in> set b \<Longrightarrow> i \<le> length (cstr b) \<Longrightarrow> strlen_from b i = Inr (length (cstr b) - i)"
proof -
  assume "NUL \<in> set b" "i \<le> length (cstr b)"
  then obtain t r where b: "b = t @ NUL # r" "NUL \<notin> set t" "i \<le> length t"
    using NUL_split [of b] by (metis cstr_upto)
  moreover from b have "NUL \<notin> set (drop i t)" by (blast dest: in_set_dropD)
  ultimately show ?thesis by (simp add: strlen_from_def)
qed

lemma strlen_from_exists: "NUL \<in> set (drop i b) \<Longrightarrow> \<exists>n. strlen_from b i = Inr n"
  by (simp add: strlen_from_def)

lemma delete_at_text:
  assumes "NUL \<notin> set t" "c < length t"
  shows "delete_at c (t @ NUL # r) = take c t @ drop (Suc c) t @ NUL # NUL # r"
proof -
  have "NUL \<notin> set (drop (Suc c) t)" using assms(1) by (blast dest: in_set_dropD)
  moreover have "Suc (c + (length t - Suc c)) = length t" using assms(2) by simp
  ultimately show ?thesis using assms(2) by (simp add: delete_at_def)
qed

text \<open>The two halves of a field's text, before and behind the cursor.\<close>

definition field_text :: "loginPromptData \<Rightarrow> string \<times> string" where
  "field_text p = (take (lp_cursor p) (cstr (lp_valueText p)), drop (lp_cursor p) (cstr (lp_valueText p)))"

text \<open>A field the code can work on: the text ends before the last byte but one, the cursor is in it.\<close>

definition text_ok :: "loginPromptData \<Rightarrow> bool" where
  "text_ok p \<longleftrightarrow> NUL \<in> set (lp_valueText p) \<and> length (cstr (lp_valueText p)) + 2 \<le> length (lp_valueText p) \<and>
     lp_cursor p \<le> length (cstr (lp_valueText p))"

definition field_ok :: "loginPromptData \<Rightarrow> bool" where
  "field_ok p \<longleftrightarrow> text_ok p \<and> lp_valueShownStart p \<le> lp_cursor p"

lemma inserted_text:
  assumes "text_ok p" "NUL \<notin> set s" "length s + length (cstr (lp_valueText p)) + 2 \<le> length (lp_valueText p)"
  shows "\<exists>b. inserted s p = Inr (p\<lparr>lp_valueText := b\<rparr>) \<and> length b = length (lp_valueText p) \<and> NUL \<in> set b \<and>
    cstr b = fst (field_text p) @ s @ snd (field_text p)"
proof -
  let ?c = "lp_cursor p"
  obtain t r where b: "lp_valueText p = t @ NUL # r" "NUL \<notin> set t" "?c \<le> length t"
    using assms(1) NUL_split [of "lp_valueText p"] by (auto simp: text_ok_def)
  then have t: "cstr (lp_valueText p) = t" by simp
  define v where "v = drop ?c t"
  have tv: "take (Suc (length t - ?c)) (drop ?c (lp_valueText p)) = v @ [NUL]"
    using b by (simp add: v_def)
  have lv: "length v = length t - ?c" by (simp add: v_def)
  have l: "?c + length s + length (v @ [NUL]) \<le> length (lp_valueText p)"
    using assms(3) b(3) t lv by simp
  define b1 where "b1 = take (?c + length s) (lp_valueText p) @ (v @ [NUL]) @
    drop (?c + length s + length (v @ [NUL])) (lp_valueText p)"
  have w1: "write_at (lp_valueText p) (?c + length s) (v @ [NUL]) = Inr b1"
    using l by (simp add: write_at_def b1_def)
  have lb: "length b1 = length (lp_valueText p)" using l by (simp add: b1_def)
  define b2 where "b2 = take ?c b1 @ s @ drop (?c + length s) b1"
  have w2: "write_at b1 ?c s = Inr b2" using l lb by (simp add: write_at_def b2_def)
  have tk: "take ?c b1 = take ?c t" using b(1,3) l by (simp add: b1_def min_def)
  have dr: "\<exists>r'. drop (?c + length s) b1 = v @ NUL # r'" using l by (simp add: b1_def)
  then obtain r' where r': "drop (?c + length s) b1 = v @ NUL # r'" ..
  have nv: "NUL \<notin> set (take ?c t @ s @ v)" using b(2) assms(2) by (auto simp: v_def dest: in_set_takeD in_set_dropD)
  have b2: "b2 = (take ?c t @ s @ v) @ NUL # r'" by (simp add: b2_def tk r')
  have "inserted s p = Inr (p\<lparr>lp_valueText := b2\<rparr>)"
    using b(3) assms(1) w1 w2 tv t by (simp add: inserted_def strlen_from_ok text_ok_def)
  moreover have "length b2 = length (lp_valueText p)" using l lb by (simp add: b2_def)
  moreover have "cstr b2 = fst (field_text p) @ s @ snd (field_text p)"
    using cstr_upto [OF nv] by (simp add: b2 field_text_def t v_def)
  ultimately show ?thesis using b2 by auto
qed

lemma write_NULs:
  "c \<le> length b \<Longrightarrow> write_at b c (replicate (length b - c) NUL) = Inr (take c b @ replicate (length b - c) NUL)"
  by (simp add: write_at_def)

lemma erased_text:
  assumes "text_ok p"
  shows "cstr (take (lp_cursor p) (lp_valueText p) @ replicate (length (lp_valueText p) - lp_cursor p) NUL) =
    take (lp_cursor p) (cstr (lp_valueText p))"
proof -
  obtain t r where b: "lp_valueText p = t @ NUL # r" "NUL \<notin> set t" "lp_cursor p \<le> length t"
    using assms NUL_split [of "lp_valueText p"] by (auto simp: text_ok_def)
  moreover obtain k where k: "length (lp_valueText p) - lp_cursor p = Suc k" using b by (cases "length (lp_valueText p) - lp_cursor p") auto
  moreover have "NUL \<notin> set (take (lp_cursor p) t)" using b(2) by (blast dest: in_set_takeD)
  ultimately show ?thesis by (simp add: k)
qed

section \<open>Drawing does not fail\<close>

lemma paint_simps [simp]:
  "lw_prompts (paint ds w) = lw_prompts w" "lw_state (paint ds w) = lw_state w"
  "lw_activePrompt (paint ds w) = lw_activePrompt w" "lw_failUp (paint ds w) = lw_failUp w"
  "lw_fail (paint ds w) = lw_fail w" "prompt n (paint ds w) = prompt n w"
  "paint ds (paint ds' w) = paint (ds' @ ds) w" "paint [] w = w"
  "set_prompt n p (paint ds w) = paint ds (set_prompt n p w)"
  by (simp_all add: paint_def prompt_def set_prompt_def)

lemma set_prompt_simps [simp]:
  "lw_prompts (set_prompt n p w) = (lw_prompts w)[n := p]" "lw_state (set_prompt n p w) = lw_state w"
  "lw_activePrompt (set_prompt n p w) = lw_activePrompt w" "lw_fail (set_prompt n p w) = lw_fail w"
  "set_prompt n p (set_prompt n q w) = set_prompt n p w"
  by (simp_all add: set_prompt_def)

lemma prompt_set_prompt [simp]:
  "n < length (lw_prompts w) \<Longrightarrow> prompt m (set_prompt n p w) = (if m = n then Inr p else prompt m w)"
  by (auto simp: prompt_def set_prompt_def)

lemma set_prompt_idle: "prompt n w = Inr p \<Longrightarrow> set_prompt n p w = w"
  by (auto simp: prompt_def set_prompt_def split: if_splits)

lemma prompt_Inr: "prompt n w = Inr p \<longleftrightarrow> n < length (lw_prompts w) \<and> lw_prompts w ! n = p"
  by (auto simp: prompt_def)

lemma shown_buffer_ok:
  assumes "NUL \<in> set (lp_valueText p)"
  shows "\<exists>b. shown_buffer L p = Inr b \<and> length (cstr (lp_valueText p)) < length b \<and>
    (\<forall>i \<le> length (cstr (lp_valueText p)). NUL \<in> set (drop i b))"
proof (cases "masked L p")
  case True
  then show ?thesis using assms by (simp add: shown_buffer_def strlen_from_ok)
next
  case False
  obtain r where "lp_valueText p = cstr (lp_valueText p) @ NUL # r" using NUL_split [OF assms] by blast
  moreover from this have "length (cstr (lp_valueText p)) < length (lp_valueText p)"
    by (metis length_append length_Cons add_Suc_right le_add1 le_imp_less_Suc)
  moreover have "NUL \<in> set (drop i (lp_valueText p))" if "i \<le> length (cstr (lp_valueText p))" for i
    using that calculation(1) by (metis (no_types, lifting) drop_append Un_iff set_append diff_is_0_eq drop0 list.set_intros(1))
  ultimately show ?thesis using False by (simp add: shown_buffer_def)
qed

lemma bytes_at_exists: "i + n \<le> length b \<Longrightarrow> \<exists>s. bytes_at b i n = Inr s"
  by (simp add: bytes_at_def)

lemma fit_offset: "off \<le> cur \<Longrightarrow> fst (fit L b width cur off l) \<le> cur"
  by (induction l arbitrary: off) auto

lemma EraseValue_ok:
  assumes "prompt n w = Inr p" "NUL \<in> set (lp_valueText p)" "at \<le> length (cstr (lp_valueText p))"
  shows "\<exists>ds. EraseValue L at n w = Inr (paint ds w)"
proof -
  obtain b where b: "shown_buffer L p = Inr b" "length (cstr (lp_valueText p)) < length b"
    using shown_buffer_ok [OF assms(2)] by blast
  obtain s where "bytes_at b 0 at = Inr s" using bytes_at_exists [of 0 at b] b(2) assms(3) by auto
  then show ?thesis
    using assms(1) b(1) by (auto simp: EraseValue_def realizeValue_def Let_def) (metis paint_simps(8))+
qed

lemma DrawValue_ok:
  assumes "prompt n w = Inr p" "field_ok p" "at \<le> length (cstr (lp_valueText p))"
  shows "\<exists>ds s e. DrawValue L at n w = Inr (paint ds (set_prompt n (p\<lparr>lp_valueShownStart := s, lp_valueShownEnd := e\<rparr>) w)) \<and>
    s \<le> lp_cursor p"
proof -
  have p: "NUL \<in> set (lp_valueText p)" "lp_valueShownStart p \<le> lp_cursor p" "lp_cursor p \<le> length (cstr (lp_valueText p))"
    using assms(2) by (auto simp: field_ok_def text_ok_def)
  obtain b where b: "shown_buffer L p = Inr b" "length (cstr (lp_valueText p)) < length b"
    "\<forall>i \<le> length (cstr (lp_valueText p)). NUL \<in> set (drop i b)"
    using shown_buffer_ok [OF p(1)] by blast
  obtain s where s: "bytes_at b 0 at = Inr s" using bytes_at_exists [of 0 at b] b(2) assms(3) by auto
  obtain m where m: "strlen_from b (max at (lp_valueShownStart p)) = Inr m"
    using strlen_from_exists b(3) assms(3) p(2,3) by (metis le_trans max_def)
  obtain k where k: "strlen_from b (lp_valueShownStart p) = Inr k"
    using strlen_from_exists b(3) p(2,3) by (metis le_trans)
  have idle: "w = set_prompt n (p\<lparr>lp_valueShownStart := lp_valueShownStart p, lp_valueShownEnd := lp_valueShownEnd p\<rparr>) w"
    using set_prompt_idle [OF assms(1)] by simp
  define curoff where "curoff = (if lp_valueShownStart p < at then k_width_of L TextFont s else 0)"
  have c: "(if lp_valueShownStart p < at then mapE (k_width_of L TextFont) (bytes_at b 0 at) else Inr 0) = Inr curoff"
    by (simp add: curoff_def s)
  show ?thesis
  proof (cases "(lp_state p = LOGIN_PROMPT_ECHO_ON \<or> lp_state p = LOGIN_TEXT_INFO \<or> masked L p) \<and>
      i32 (MAX_VALUE_W L p) - curoff < k_width_of L TextFont (take m (drop (max at (lp_valueShownStart p)) b))")
    case True
    obtain off l where f: "fit L b (i32 (MAX_VALUE_W L p)) (lp_cursor p) (lp_valueShownStart p) k = (off, l)"
      by (cases "fit L b (i32 (MAX_VALUE_W L p)) (lp_cursor p) (lp_valueShownStart p) k") auto
    then have "off \<le> lp_cursor p" using fit_offset [OF p(2)] by (metis fst_conv)
    with True f m k c show ?thesis
      using assms(1) b(1) by (simp add: DrawValue_def realizeValue_def Let_def) blast
  next
    case False
    then have "\<exists>ds. DrawValue L at n w = Inr (paint ds w)"
      using assms(1) b(1) m c by (simp add: DrawValue_def realizeValue_def Let_def) (metis paint_simps(8))
    with idle p(2) show ?thesis by metis
  qed
qed

lemma redrawn_ok:
  assumes "prompt n w = Inr p" "NUL \<in> set (lp_valueText p)" "at \<le> length (cstr (lp_valueText p))"
    "field_ok (f p)" "at \<le> length (cstr (lp_valueText (f p)))"
  shows "\<exists>ds s e. redrawn L at n f w =
      Inr (paint ds (set_prompt n ((f p)\<lparr>lp_valueShownStart := s, lp_valueShownEnd := e\<rparr>) w)) \<and> s \<le> lp_cursor (f p)"
proof -
  obtain ds where ds: "EraseValue L at n w = Inr (paint ds w)" using EraseValue_ok [OF assms(1-3)] by blast
  have n: "n < length (lw_prompts w)" using assms(1) by (simp add: prompt_Inr)
  then have "prompt n (paint ds (set_prompt n (f p) w)) = Inr (f p)" by simp
  from DrawValue_ok [OF this assms(4,5)] ds assms(1) n show ?thesis by (auto simp: redrawn_def) blast
qed

section \<open>A user who is typing\<close>

text \<open>Messages that can be broken into lines: the last character is not a blank.\<close>

definition message_ok :: "string \<Rightarrow> bool" where
  "message_ok m \<longleftrightarrow> m \<noteq> [] \<and> \<not> isspace (last m)"

lemma line_end_ok: "k < length r \<Longrightarrow> \<exists>x. line_end L maxw r k = Inr x"
proof (induction L maxw r k rule: line_end.induct)
  case (1 L maxw r k)
  then show ?case by (subst line_end.simps) (auto simp: Let_def)
qed

lemma line_end_space: "line_end L maxw r k = Inr (Some j) \<Longrightarrow> isspace (r ! j)"
proof (induction L maxw r k rule: line_end.induct)
  case (1 L maxw r k)
  let ?j = "Suc k + length (takeWhile (\<lambda>c. \<not> isspace c) (drop (Suc k) r))"
  have r: "\<not> length r < Suc k" "\<not> length r \<le> ?j"
    "if ERROR_W L (take ?j r) < u32 maxw then line_end L maxw r ?j = Inr (Some j) else ?j = j"
    using 1(2) by (simp_all add: line_end.simps [of L maxw r k] Let_def split: if_splits)
  show ?case
  proof (cases "ERROR_W L (take ?j r) < u32 maxw")
    case True
    with 1(1) [OF r(1) refl r(2)] r(3) show ?thesis by simp
  next
    case False
    with r have j: "j = ?j" by simp
    have "isspace (drop (Suc k) r ! length (takeWhile (\<lambda>c. \<not> isspace c) (drop (Suc k) r)))"
      using nth_length_takeWhile [of "\<lambda>c. \<not> isspace c" "drop (Suc k) r"] r(2) by simp
    then show ?thesis using r(1) by (simp add: j)
  qed
qed

lemma message_ok_rest: "message_ok r \<Longrightarrow> line_end L maxw r 0 = Inr (Some j) \<Longrightarrow> message_ok (drop (Suc j) r)"
proof -
  assume r: "message_ok r" and j: "line_end L maxw r 0 = Inr (Some j)"
  have "j < length r" "isspace (r ! j)" using line_end_bounds [OF j] line_end_space [OF j] by auto
  moreover from this r have "j \<noteq> length r - 1" by (auto simp: message_ok_def last_conv_nth)
  ultimately have "Suc j < length r" by linarith
  then show ?thesis using r by (auto simp: message_ok_def last_drop)
qed

lemma fail_lines_ok: "message_ok r \<Longrightarrow> \<exists>ds. fail_lines L up maxw y r = Inr ds"
proof (induction r arbitrary: y rule: length_induct)
  case (1 r)
  then have "0 < length r" by (simp add: message_ok_def)
  then obtain x where x: "line_end L maxw r 0 = Inr x" using line_end_ok by blast
  show ?case
  proof (cases x)
    case None
    with x show ?thesis by (subst fail_lines.simps) simp
  next
    case (Some j)
    with x have "message_ok (drop (Suc j) r)" "length (drop (Suc j) r) < length r"
      using message_ok_rest [OF 1(2)] line_end_bounds [of L maxw r 0 j] by auto
    with 1(1) obtain ds where "fail_lines L up maxw (y + F_Y_INC L FailFont) (drop (Suc j) r) = Inr ds" by blast
    with x Some show ?thesis by (subst fail_lines.simps) simp
  qed
qed

lemma RedrawFail_ok: "message_ok (lw_fail w) \<Longrightarrow> \<exists>ds. RedrawFail L w = Inr (paint ds w)"
  unfolding RedrawFail_def Let_def
  using fail_lines_ok [of "lw_fail w" L "lw_failUp w" "k_width L - PAD_X L"
    "PROMPT_Y L w LAST_PROMPT + 2 * F_Y_INC L PromptFont"] by auto

text \<open>What editing leaves alone.\<close>

definition rest ::
    "login \<Rightarrow> (login_state \<times> nat \<times> string option \<times> bool) \<times> (string \<times> string \<times> string \<times> int \<times> bool) \<times> nat list \<times> loginPromptState list" where
  "rest w = ((lw_state w, lw_activePrompt w, lw_sessionArg w, lw_allow_access w),
     (lw_fail w, gr_name w, gr_password w, gr_code w, gr_done w),
     map (\<lambda>p. length (lp_valueText p)) (lw_prompts w), map lp_state (lw_prompts w))"

lemma rest_paint [simp]: "rest (paint ds w) = rest w"
  by (simp add: rest_def paint_def)

definition fields :: "login \<Rightarrow> (string \<times> string) list" where
  "fields w = map field_text (lw_prompts w)"

text \<open>The widget of a greeter that waits for a name and a password.\<close>

definition entering :: "look \<Rightarrow> login \<Rightarrow> bool" where
  "entering L w \<longleftrightarrow> lw_state w = PROMPTING \<and> lw_activePrompt w < 2 \<and> lw_fail w = k_failMsg L \<and>
     map lp_state (lw_prompts w) = [LOGIN_PROMPT_ECHO_ON, LOGIN_PROMPT_ECHO_OFF] \<and> (\<forall>p \<in> set (lw_prompts w). field_ok p)"

lemma entering_length: "entering L w \<Longrightarrow> length (lw_prompts w) = 2"
  unfolding entering_def by (metis length_map length_Cons list.size(3) numeral_2_eq_2)

lemma entering_prompt: "entering L w \<Longrightarrow> n < 2 \<Longrightarrow> prompt n w = Inr (lw_prompts w ! n) \<and> field_ok (lw_prompts w ! n)"
  using entering_length [of L w] by (auto simp: prompt_Inr entering_def)

lemma entering_paint [simp]: "entering L (paint ds w) = entering L w"
  by (simp add: entering_def)

lemma RemoveFail_ok:
  assumes "message_ok (k_failMsg L)" "lw_fail w = k_failMsg L"
  shows "\<exists>ds. RemoveFail L w = Inr (paint ds (w\<lparr>lw_failUp := False\<rparr>))"
proof (cases "lw_failUp w")
  case True
  then show ?thesis using RedrawFail_ok [of "w\<lparr>lw_failUp := False\<rparr>" L] assms by (simp add: RemoveFail_def EraseFail_def)
next
  case False
  then have "w\<lparr>lw_failUp := False\<rparr> = w" by simp
  then show ?thesis using False by (metis RemoveFail_def paint_simps(8))
qed

lemma entering_failUp [simp]: "entering L (w\<lparr>lw_failUp := b\<rparr>) = entering L w" "rest (w\<lparr>lw_failUp := b\<rparr>) = rest w"
  "fields (w\<lparr>lw_failUp := b\<rparr>) = fields w" "prompt n (w\<lparr>lw_failUp := b\<rparr>) = prompt n w"
  by (simp_all add: entering_def rest_def fields_def prompt_def)

lemma fields_paint [simp]: "fields (paint ds w) = fields w"
  by (simp add: fields_def)

lemma cursor_offset_ok: "field_ok p \<Longrightarrow> \<exists>c. cursor_offset L p = Inr c"
proof -
  assume p: "field_ok p"
  then obtain r where "lp_valueText p = cstr (lp_valueText p) @ NUL # r"
    using NUL_split [of "lp_valueText p"] by (auto simp: field_ok_def text_ok_def)
  then have "lp_valueShownStart p + (lp_cursor p - lp_valueShownStart p) \<le> length (lp_valueText p)"
    using p length_cstr_le [of "lp_valueText p"] by (auto simp: field_ok_def text_ok_def)
  from bytes_at_exists [OF this] p show ?thesis
    by (auto simp: cursor_offset_def field_ok_def split: loginPromptState.split)
qed

lemma realizeCursor_ok:
  assumes "lw_state w = PROMPTING \<Longrightarrow> \<exists>p. prompt (lw_activePrompt w) w = Inr p \<and> field_ok p"
  shows "\<exists>ds. realizeCursor L g w = Inr (paint ds w)"
proof (cases "lw_state w = PROMPTING")
  case True
  then obtain p c where p: "prompt (lw_activePrompt w) w = Inr p" "cursor_offset L p = Inr c"
    using assms cursor_offset_ok by blast
  then show ?thesis
    using True by (cases c) (auto simp: realizeCursor_def Let_def intro: exI [of _ "[]"])
next
  case False
  then show ?thesis by (auto simp: realizeCursor_def intro: exI [of _ "[]"])
qed

lemma cursor_entering: "entering L w \<Longrightarrow> \<exists>ds. realizeCursor L g w = Inr (paint ds w)"
  by (rule realizeCursor_ok) (use entering_prompt in \<open>auto simp: entering_def\<close>)

text \<open>What an editing action does to its prompt: another text and cursor in a buffer of the same
  size.\<close>

definition edits_to :: "nat \<Rightarrow> loginPromptData \<Rightarrow> loginPromptData \<Rightarrow> login \<Rightarrow> login \<Rightarrow> bool" where
  "edits_to n p q w w' \<longleftrightarrow> (\<exists>ds s e. w' = paint ds (set_prompt n (q\<lparr>lp_valueShownStart := s, lp_valueShownEnd := e\<rparr>) w) \<and>
     s \<le> lp_cursor q) \<and> text_ok q \<and> lp_state q = lp_state p \<and> length (lp_valueText q) = length (lp_valueText p)"

lemma edits_to_entering:
  assumes "entering L w" "n < 2" "edits_to n (lw_prompts w ! n) q w w'"
  shows "entering L w' \<and> rest w' = rest w \<and> fields w' = (fields w)[n := field_text q]"
proof -
  obtain ds s e where w': "w' = paint ds (set_prompt n (q\<lparr>lp_valueShownStart := s, lp_valueShownEnd := e\<rparr>) w)" "s \<le> lp_cursor q"
    and q: "text_ok q" "lp_state q = lp_state (lw_prompts w ! n)" "length (lp_valueText q) = length (lp_valueText (lw_prompts w ! n))"
    using assms(3) unfolding edits_to_def by blast
  have n: "n < length (lw_prompts w)" using entering_length [OF assms(1)] assms(2) by simp
  have "field_ok (q\<lparr>lp_valueShownStart := s, lp_valueShownEnd := e\<rparr>)" using w'(2) q(1) by (simp add: field_ok_def text_ok_def)
  then have f: "\<forall>p \<in> set ((lw_prompts w)[n := q\<lparr>lp_valueShownStart := s, lp_valueShownEnd := e\<rparr>]). field_ok p"
    using assms(1) set_update_subset_insert by (fastforce simp: entering_def)
  have st: "map lp_state ((lw_prompts w)[n := q\<lparr>lp_valueShownStart := s, lp_valueShownEnd := e\<rparr>]) = map lp_state (lw_prompts w)"
    "map (\<lambda>p. length (lp_valueText p)) ((lw_prompts w)[n := q\<lparr>lp_valueShownStart := s, lp_valueShownEnd := e\<rparr>]) =
      map (\<lambda>p. length (lp_valueText p)) (lw_prompts w)"
    using q(2,3) n by (simp_all add: map_update) (metis list_update_id nth_map)+
  show ?thesis
    using assms(1) f st by (simp add: w'(1) entering_def rest_def fields_def map_update field_text_def)
      (simp add: set_prompt_def paint_def)
qed

section \<open>The editing actions\<close>

lemma deleted_text:
  assumes "NUL \<in> set b" "c < length (cstr b)"
  shows "length (delete_at c b) = length b" "NUL \<in> set (delete_at c b)"
    "cstr (delete_at c b) = take c (cstr b) @ drop (Suc c) (cstr b)"
proof -
  obtain r where b: "b = cstr b @ NUL # r" "NUL \<notin> set (cstr b)" using NUL_split [OF assms(1)] by blast
  then have d: "delete_at c b = (take c (cstr b) @ drop (Suc c) (cstr b)) @ NUL # NUL # r"
    using delete_at_text [of "cstr b" c r] assms(2) by simp
  have "NUL \<notin> set (take c (cstr b) @ drop (Suc c) (cstr b))" using b(2) by (auto dest: in_set_takeD in_set_dropD)
  from cstr_upto [OF this] show "cstr (delete_at c b) = take c (cstr b) @ drop (Suc c) (cstr b)" by (simp only: d)
  have "length b = length (cstr b) + Suc (length r)" by (subst b(1)) simp
  then show "length (delete_at c b) = length b" using assms(2) by (simp add: d)
  show "NUL \<in> set (delete_at c b)" by (simp add: d)
qed

lemma edits_set_prompt:
  assumes "field_ok q" "lp_state q = lp_state p" "length (lp_valueText q) = length (lp_valueText p)"
  shows "edits_to n p q v (set_prompt n q v)"
proof -
  have "set_prompt n q v =
      paint [] (set_prompt n (q\<lparr>lp_valueShownStart := lp_valueShownStart q, lp_valueShownEnd := lp_valueShownEnd q\<rparr>) v)" by simp
  then show ?thesis using assms unfolding edits_to_def field_ok_def by blast
qed

lemma edits_paint: "edits_to n p q v v' \<Longrightarrow> edits_to n p q v (paint ds v')"
  unfolding edits_to_def by (metis paint_simps(7))

text \<open>Redrawing from a position, after a change of the cursor.\<close>

lemma edits_redrawn:
  assumes "n < length (lw_prompts v)" "text_ok p1" "at \<le> length (cstr (lp_valueText p1))"
    "field_ok (f p1)" "at \<le> length (cstr (lp_valueText (f p1)))"
    "lp_state (f p1) = lp_state p" "length (lp_valueText (f p1)) = length (lp_valueText p)"
  shows "\<exists>v'. redrawn L at n f (set_prompt n p1 v) = Inr v' \<and> edits_to n p (f p1) v v'"
proof -
  have "prompt n (set_prompt n p1 v) = Inr p1" using assms(1) by simp
  then obtain ds s e where r: "redrawn L at n f (set_prompt n p1 v) =
      Inr (paint ds (set_prompt n ((f p1)\<lparr>lp_valueShownStart := s, lp_valueShownEnd := e\<rparr>) (set_prompt n p1 v)))"
      "s \<le> lp_cursor (f p1)"
    using redrawn_ok [of n "set_prompt n p1 v" p1 at f L] assms by (auto simp: text_ok_def)
  then show ?thesis using assms(4,6,7) unfolding edits_to_def field_ok_def by auto
qed

text \<open>The effect of an action on the two halves of the active field.\<close>

definition does :: "look \<Rightarrow> (login \<Rightarrow> c_error + login) \<Rightarrow> (string \<times> string \<Rightarrow> string \<times> string) \<Rightarrow> login \<Rightarrow> bool" where
  "does L action f w \<longleftrightarrow> (\<exists>w'. action w = Inr w' \<and> entering L w' \<and> rest w' = rest w \<and>
     fields w' = (fields w)[lw_activePrompt w := f (fields w ! lw_activePrompt w)])"

lemma fields_nth: "n < length (lw_prompts w) \<Longrightarrow> fields w ! n = field_text (lw_prompts w ! n)"
  by (simp add: fields_def)

lemma editing_does:
  assumes "entering L w" "message_ok (k_failMsg L)"
    "\<And>p n v. field_ok p \<Longrightarrow> n < length (lw_prompts v) \<Longrightarrow> prompt n v = Inr p \<Longrightarrow>
       \<exists>q v'. change n p v = Inr v' \<and> edits_to n p q v v' \<and> field_text q = f (field_text p)"
  shows "does L (editing L change) f w"
proof -
  let ?n = "lw_activePrompt w" let ?p = "lw_prompts w ! lw_activePrompt w"
  have n: "?n < 2" "length (lw_prompts w) = 2" using assms(1) entering_length by (auto simp: entering_def)
  have p: "field_ok ?p" using entering_prompt [OF assms(1) n(1)] by blast
  obtain ds where ds: "RemoveFail L w = Inr (paint ds (w\<lparr>lw_failUp := False\<rparr>))"
    using RemoveFail_ok assms(1,2) by (metis entering_def)
  let ?w1 = "paint ds (w\<lparr>lw_failUp := False\<rparr>)"
  have e1: "entering L ?w1" using assms(1) by simp
  obtain ds2 where x: "realizeCursor L XorGC ?w1 = Inr (paint ds2 ?w1)" using cursor_entering [OF e1] by blast
  let ?w2 = "paint ds2 ?w1"
  have e2: "entering L ?w2" "lw_prompts ?w2 = lw_prompts w" using e1 by simp_all
  have p2: "prompt ?n ?w2 = Inr ?p" using n by (simp add: prompt_def)
  obtain q v' where v': "change ?n ?p ?w2 = Inr v'" "edits_to ?n ?p q ?w2 v'" "field_text q = f (field_text ?p)"
    using assms(3) [OF p _ p2] n e2(2) by auto
  have v: "entering L v'" "rest v' = rest w" "fields v' = (fields w)[?n := field_text q]"
    using edits_to_entering [OF e2(1) n(1)] v'(2) e2(2) by auto
  obtain ds3 where "realizeCursor L XorGC v' = Inr (paint ds3 v')" using cursor_entering [OF v(1)] by blast
  then show ?thesis
    using ds x v v' p2 n assms(1) unfolding does_def
    by (auto simp: editing_def entering_def fields_nth)
qed

lemma edits_idle: "field_ok p \<Longrightarrow> prompt n v = Inr p \<Longrightarrow> edits_to n p p v v"
  using edits_set_prompt [of p p n v] by (simp add: set_prompt_idle)

text \<open>Deleting the character at the cursor, in a prompt whose cursor may just have moved off the left
  edge of what is shown.\<close>

lemma realizeDeleteChar_edits:
  assumes "n < length (lw_prompts v)" "text_ok p1" "lp_cursor p1 < length (cstr (lp_valueText p1))"
    "lp_state p1 = lp_state p" "length (lp_valueText p1) = length (lp_valueText p)"
  shows "\<exists>q v'. realizeDeleteChar L n (set_prompt n p1 v) = Inr v' \<and> edits_to n p q v v' \<and>
    field_text q = (fst (field_text p1), tl (snd (field_text p1)))"
proof -
  let ?c = "lp_cursor p1" let ?b = "lp_valueText p1"
  have t: "NUL \<in> set ?b" "length (cstr ?b) + 2 \<le> length ?b" using assms(2) by (auto simp: text_ok_def)
  note d = deleted_text [OF t(1) assms(3)]
  have f: "field_text (p1\<lparr>lp_valueText := delete_at ?c ?b\<rparr>) = (fst (field_text p1), tl (snd (field_text p1)))"
    using assms(3) by (simp add: field_text_def d drop_Suc [symmetric] tl_drop)
  have ok: "text_ok (p1\<lparr>lp_valueText := delete_at ?c ?b\<rparr>)" using t(2) assms(3) d by (auto simp: text_ok_def)
  have s: "strlen_from ?b 0 = Inr (length (cstr ?b))" using strlen_from_ok [OF t(1), of 0] by simp
  have pr: "prompt n (set_prompt n p1 v) = Inr p1" using assms(1) by simp
  show ?thesis
  proof (cases "?c < lp_valueShownStart p1")
    case True
    let ?f = "\<lambda>q. q\<lparr>lp_valueShownStart := lp_cursor q, lp_valueText := delete_at (lp_cursor q) (lp_valueText q)\<rparr>"
    have "\<exists>v'. redrawn L 0 n ?f (set_prompt n p1 v) = Inr v' \<and> edits_to n p (?f p1) v v'"
      by (rule edits_redrawn) (use assms ok d in \<open>auto simp: field_ok_def text_ok_def\<close>)
    moreover have "field_text (?f p1) = field_text (p1\<lparr>lp_valueText := delete_at ?c ?b\<rparr>)" by (simp add: field_text_def)
    ultimately show ?thesis using True s pr f assms(3) by (simp add: realizeDeleteChar_def) blast
  next
    case False
    let ?f = "\<lambda>q. q\<lparr>lp_valueText := delete_at (lp_cursor q) (lp_valueText q)\<rparr>"
    have "\<exists>v'. redrawn L ?c n ?f (set_prompt n p1 v) = Inr v' \<and> edits_to n p (?f p1) v v'"
      by (rule edits_redrawn) (use assms ok d False in \<open>auto simp: field_ok_def text_ok_def\<close>)
    then show ?thesis using False s pr f assms(3) by (simp add: realizeDeleteChar_def) blast
  qed
qed

lemma DeleteForwardChar_does:
  assumes "entering L w" "message_ok (k_failMsg L)"
  shows "does L (DeleteForwardChar L) (\<lambda>(l, r). (l, tl r)) w"
  unfolding DeleteForwardChar_def
proof (rule editing_does [OF assms])
  fix p n v assume p: "field_ok p" "n < length (lw_prompts v)" "prompt n v = Inr p"
  show "\<exists>q v'. realizeDeleteChar L n v = Inr v' \<and> edits_to n p q v v' \<and>
      field_text q = (case field_text p of (l, r) \<Rightarrow> (l, tl r))"
  proof (cases "lp_cursor p < length (cstr (lp_valueText p))")
    case True
    with realizeDeleteChar_edits [OF p(2), of p p L] p show ?thesis
      by (auto simp: set_prompt_idle field_ok_def split: prod.split)
  next
    case False
    then have "realizeDeleteChar L n v = Inr v"
      using p strlen_from_ok [of "lp_valueText p" 0] by (simp add: realizeDeleteChar_def field_ok_def text_ok_def)
    moreover have "snd (field_text p) = []" using False by (simp add: field_text_def)
    ultimately show ?thesis using edits_idle [OF p(1,3)] by (auto split: prod.split)
  qed
qed

lemma DeleteBackwardChar_does:
  assumes "entering L w" "message_ok (k_failMsg L)"
  shows "does L (DeleteBackwardChar L) (\<lambda>(l, r). (butlast l, r)) w"
  unfolding DeleteBackwardChar_def
proof (rule editing_does [OF assms])
  fix p n v assume p: "field_ok p" "n < length (lw_prompts v)" "prompt n v = Inr p"
  show "\<exists>q v'. (if 0 < lp_cursor p then realizeDeleteChar L n (set_prompt n (p\<lparr>lp_cursor := lp_cursor p - 1\<rparr>) v) else Inr v) = Inr v' \<and>
      edits_to n p q v v' \<and> field_text q = (case field_text p of (l, r) \<Rightarrow> (butlast l, r))"
  proof (cases "0 < lp_cursor p")
    case True
    let ?p1 = "p\<lparr>lp_cursor := lp_cursor p - 1\<rparr>"
    have c: "lp_cursor ?p1 < length (cstr (lp_valueText ?p1))" "text_ok ?p1" "lp_cursor p \<le> length (cstr (lp_valueText p))"
      using p(1) True by (auto simp: field_ok_def text_ok_def)
    have "fst (field_text ?p1) = butlast (fst (field_text p))" "tl (snd (field_text ?p1)) = snd (field_text p)"
      using c True by (simp_all add: field_text_def butlast_take tl_drop) (metis Suc_pred drop_Suc tl_drop)
    then show ?thesis
      using realizeDeleteChar_edits [OF p(2) c(2,1), of p L] True by (auto split: prod.split)
  next
    case False
    then have "fst (field_text p) = []" by (simp add: field_text_def)
    then show ?thesis using False edits_idle [OF p(1,3)] by (auto split: prod.split)
  qed
qed

text \<open>The actions that only move the cursor; some have to draw the value again.\<close>

lemma moved_edits:
  assumes "n < length (lw_prompts v)" "text_ok p1" "lp_state p1 = lp_state p" "lp_valueText p1 = lp_valueText p"
    "lp_cursor (f p1) = lp_cursor p1" "lp_valueText (f p1) = lp_valueText p1" "lp_state (f p1) = lp_state p1"
    "b \<Longrightarrow> lp_valueShownStart (f p1) \<le> lp_cursor p1" "\<not> b \<Longrightarrow> lp_valueShownStart p1 \<le> lp_cursor p1"
  shows "\<exists>q v'. (if b then redrawn L 0 n f (set_prompt n p1 v) else Inr (set_prompt n p1 v)) = Inr v' \<and>
    edits_to n p q v v' \<and> field_text q = field_text p1"
proof (cases b)
  case True
  have "\<exists>v'. redrawn L 0 n f (set_prompt n p1 v) = Inr v' \<and> edits_to n p (f p1) v v'"
    by (rule edits_redrawn) (use assms True in \<open>simp_all add: field_ok_def text_ok_def\<close>)
  moreover have "field_text (f p1) = field_text p1" using assms(5,6) by (simp add: field_text_def)
  ultimately show ?thesis using True by auto
next
  case False
  then have "edits_to n p p1 v (set_prompt n p1 v)"
    using assms(2-4,9) by (intro edits_set_prompt) (simp_all add: field_ok_def)
  then show ?thesis using False by auto
qed

lemma MoveBackwardChar_does:
  assumes "entering L w" "message_ok (k_failMsg L)"
  shows "does L (MoveBackwardChar L) (\<lambda>(l, r). if l = [] then (l, r) else (butlast l, last l # r)) w"
  unfolding MoveBackwardChar_def
proof (rule editing_does [OF assms])
  fix p n v assume p: "field_ok p" "n < length (lw_prompts v)" "prompt n v = Inr p"
  define p1 where "p1 = (if 0 < lp_cursor p then p\<lparr>lp_cursor := lp_cursor p - 1\<rparr> else p)"
  have c: "text_ok p1" "lp_state p1 = lp_state p" "lp_valueText p1 = lp_valueText p" "lp_cursor p \<le> length (cstr (lp_valueText p))"
    using p(1) by (auto simp: field_ok_def text_ok_def p1_def)
  have ft: "field_text p1 = (case field_text p of (l, r) \<Rightarrow> if l = [] then (l, r) else (butlast l, last l # r))"
  proof (cases "lp_cursor p")
    case 0
    then show ?thesis by (simp add: field_text_def p1_def)
  next
    case (Suc k)
    then have "k < length (cstr (lp_valueText p))" using c(4) by simp
    then show ?thesis using Suc
      by (simp add: field_text_def p1_def butlast_take take_Suc_conv_app_nth Cons_nth_drop_Suc)
  qed
  show "\<exists>q v'. (let p1 = if 0 < lp_cursor p then p\<lparr>lp_cursor := lp_cursor p - 1\<rparr> else p; w1 = set_prompt n p1 v
        in if lp_cursor p1 < lp_valueShownStart p1
           then redrawn L 0 n (\<lambda>q. q\<lparr>lp_valueShownStart := lp_cursor q\<rparr>) w1 else Inr w1) = Inr v' \<and>
      edits_to n p q v v' \<and> field_text q = (case field_text p of (l, r) \<Rightarrow> if l = [] then (l, r) else (butlast l, last l # r))"
    unfolding Let_def p1_def [symmetric] ft [symmetric]
    by (rule moved_edits) (use p(2) c in simp_all)
qed

lemma MoveForwardChar_does:
  assumes "entering L w" "message_ok (k_failMsg L)"
  shows "does L (MoveForwardChar L) (\<lambda>(l, r). if r = [] then (l, r) else (l @ [hd r], tl r)) w"
  unfolding MoveForwardChar_def
proof (rule editing_does [OF assms])
  fix p n v assume p: "field_ok p" "n < length (lw_prompts v)" "prompt n v = Inr p"
  let ?len = "length (cstr (lp_valueText p))" let ?c = "lp_cursor p" let ?p1 = "p\<lparr>lp_cursor := ?c + 1\<rparr>"
  have s: "strlen_from (lp_valueText p) 0 = Inr ?len" "?c \<le> ?len"
    using p(1) strlen_from_ok [of "lp_valueText p" 0] by (auto simp: field_ok_def text_ok_def)
  show "\<exists>q v'. bindE (strlen_from (lp_valueText p) 0) (\<lambda>len.
         if lp_cursor p < len then
           (let p1 = p\<lparr>lp_cursor := lp_cursor p + 1\<rparr>; w1 = set_prompt n p1 v
            in if lp_valueShownEnd p1 < lp_cursor p1 then redrawn L 0 n id w1 else Inr w1)
         else Inr v) = Inr v' \<and>
      edits_to n p q v v' \<and> field_text q = (case field_text p of (l, r) \<Rightarrow> if r = [] then (l, r) else (l @ [hd r], tl r))"
  proof (cases "?c < ?len")
    case True
    have ft: "field_text ?p1 = (case field_text p of (l, r) \<Rightarrow> if r = [] then (l, r) else (l @ [hd r], tl r))"
      using True by (simp add: field_text_def take_Suc_conv_app_nth hd_drop_conv_nth tl_drop drop_Suc)
    show ?thesis
      unfolding s(1) bindE.simps if_P [OF True] Let_def ft [symmetric]
      by (rule moved_edits) (use p(1,2) True in \<open>auto simp: field_ok_def text_ok_def\<close>)
  next
    case False
    then show ?thesis using s edits_idle [OF p(1,3)] by (auto simp: field_text_def)
  qed
qed

lemma MoveToBegining_does:
  assumes "entering L w" "message_ok (k_failMsg L)"
  shows "does L (MoveToBegining L) (\<lambda>(l, r). ([], l @ r)) w"
  unfolding MoveToBegining_def
proof (rule editing_does [OF assms])
  fix p n v assume p: "field_ok p" "n < length (lw_prompts v)" "prompt n v = Inr p"
  have ft: "field_text (p\<lparr>lp_cursor := 0\<rparr>) = (case field_text p of (l, r) \<Rightarrow> ([], l @ r))"
    by (simp add: field_text_def)
  show "\<exists>q v'. (let w1 = set_prompt n (p\<lparr>lp_cursor := 0\<rparr>) v
       in if 0 < lp_valueShownStart p then redrawn L 0 n (\<lambda>q. q\<lparr>lp_valueShownStart := 0\<rparr>) w1 else Inr w1) = Inr v' \<and>
      edits_to n p q v v' \<and> field_text q = (case field_text p of (l, r) \<Rightarrow> ([], l @ r))"
    unfolding Let_def ft [symmetric]
    by (rule moved_edits) (use p in \<open>auto simp: field_ok_def text_ok_def\<close>)
qed

lemma MoveToEnd_does:
  assumes "entering L w" "message_ok (k_failMsg L)"
  shows "does L (MoveToEnd L) (\<lambda>(l, r). (l @ r, [])) w"
  unfolding MoveToEnd_def
proof (rule editing_does [OF assms])
  fix p n v assume p: "field_ok p" "n < length (lw_prompts v)" "prompt n v = Inr p"
  let ?len = "length (cstr (lp_valueText p))"
  have s: "strlen_from (lp_valueText p) 0 = Inr ?len" "lp_cursor p \<le> ?len"
    using p(1) strlen_from_ok [of "lp_valueText p" 0] by (auto simp: field_ok_def text_ok_def)
  have ft: "field_text (p\<lparr>lp_cursor := ?len\<rparr>) = (case field_text p of (l, r) \<Rightarrow> (l @ r, []))"
    by (simp add: field_text_def)
  show "\<exists>q v'. bindE (strlen_from (lp_valueText p) 0) (\<lambda>len.
         let w1 = set_prompt n (p\<lparr>lp_cursor := len\<rparr>) v
         in if lp_valueShownEnd p < len then redrawn L 0 n id w1 else Inr w1) = Inr v' \<and>
      edits_to n p q v v' \<and> field_text q = (case field_text p of (l, r) \<Rightarrow> (l @ r, []))"
    unfolding s(1) bindE.simps Let_def ft [symmetric]
    by (rule moved_edits) (use p s in \<open>auto simp: field_ok_def text_ok_def\<close>)
qed

lemma EraseToEndOfLine_does:
  assumes "entering L w" "message_ok (k_failMsg L)"
  shows "does L (EraseToEndOfLine L) (\<lambda>(l, r). (l, [])) w"
  unfolding EraseToEndOfLine_def
proof (rule editing_does [OF assms])
  fix p n v assume p: "field_ok p" "n < length (lw_prompts v)" "prompt n v = Inr p"
  have t: "text_ok p" "lp_cursor p \<le> length (lp_valueText p)"
    using p(1) length_cstr_le [of "lp_valueText p"] by (auto simp: field_ok_def text_ok_def)
  let ?b = "take (lp_cursor p) (lp_valueText p) @ replicate (length (lp_valueText p) - lp_cursor p) NUL"
  have b: "cstr ?b = take (lp_cursor p) (cstr (lp_valueText p))" "length ?b = length (lp_valueText p)" "NUL \<in> set ?b"
    using erased_text [OF t(1)] t by (auto simp: text_ok_def)
  then have q: "field_ok (p\<lparr>lp_valueText := ?b\<rparr>)" using p(1) by (auto simp: field_ok_def text_ok_def)
  obtain ds where ds: "EraseValue L (lp_cursor p) n v = Inr (paint ds v)"
    using EraseValue_ok [OF p(3)] t(1) by (auto simp: text_ok_def)
  have "edits_to n p (p\<lparr>lp_valueText := ?b\<rparr>) v (paint ds (set_prompt n (p\<lparr>lp_valueText := ?b\<rparr>) v))"
    by (intro edits_paint edits_set_prompt q) (use b(2) in simp_all)
  moreover have "field_text (p\<lparr>lp_valueText := ?b\<rparr>) = (case field_text p of (l, r) \<Rightarrow> (l, []))"
    using b(1) t(1) by (simp add: field_text_def text_ok_def)
  ultimately show "\<exists>q v'. bindE (EraseValue L (lp_cursor p) n v) (\<lambda>w1.
       bindE (prompt n w1) (\<lambda>q.
       bindE (write_at (lp_valueText q) (lp_cursor q) (replicate (length (lp_valueText q) - lp_cursor q) NUL)) (\<lambda>b.
         Inr (set_prompt n (q\<lparr>lp_valueText := b\<rparr>) w1)))) = Inr v' \<and>
      edits_to n p q v v' \<and> field_text q = (case field_text p of (l, r) \<Rightarrow> (l, []))"
    using p(3) write_NULs [OF t(2)] by (simp add: ds) blast
qed

lemma does_then:
  assumes "does L a f w" "\<And>w'. entering L w' \<Longrightarrow> does L b g w'" "length (lw_prompts w) = 2" "lw_activePrompt w < 2"
  shows "does L (\<lambda>w. bindE (a w) b) (g \<circ> f) w"
proof -
  obtain w1 where w1: "a w = Inr w1" "entering L w1" "rest w1 = rest w"
    "fields w1 = (fields w)[lw_activePrompt w := f (fields w ! lw_activePrompt w)]" using assms(1) by (auto simp: does_def)
  obtain w2 where "b w1 = Inr w2" "entering L w2" "rest w2 = rest w1"
    "fields w2 = (fields w1)[lw_activePrompt w1 := g (fields w1 ! lw_activePrompt w1)]"
    using assms(2) [OF w1(2)] by (auto simp: does_def)
  moreover have "lw_activePrompt w1 = lw_activePrompt w" using w1(3) by (simp add: rest_def)
  moreover have "lw_activePrompt w < length (fields w)" using assms(3,4) by (simp add: fields_def)
  ultimately show ?thesis using w1 by (simp add: does_def)
qed

lemma EraseLine_does:
  assumes "entering L w" "message_ok (k_failMsg L)"
  shows "does L (EraseLine L) (\<lambda>(l, r). ([], [])) w"
proof -
  have "does L (\<lambda>w. bindE (MoveToBegining L w) (EraseToEndOfLine L)) ((\<lambda>(l, r). (l, [])) \<circ> (\<lambda>(l, r). ([], l @ r))) w"
    by (rule does_then) (use assms entering_length MoveToBegining_does EraseToEndOfLine_does in \<open>auto simp: entering_def\<close>)
  moreover have "(\<lambda>(l, r). (l, [])) \<circ> (\<lambda>(l, r). ([], l @ r)) = (\<lambda>(l :: string, r :: string). ([] :: string, [] :: string))"
    by auto
  ultimately show ?thesis by (simp add: EraseLine_def [abs_def])
qed

section \<open>Inserting\<close>

lemma cursor_commute:
  "q\<lparr>lp_valueShownStart := s, lp_valueShownEnd := e, lp_cursor := c\<rparr> =
   q\<lparr>lp_cursor := c, lp_valueShownStart := s, lp_valueShownEnd := e\<rparr>"
  by (cases q) simp

lemma insert_text_edits:
  assumes "field_ok p" "prompt n v = Inr p" "NUL \<notin> set s"
    "length s + length (cstr (lp_valueText p)) + 2 \<le> length (lp_valueText p)"
  shows "\<exists>q v'. insert_text L n s v = Inr v' \<and> edits_to n p q v v' \<and>
    field_text q = (case field_text p of (l, r) \<Rightarrow> (l @ s, r))"
proof -
  let ?c = "lp_cursor p"
  have t: "text_ok p" "NUL \<in> set (lp_valueText p)" "?c \<le> length (cstr (lp_valueText p))"
    using assms(1) by (auto simp: field_ok_def text_ok_def)
  have n: "n < length (lw_prompts v)" using assms(2) by (simp add: prompt_Inr)
  obtain ds where ds: "EraseValue L ?c n v = Inr (paint ds v)" using EraseValue_ok [OF assms(2) t(2,3)] by blast
  obtain b where b: "inserted s p = Inr (p\<lparr>lp_valueText := b\<rparr>)" "length b = length (lp_valueText p)" "NUL \<in> set b"
    "cstr b = fst (field_text p) @ s @ snd (field_text p)" using inserted_text [OF t(1) assms(3,4)] by blast
  have lb: "length (cstr b) = length (cstr (lp_valueText p)) + length s"
    using t(3) by (simp add: b(4) field_text_def)
  let ?p2 = "p\<lparr>lp_valueText := b\<rparr>" let ?q = "?p2\<lparr>lp_cursor := ?c + length s\<rparr>"
  let ?v1 = "paint ds (set_prompt n ?p2 v)"
  have p2: "field_ok ?p2" "?c \<le> length (cstr (lp_valueText ?p2))" "prompt n ?v1 = Inr ?p2"
    using assms(1,4) b lb n by (auto simp: field_ok_def text_ok_def)
  obtain ds2 f e where d: "DrawValue L ?c n ?v1 =
      Inr (paint ds2 (set_prompt n (?p2\<lparr>lp_valueShownStart := f, lp_valueShownEnd := e\<rparr>) ?v1))" "f \<le> ?c"
    using DrawValue_ok [OF p2(3,1,2), of L] by auto
  let ?v' = "paint (ds @ ds2) (set_prompt n (?q\<lparr>lp_valueShownStart := f, lp_valueShownEnd := e\<rparr>) v)"
  have "insert_text L n s v = Inr ?v'"
    using assms(2) ds b(1) d n by (simp add: insert_text_def cursor_commute)
  moreover have "edits_to n p ?q v ?v'"
    unfolding edits_to_def using assms(4) b(2,3) lb t(3) d(2)
    by (intro conjI exI [of _ "ds @ ds2"] exI [of _ f] exI [of _ e]) (auto simp: text_ok_def)
  moreover have "field_text ?q = (case field_text p of (l, r) \<Rightarrow> (l @ s, r))"
    using t(3) by (simp add: field_text_def [of ?q] b(4)) (simp add: field_text_def)
  ultimately show ?thesis by blast
qed

lemma field_text_length: "text_ok p \<Longrightarrow> length (fst (field_text p)) + length (snd (field_text p)) = length (cstr (lp_valueText p))"
  by (auto simp: field_text_def text_ok_def)

text \<open>How many characters a field can hold; two bytes of its buffer are never used for text.\<close>

definition capacity :: "login \<Rightarrow> nat \<Rightarrow> nat" where
  "capacity w n = length (lp_valueText (lw_prompts w ! n)) - 2"

lemma insert_default_does:
  assumes "entering L w" "message_ok (k_failMsg L)" "NUL \<notin> set s"
  shows "does L (insert_default L (lw_activePrompt w) s)
    (\<lambda>(l, r). (l @ take (capacity w (lw_activePrompt w) - (length l + length r)) s, r)) w"
proof -
  let ?n = "lw_activePrompt w" let ?p = "lw_prompts w ! ?n"
  let ?len = "length (cstr (lp_valueText ?p))" let ?m = "length (lp_valueText ?p)"
  have n: "?n < 2" "length (lw_prompts w) = 2" "lw_state w = PROMPTING" "lw_fail w = k_failMsg L"
    using assms(1) entering_length by (auto simp: entering_def)
  have p: "prompt ?n w = Inr ?p" "field_ok ?p" using entering_prompt [OF assms(1) n(1)] by auto
  then have t: "text_ok ?p" "?len + 2 \<le> ?m" "NUL \<in> set (lp_valueText ?p)" by (auto simp: field_ok_def text_ok_def)
  define k where "k = room ?p ?len (length s)"
  have k: "0 \<le> k" "nat k + ?len + 2 \<le> ?m" "take (nat k) s = take (?m - 2 - ?len) s"
  proof -
    have "nat (int ?m - int ?len - 2) = ?m - 2 - ?len" by arith
    then show "take (nat k) s = take (?m - 2 - ?len) s" by (auto simp: k_def room_def Let_def)
  qed (use t(2) in \<open>auto simp: k_def room_def Let_def\<close>)
  obtain ds where ds: "EraseCursor L w = Inr (paint ds w)" using cursor_entering [OF assms(1)] by blast
  obtain ds2 where ds2: "RemoveFail L (paint ds w) = Inr (paint ds2 ((paint ds w)\<lparr>lw_failUp := False\<rparr>))"
    using RemoveFail_ok [OF assms(2), of "paint ds w"] n(4) by auto
  define v where "v = paint ds2 ((paint ds w)\<lparr>lw_failUp := False\<rparr>)"
  have v: "entering L v" "lw_prompts v = lw_prompts w" "rest v = rest w" "fields v = fields w" "prompt ?n v = Inr ?p"
    "lw_state v = PROMPTING"
    using assms(1) p(1) n(3) by (simp_all add: v_def)
  have "\<exists>q v'. (if k \<noteq> 0 \<and> lw_state v = PROMPTING
            then if k < 0 then Inl OutOfBounds else insert_text L ?n (take (nat k) s) v else Inr v) = Inr v' \<and>
      edits_to ?n ?p q v v' \<and> field_text q = (case field_text ?p of (l, r) \<Rightarrow> (l @ take (nat k) s, r))"
  proof (cases "k = 0")
    case True
    then show ?thesis using edits_idle [OF p(2) v(5)] by (auto split: prod.split)
  next
    case False
    have "NUL \<notin> set (take (nat k) s)" using assms(3) by (blast dest: in_set_takeD)
    moreover have "length (take (nat k) s) + ?len + 2 \<le> ?m" using k(2) by simp
    ultimately show ?thesis using insert_text_edits [OF p(2) v(5)] False k(1) v(6) by simp
  qed
  then obtain q v' where v': "(if k \<noteq> 0 \<and> lw_state v = PROMPTING
            then if k < 0 then Inl OutOfBounds else insert_text L ?n (take (nat k) s) v else Inr v) = Inr v'"
      "edits_to ?n ?p q v v'" "field_text q = (case field_text ?p of (l, r) \<Rightarrow> (l @ take (nat k) s, r))" by blast
  have e: "entering L v'" "rest v' = rest w" "fields v' = (fields w)[?n := field_text q]"
    using edits_to_entering [OF v(1) n(1)] v'(2) v(2-4) by auto
  obtain ds3 where ds3: "realizeCursor L XorGC v' = Inr (paint ds3 v')" using cursor_entering [OF e(1)] by blast
  have "mapE (\<lambda>len. room ?p len (length s)) (strlen_from (lp_valueText ?p) 0) = Inr k"
    using strlen_from_ok [OF t(3), of 0] by (simp add: k_def)
  then have "insert_default L ?n s w = Inr (paint ds3 v')"
    using p(1) n(3) ds ds2 v'(1) ds3 by (simp add: insert_default_def v_def [symmetric])
  moreover have "field_text q = (\<lambda>(l, r). (l @ take (capacity w ?n - (length l + length r)) s, r)) (fields w ! ?n)"
    using v'(3) k(3) n(1,2) field_text_length [OF t(1)]
    by (cases "field_text ?p") (simp add: fields_nth capacity_def)
  ultimately show ?thesis using e unfolding does_def by auto
qed

end
