(* ===== verification/Greet_Safe.thy ===== *)
theory Greet_Safe
  imports Login_Safe
begin

text \<open>
  The greeter at work: every event it can be given leaves it in one of two states, that of a user who
  is typing and that of a widget whose callback has been told, and none of them makes it read or
  write outside a buffer; and what goes wrong when a key stands for the character NUL.
\<close>

section \<open>The greeter's loop\<close>

text \<open>The widget once the callback has been told: both values are overwritten.\<close>

definition submitted :: "look \<Rightarrow> login \<Rightarrow> bool" where
  "submitted L w \<longleftrightarrow> lw_state w = DONE \<and> gr_done w \<and> gr_code w \<in> {0, 1, 2, 3} \<and> lw_fail w = k_failMsg L \<and>
     map lp_state (lw_prompts w) = [LOGIN_PROMPT_ECHO_ON, LOGIN_PROMPT_ECHO_OFF] \<and>
     (\<forall>p \<in> set (lw_prompts w). 2 \<le> length (lp_valueText p) \<and> set (lp_valueText p) = {NUL})"

text \<open>Where an operation may lead: the user goes on typing, or the callback has been told.\<close>

definition still :: "look \<Rightarrow> login \<Rightarrow> login \<Rightarrow> bool" where
  "still L w w' \<longleftrightarrow> entering L w' \<and> gr_done w' = gr_done w \<or> submitted L w'"

lemma gr_done_simps [simp]:
  "gr_done (paint ds w) = gr_done w" "gr_done (set_prompt n p w) = gr_done w"
  by (simp_all add: paint_def set_prompt_def)

lemma rest_gr_done: "rest w' = rest w \<Longrightarrow> gr_done w' = gr_done w"
  by (simp add: rest_def)

lemma two_prompts: "length ps = 2 \<Longrightarrow> \<exists>p q. ps = [p, q]"
  by (auto simp: numeral_2_eq_2 length_Suc_conv)

lemma wiped_text: "2 \<le> length (lp_valueText p) \<Longrightarrow> set (lp_valueText (wiped p)) = {NUL}"
  by (auto simp: wiped_def set_replicate_conv_if)

lemma entering_buffers:
  "entering L w \<Longrightarrow> p \<in> set (lw_prompts w) \<Longrightarrow> 2 \<le> length (lp_valueText p)"
  by (auto simp: entering_def field_ok_def text_ok_def)

lemma GreetDone_ok:
  assumes "entering L w"
  shows "\<exists>w'. GreetDone L st (w\<lparr>lw_state := DONE\<rparr>) = Inr w' \<and> submitted L w'"
proof -
  obtain p q where w: "lw_prompts w = [p, q]" using two_prompts entering_length [OF assms] by blast
  have l: "2 \<le> length (lp_valueText p)" "2 \<le> length (lp_valueText q)" using entering_buffers [OF assms] w by auto
  then show ?thesis
    using assms wiped_text [OF l(1)] wiped_text [OF l(2)]
    by (cases st) (simp_all add: GreetDone_def prompt_def w submitted_def set_prompt_def entering_def wiped_def)
qed

lemma cursor_submitted: "submitted L w \<Longrightarrow> realizeCursor L g w = Inr w"
  by (simp add: realizeCursor_def submitted_def)

lemma end_session_ok:
  assumes "entering L w" "message_ok (k_failMsg L)"
  shows "\<exists>w'. end_session L st w = Inr w' \<and> submitted L w'"
proof -
  obtain ds where ds: "XorCursor L w = Inr (paint ds w)" using cursor_entering [OF assms(1)] by blast
  obtain ds2 where ds2: "RemoveFail L (paint ds w) = Inr (paint ds2 ((paint ds w)\<lparr>lw_failUp := False\<rparr>))"
    using RemoveFail_ok [OF assms(2), of "paint ds w"] assms(1) by (auto simp: entering_def)
  have "entering L (paint ds2 ((paint ds w)\<lparr>lw_failUp := False\<rparr>))" using assms(1) by simp
  then obtain w' where w': "GreetDone L st (paint ds2 ((paint ds w)\<lparr>lw_failUp := False\<rparr>)\<lparr>lw_state := DONE\<rparr>) = Inr w'"
    "submitted L w'" using GreetDone_ok by blast
  then show ?thesis using ds ds2 cursor_submitted [OF w'(2)] by (simp add: end_session_def)
qed

lemma entering_active:
  assumes "entering L w" "n < 2"
  shows "entering L (w\<lparr>lw_activePrompt := n\<rparr>)"
  using assms by (simp add: entering_def)

text \<open>The frame of the two actions that change the field.\<close>

lemma field_change_ok:
  assumes "entering L w" "message_ok (k_failMsg L)"
    "\<And>v. entering L v \<Longrightarrow> lw_prompts v = lw_prompts w \<Longrightarrow> rest v = rest w \<Longrightarrow> \<exists>v'. change v = Inr v' \<and> still L w v'"
  shows "\<exists>w'. bindE (RemoveFail L w) (\<lambda>w1. if lw_state w1 \<noteq> PROMPTING then Inr w1
      else bindE (XorCursor L w1) (\<lambda>w2. bindE (change w2) (XorCursor L))) = Inr w' \<and> still L w w'"
proof -
  obtain ds where ds: "RemoveFail L w = Inr (paint ds (w\<lparr>lw_failUp := False\<rparr>))"
    using RemoveFail_ok assms(1,2) by (metis entering_def)
  let ?w1 = "paint ds (w\<lparr>lw_failUp := False\<rparr>)"
  have e1: "entering L ?w1" using assms(1) by simp
  obtain ds2 where x: "XorCursor L ?w1 = Inr (paint ds2 ?w1)" using cursor_entering [OF e1] by blast
  have "entering L (paint ds2 ?w1)" "lw_prompts (paint ds2 ?w1) = lw_prompts w" "rest (paint ds2 ?w1) = rest w"
    using e1 by simp_all
  from assms(3) [OF this] obtain v' where v': "change (paint ds2 ?w1) = Inr v'" "still L w v'" by blast
  have "\<exists>w'. XorCursor L v' = Inr w' \<and> still L w w'"
    using v'(2) cursor_submitted [of L v' XorGC] cursor_entering [of L v' XorGC] by (auto simp: still_def)
  then show ?thesis using ds x v'(1) assms(1) by (auto simp: entering_def)
qed

lemma echoes_entering: "entering L w \<Longrightarrow> n < 2 \<Longrightarrow> echoes (lw_prompts w ! n)"
proof -
  assume w: "entering L w" and n: "n < 2"
  then have "map lp_state (lw_prompts w) ! n = [LOGIN_PROMPT_ECHO_ON, LOGIN_PROMPT_ECHO_OFF] ! n"
    by (simp add: entering_def)
  then show ?thesis using entering_length [OF w] n by (cases n) (auto simp: echoes_def less_Suc_eq numeral_2_eq_2)
qed

lemma FinishField_ok:
  assumes "entering L w" "message_ok (k_failMsg L)"
  shows "\<exists>w'. FinishField L w = Inr w' \<and> still L w w'"
  unfolding FinishField_def
proof (rule field_change_ok [OF assms])
  fix v assume v: "entering L v" "rest v = rest w"
  show "\<exists>v'. (case next_prompt (lw_activePrompt w) v of Some n \<Rightarrow> Inr (v\<lparr>lw_activePrompt := n\<rparr>)
      | None \<Rightarrow> GreetDone L NOTIFY_OK (v\<lparr>lw_state := DONE\<rparr>)) = Inr v' \<and> still L w v'"
  proof (cases "next_prompt (lw_activePrompt w) v")
    case None
    then show ?thesis using GreetDone_ok [OF v(1)] by (auto simp: still_def)
  next
    case (Some n)
    have "n \<in> set [Suc (lw_activePrompt w)..<Suc LAST_PROMPT]"
      using find_first_SomeD [OF Some [unfolded next_prompt_def]] by simp
    then have "n < 2" by (simp add: LAST_PROMPT_def del: upt_Suc)
    with Some show ?thesis using entering_active [OF v(1)] rest_gr_done [OF v(2)] by (auto simp: still_def)
  qed
qed

lemma TabField_ok:
  assumes "entering L w" "message_ok (k_failMsg L)"
  shows "\<exists>w'. TabField L w = Inr w' \<and> still L w w'"
proof -
  have r: "\<exists>w'. bindE (RemoveFail L w) (\<lambda>w1. if lw_state w1 \<noteq> PROMPTING then Inr w1
      else bindE (XorCursor L w1) (\<lambda>w2. bindE (bindE (tab_search (LAST_PROMPT + 3) (lw_activePrompt w) (Suc (lw_activePrompt w)) w2)
        (\<lambda>r. Inr (case r of Some n \<Rightarrow> w2\<lparr>lw_activePrompt := n\<rparr> | None \<Rightarrow> w2))) (XorCursor L))) = Inr w' \<and>
      still L w w'"
  proof (rule field_change_ok [OF assms])
    fix v assume v: "entering L v" "rest v = rest w"
    have n: "lw_activePrompt w = 0 \<or> lw_activePrompt w = 1" using assms(1) by (auto simp: entering_def)
    have "prompt 0 v = Inr (lw_prompts v ! 0)" "prompt 1 v = Inr (lw_prompts v ! 1)"
      using entering_prompt [OF v(1)] by simp_all
    moreover have "echoes (lw_prompts v ! 0)" "echoes (lw_prompts v ! 1)" using echoes_entering [OF v(1)] by simp_all
    ultimately have "\<exists>i < 2. tab_search (LAST_PROMPT + 3) (lw_activePrompt w) (Suc (lw_activePrompt w)) v = Inr (Some i)"
      using n by (auto simp: LAST_PROMPT_def numeral_eq_Suc Let_def)
    then show "\<exists>v'. bindE (tab_search (LAST_PROMPT + 3) (lw_activePrompt w) (Suc (lw_activePrompt w)) v)
        (\<lambda>r. Inr (case r of Some n \<Rightarrow> v\<lparr>lw_activePrompt := n\<rparr> | None \<Rightarrow> v)) = Inr v' \<and> still L w v'"
      using entering_active [OF v(1)] rest_gr_done [OF v(2)] by (auto simp: still_def)
  qed
  then show ?thesis unfolding TabField_def bindE_assoc bindE.simps .
qed

section \<open>Events\<close>

text \<open>A key is safe when what it stands for fits the string the lookup is given and has no NUL.\<close>

fun safe_event :: "greet_event \<Rightarrow> bool" where
  "safe_event (Key (insert_char key s)) \<longleftrightarrow> NUL \<notin> set s \<and> length s < 128"
| "safe_event e \<longleftrightarrow> True"

text \<open>An outcome the greeter can go on from.\<close>

definition goes_on :: "look \<Rightarrow> login \<Rightarrow> c_error + login \<Rightarrow> bool" where
  "goes_on L w r \<longleftrightarrow> (\<exists>w'. r = Inr w' \<and> still L w w')"

lemma does_goes_on: "does L action f w \<Longrightarrow> goes_on L w (action w)"
  by (auto simp: does_def goes_on_def still_def rest_def)

lemma entering_goes_on: "entering L w \<Longrightarrow> goes_on L w (Inr w)"
  by (simp add: goes_on_def still_def)

lemma InsertChar_ok:
  assumes "entering L w" "message_ok (k_failMsg L)" "NUL \<notin> set s" "length s < 128"
  shows "goes_on L w (InsertChar L key s w)"
proof -
  note d = DeleteBackwardChar_does DeleteForwardChar_does MoveBackwardChar_does MoveForwardChar_does
    MoveToEnd_does MoveToBegining_does
  note d1 = d [OF assms(1,2), THEN does_goes_on]
  have d2: "goes_on L w (insert_default L (lw_activePrompt w) s w)"
    using does_goes_on [OF insert_default_does [OF assms(1-3)]] .
  have d3: "goes_on L w (Inr (if key = XK_other True then w else paint [Bell] w))"
    using assms(1) by (simp add: goes_on_def still_def)
  have d4: "goes_on L w (FinishField L w)" using FinishField_ok [OF assms(1,2)] by (simp add: goes_on_def)
  show ?thesis unfolding InsertChar_def using assms(4) d1 d2 d3 d4 by (simp split: if_split)
qed

lemma action_ok:
  assumes "entering L w" "message_ok (k_failMsg L)" "safe_event (Key a)"
  shows "goes_on L w (loginActions L a w)"
proof -
  obtain ds where r: "RemoveFail L w = Inr (paint ds (w\<lparr>lw_failUp := False\<rparr>))"
    using RemoveFail_ok assms(1,2) by (metis entering_def)
  note d = DeleteBackwardChar_does DeleteForwardChar_does MoveBackwardChar_does MoveForwardChar_does
    MoveToEnd_does MoveToBegining_does EraseToEndOfLine_does EraseLine_does
  note d1 = d [OF assms(1,2), THEN does_goes_on]
  have e: "goes_on L w (end_session L st w)" for st using end_session_ok [OF assms(1,2), of st] by (auto simp: goes_on_def still_def)
  have f: "goes_on L w (FinishField L w)" "goes_on L w (TabField L w)"
    using FinishField_ok [OF assms(1,2)] TabField_ok [OF assms(1,2)] by (simp_all add: goes_on_def)
  show ?thesis
  proof (cases a)
    case (insert_char k s)
    then show ?thesis using InsertChar_ok [OF assms(1,2)] assms(3) by simp
  next
    case (set_session_argument ps)
    then show ?thesis using r assms(1) by (simp add: SetSessionArgument_def entering_def goes_on_def still_def)
  next
    case allow_all_access
    then show ?thesis using r assms(1) by (simp add: AllowAccess_def entering_def goes_on_def still_def)
  qed (simp_all add: d1 e f AbortSession_def RestartSession_def AbortDisplay_def)
qed

lemma draw_prompts_ok:
  assumes "entering L w" "set ns \<subseteq> {0, 1}"
  shows "\<exists>w'. draw_prompts L ns w = Inr w' \<and> entering L w' \<and> rest w' = rest w"
  using assms
proof (induction ns arbitrary: w)
  case Nil
  then show ?case by simp
next
  case (Cons n ns)
  let ?p = "lw_prompts w ! n"
  let ?w1 = "paint [DrawString PromptFont (PROMPT_X L) (PROMPT_Y L w n) (CUR_PROMPT_TEXT ?p)] w"
  have n: "n < 2" "n < length (lw_prompts w)" using Cons(3) entering_length [OF Cons(2)] by auto
  have p: "prompt n w = Inr ?p" "field_ok ?p" using entering_prompt [OF Cons(2) n(1)] by auto
  obtain ds s e where d: "DrawValue L 0 n ?w1 =
      Inr (paint ds (set_prompt n (?p\<lparr>lp_valueShownStart := s, lp_valueShownEnd := e\<rparr>) ?w1))" "s \<le> lp_cursor ?p"
    using DrawValue_ok [of n ?w1 ?p 0 L] p by auto
  define w2 where "w2 = paint ds (set_prompt n (?p\<lparr>lp_valueShownStart := s, lp_valueShownEnd := e\<rparr>) ?w1)"
  have "edits_to n ?p ?p ?w1 w2" using d(2) p(2) unfolding edits_to_def w2_def field_ok_def by blast
  then have "entering L w2" "rest w2 = rest w" using edits_to_entering [of L ?w1 n] Cons(2) n(1) by simp_all
  then obtain w3 where "draw_prompts L ns w2 = Inr w3" "entering L w3" "rest w3 = rest w"
    using Cons.IH [of w2] Cons(3) by auto
  moreover have "lp_state ?p \<noteq> LOGIN_PROMPT_NOT_SHOWN"
    using echoes_entering [OF Cons(2) n(1)] by (auto simp: echoes_def)
  ultimately show ?case using p(1) d(1) by (simp add: w2_def)
qed

lemma draw_it_ok:
  assumes "entering L w" "message_ok (k_failMsg L)"
  shows "\<exists>w'. draw_it L w = Inr w' \<and> entering L w' \<and> rest w' = rest w"
proof -
  obtain ds where c: "EraseCursor L w = Inr (paint ds w)" using cursor_entering [OF assms(1)] by blast
  have e1: "entering L (paint ds w)" using assms(1) by simp
  obtain ds2 where f: "draw_frames L (paint ds w) = Inr (paint ds2 (paint ds w))"
    using entering_prompt [OF e1, of 0] entering_prompt [OF e1, of 1] by (auto simp: draw_frames_def simp del: paint_simps)
  have e2: "entering L (paint ds2 (paint ds w))" using assms(1) by simp
  from draw_prompts_ok [OF this, of "[0, 1]"]
  obtain w3 where w3: "draw_prompts L [0, 1] (paint ds2 (paint ds w)) = Inr w3" "entering L w3" "rest w3 = rest w" by auto
  then obtain ds4 where r: "RedrawFail L w3 = Inr (paint ds4 w3)"
    using RedrawFail_ok [of w3 L] assms(2) by (auto simp: entering_def)
  have e4: "entering L (paint ds4 w3)" using w3(2) by simp
  obtain ds5 where "XorCursor L (paint ds4 w3) = Inr (paint ds5 (paint ds4 w3))" using cursor_entering [OF e4] by blast
  then show ?thesis unfolding draw_it_def c f bindE.simps w3(1) r using w3(2,3) by simp
qed

lemma greet_event_ok:
  assumes "entering L w" "message_ok (k_failMsg L)" "safe_event e"
  shows "goes_on L w (greet_event_step L e w)"
proof (cases e)
  case (Key a)
  then show ?thesis using action_ok assms by (simp add: greet_event_step_def)
next
  case Expose
  then show ?thesis using draw_it_ok [OF assms(1,2)] by (auto simp: greet_event_step_def goes_on_def still_def rest_def)
next
  case MessageTimer
  let ?w = "w\<lparr>lw_interval_id := False, lw_failUp := False\<rparr>"
  have "entering L ?w" using assms(1) by (simp add: entering_def)
  moreover obtain ds where "RedrawFail L ?w = Inr (paint ds ?w)"
    using RedrawFail_ok [of ?w L] assms(1,2) by (auto simp: entering_def)
  ultimately show ?thesis using MessageTimer assms(1)
    by (auto simp: greet_event_step_def failTimeout_def EraseFail_def goes_on_def still_def)
next
  case (PingTimer b)
  then show ?thesis using assms(1) by (simp add: greet_event_step_def goes_on_def still_def)
qed

section \<open>The loop\<close>

lemma reset_prompt_ok:
  assumes "prompt n w = Inr p" "NUL \<in> set (lp_valueText p)"
  shows "\<exists>ds. reset_prompt L n w = Inr (paint ds (set_prompt n
    (p\<lparr>lp_valueText := replicate (length (lp_valueText p)) NUL, lp_valueShownStart := 0, lp_cursor := 0\<rparr>) w))"
proof -
  obtain ds where "EraseValue L 0 n w = Inr (paint ds w)" using EraseValue_ok [OF assms, of 0 L] by auto
  then show ?thesis using assms(1) by (auto simp: reset_prompt_def)
qed

lemma cstr_replicate [simp]: "cstr (replicate n NUL) = []"
  by (cases n) (simp_all add: cstr_def)

lemma blank_field:
  "2 \<le> n \<Longrightarrow> field_ok (p\<lparr>lp_valueText := replicate n NUL, lp_valueShownStart := 0, lp_cursor := 0\<rparr>)"
  by (simp add: field_ok_def text_ok_def)

lemma DrawFail_ok:
  assumes "entering L w \<or> submitted L w" "message_ok (k_failMsg L)"
  shows "\<exists>w'. DrawFail L w = Inr w' \<and> entering L w'"
proof -
  have st: "map lp_state (lw_prompts w) = [LOGIN_PROMPT_ECHO_ON, LOGIN_PROMPT_ECHO_OFF]"
    "\<forall>p \<in> set (lw_prompts w). 2 \<le> length (lp_valueText p) \<and> NUL \<in> set (lp_valueText p)" "lw_fail w = k_failMsg L"
    using assms(1) by (auto simp: submitted_def entering_def field_ok_def text_ok_def)
  then obtain p q where w: "lw_prompts w = [p, q]" by (auto simp: map_eq_Cons_conv)
  obtain ds0 where c0: "XorCursor L w = Inr (paint ds0 w)"
    using assms(1) cursor_entering [of L w XorGC] cursor_submitted [of L w XorGC] by (metis paint_simps(8))
  define p' where "p' = p\<lparr>lp_valueText := replicate (length (lp_valueText p)) NUL, lp_valueShownStart := 0, lp_cursor := 0\<rparr>"
  define q' where "q' = q\<lparr>lp_valueText := replicate (length (lp_valueText q)) NUL, lp_valueShownStart := 0, lp_cursor := 0\<rparr>"
  have f: "field_ok p'" "field_ok q'" "lp_state p' = LOGIN_PROMPT_ECHO_ON" "lp_state q' = LOGIN_PROMPT_ECHO_OFF"
    using blank_field st w by (simp_all add: p'_def q'_def)
  obtain ds where r0: "reset_prompt L 0 (paint ds0 w) = Inr (paint ds (set_prompt 0 p' (paint ds0 w)))"
    using reset_prompt_ok [of 0 "paint ds0 w" p L] st(2) w by (auto simp: prompt_def p'_def)
  define w1 where "w1 = paint ds (set_prompt 0 p' (paint ds0 w))"
  have w1: "lw_prompts w1 = [p', q]" "lw_fail w1 = k_failMsg L" using w st(3) by (simp_all add: w1_def)
  obtain ds2 where r1: "reset_prompt L 1 w1 = Inr (paint ds2 (set_prompt 1 q' w1))"
    using reset_prompt_ok [of 1 w1 q L] st(2) w w1 by (auto simp: prompt_def q'_def)
  define w2 where "w2 = (paint ds2 (set_prompt 1 q' w1))\<lparr>lw_state := PROMPTING, lw_activePrompt := 0\<rparr>"
  have e2: "entering L w2" using f w1 by (simp add: w2_def entering_def)
  then obtain ds3 where c: "XorCursor L w2 = Inr (paint ds3 w2)" using cursor_entering by blast
  define w3 where "w3 = (paint ds3 w2)\<lparr>lw_interval_id := False\<rparr>"
  obtain ds4 where m: "RemoveFail L w3 = Inr (paint ds4 (w3\<lparr>lw_failUp := False\<rparr>))"
    using RemoveFail_ok [OF assms(2), of w3] e2 by (auto simp: entering_def w3_def)
  define w5 where "w5 = (paint ds4 (w3\<lparr>lw_failUp := False\<rparr>))\<lparr>lw_fail := k_failMsg L, lw_failUp := True\<rparr>"
  obtain ds5 where d: "RedrawFail L w5 = Inr (paint ds5 w5)"
    using RedrawFail_ok [of w5 L] assms(2) by (auto simp: w5_def)
  have e5: "entering L w5" using e2 by (simp add: w5_def w3_def entering_def)
  have "ResetLogin L (paint ds0 w) = Inr w2"
    by (simp only: ResetLogin_def r0 bindE.simps w1_def [symmetric] r1 mapE_simps w2_def)
  moreover have "ErrorMessage L (k_failMsg L) True (paint ds3 w2) =
      Inr (if 0 < k_failTimeout L then (paint ds5 w5)\<lparr>lw_interval_id := True\<rparr> else paint ds5 w5)"
    by (simp add: ErrorMessage_def w3_def [symmetric] m w5_def [symmetric] d)
  ultimately have "DrawFail L w = Inr (if 0 < k_failTimeout L then (paint ds5 w5)\<lparr>lw_interval_id := True\<rparr> else paint ds5 w5)"
    by (simp add: DrawFail_def c0 c)
  then show ?thesis using e5 by (auto simp: entering_def)
qed

lemma greet_loop_ok:
  assumes "message_ok (k_failMsg L)" "\<forall>e \<in> set es. safe_event e" "entering L w \<or> submitted L w"
  shows "\<exists>r es' w'. greet_loop L es w = Inr (r, es', w') \<and> set es' \<subseteq> set es \<and> (entering L w' \<or> submitted L w') \<and>
    (\<not> gr_done w \<longrightarrow> (\<exists>c. r = Finished c) \<longrightarrow> submitted L w') \<and> (\<forall>c. r = Finished c \<longrightarrow> c = gr_code w')"
  using assms(2,3)
proof (induction es arbitrary: w)
  case Nil
  then show ?case by simp
next
  case (Cons e es)
  show ?case
  proof (cases "gr_done w \<or> e = PingTimer False")
    case True
    then show ?thesis using Cons(3) by auto
  next
    case False
    then have w: "entering L w" using Cons(3) by (auto simp: submitted_def)
    from Cons(2) greet_event_ok [OF this assms(1), of e]
    obtain w1 where w1: "greet_event_step L e w = Inr w1" "still L w w1" by (auto simp: goes_on_def)
    then have s1: "entering L w1 \<or> submitted L w1" "gr_done w1 \<longrightarrow> submitted L w1"
      using False by (auto simp: still_def)
    obtain r es' w' where r: "greet_loop L es w1 = Inr (r, es', w')" "set es' \<subseteq> set es" "entering L w' \<or> submitted L w'"
      "\<not> gr_done w1 \<longrightarrow> (\<exists>c. r = Finished c) \<longrightarrow> submitted L w'" "\<forall>c. r = Finished c \<longrightarrow> c = gr_code w'"
      using Cons.IH [of w1] Cons(2) s1(1) by auto
    have "gr_done w1 \<longrightarrow> w' = w1" using r(1) by (cases es) auto
    then show ?thesis using False w1(1) r s1(2) by auto
  qed
qed

lemma GreetUser_ok:
  assumes "message_ok (k_failMsg L)" "\<forall>e \<in> set es. safe_event e" "entering L w"
  shows "\<exists>r w'. GreetUser L V es w = Inr (r, w') \<and> (entering L w' \<or> submitted L w') \<and>
    (\<forall>name pass. r = Verified name pass \<longrightarrow> V name pass) \<and>
    (r \<notin> {StillWaiting, ServerGone} \<longrightarrow> submitted L w') \<and> (\<forall>c. r = SessionEnds c \<longrightarrow> c \<in> {1, 2, 3})"
  using assms(2,3)
proof (induction "length es" arbitrary: es w rule: less_induct)
  case less
  define v where "v = w\<lparr>lw_allow_access := False, gr_done := False\<rparr>"
  have v: "entering L v \<or> submitted L v" "\<not> gr_done v" using less(3) by (simp_all add: v_def entering_def)
  obtain r es' w1 where g: "Greet L es w = Inr (r, es', w1)" "set es' \<subseteq> set es" "entering L w1 \<or> submitted L w1"
      "(\<exists>c. r = Finished c) \<longrightarrow> submitted L w1" "\<forall>c. r = Finished c \<longrightarrow> c = gr_code w1"
    using greet_loop_ok [OF assms(1) less(2) v(1)] v(2) unfolding Greet_def v_def [symmetric] by blast
  show ?case
  proof (cases "r = Finished 0 \<and> \<not> V (greet_name w1) (gr_password w1)")
    case True
    obtain w2 where w2: "DrawFail L w1 = Inr w2" "entering L w2" using DrawFail_ok [OF g(3) assms(1)] by blast
    let ?w = "w2\<lparr>gr_name := takeWhile (\<lambda>c. c = CHR '' '') (gr_name w2), gr_password := ''''\<rparr>"
    have "length es' < length es" "\<forall>e \<in> set es'. safe_event e" "entering L ?w"
      using Greet_shorter g True less(2) w2(2) by (auto simp: entering_def)
    from less(1) [OF this] show ?thesis
      using g(1) True w2(1) by (subst GreetUser.simps) simp
  next
    case False
    have "\<forall>c. r = Finished c \<and> c \<noteq> 0 \<longrightarrow> c \<in> {1, 2, 3}" using g(4,5) by (auto simp: submitted_def)
    with False show ?thesis using g(1-4) by (subst GreetUser.simps) (auto split: greet_result.split)
  qed
qed

section \<open>The first state\<close>

text \<open>The record as the toolkit hands it to \<open>Initialize\<close>: zeroed, with two prompts whose buffers
  are longer than the terminator, and prompts long enough to look at their last two characters.\<close>

definition fresh_record :: "look \<Rightarrow> login \<Rightarrow> bool" where
  "fresh_record L raw \<longleftrightarrow> length (lw_prompts raw) = 2 \<and>
     (\<forall>p \<in> set (lw_prompts raw). 2 \<le> length (lp_valueText p) \<and> lp_cursor p = 0) \<and>
     2 \<le> length (k_namePrompt L) \<and> 2 \<le> length (k_passwdPrompt L) \<and> message_ok (k_failMsg L)"

lemma padded_prompt_ok: "2 \<le> length m \<Longrightarrow> \<exists>t. padded_prompt m = Inr t"
  by (simp add: padded_prompt_def Let_def)

lemma SetPrompt_initial:
  assumes "n < length (lw_prompts w)" "lw_state w = INITIALIZING" "2 \<le> length (lp_defaultPrompt (lw_prompts w ! n))"
    "st \<noteq> LOGIN_PROMPT_NOT_SHOWN"
  shows "\<exists>t. SetPrompt L now now' n None st b w =
    Inr (set_prompt n ((lw_prompts w ! n)\<lparr>lp_state := st, lp_promptText := Some t\<rparr>) w)"
proof -
  obtain t where "padded_prompt (lp_defaultPrompt (lw_prompts w ! n)) = Inr t" using padded_prompt_ok [OF assms(3)] by blast
  then show ?thesis using assms(1,2,4) by (auto simp: SetPrompt_def prompt_def Let_def)
qed

lemma Initialize_ok:
  assumes "fresh_record L raw"
  shows "\<exists>w. Initialize L raw = Inr w \<and> entering L w"
proof -
  obtain p q where raw: "lw_prompts raw = [p, q]" using two_prompts [of "lw_prompts raw"] assms by (auto simp: fresh_record_def)
  define u where "u = p\<lparr>lp_promptText := None, lp_defaultPrompt := k_namePrompt L,
     lp_valueText := (lp_valueText p)[0 := NUL], lp_valueShownStart := 0\<rparr>"
  define v where "v = q\<lparr>lp_promptText := None, lp_defaultPrompt := k_passwdPrompt L,
     lp_valueText := (lp_valueText q)[0 := NUL], lp_valueShownStart := 0\<rparr>"
  define w where "w = set_prompt 1 v (set_prompt 0 u
     (raw\<lparr>lw_state := INITIALIZING, lw_activePrompt := 0, lw_failUp := False, lw_fail := k_failMsg L\<rparr>))"
  have w: "lw_prompts w = [u, v]" "lw_state w = INITIALIZING" by (simp_all add: w_def raw)
  have l: "2 \<le> length (lp_defaultPrompt u)" "2 \<le> length (lp_defaultPrompt v)"
    using assms by (simp_all add: u_def v_def fresh_record_def)
  have b: "cstr (b[0 := NUL]) = [] \<and> NUL \<in> set (b[0 := NUL])" if "2 \<le> length b" for b
    using that by (cases b) (simp_all add: cstr_def)
  then have f: "field_ok u" "field_ok v"
    using assms raw by (auto simp: u_def v_def fresh_record_def field_ok_def text_ok_def)
  obtain t1 where s1: "SetPrompt L 0 0 1 None LOGIN_PROMPT_ECHO_OFF False w =
      Inr (set_prompt 1 (v\<lparr>lp_state := LOGIN_PROMPT_ECHO_OFF, lp_promptText := Some t1\<rparr>) w)"
    using SetPrompt_initial [of 1 w LOGIN_PROMPT_ECHO_OFF L 0 0 False] w l by auto
  define w1 where "w1 = set_prompt 1 (v\<lparr>lp_state := LOGIN_PROMPT_ECHO_OFF, lp_promptText := Some t1\<rparr>) w"
  obtain t0 where s0: "SetPrompt L 0 0 0 None LOGIN_PROMPT_ECHO_ON False w1 =
      Inr (set_prompt 0 (u\<lparr>lp_state := LOGIN_PROMPT_ECHO_ON, lp_promptText := Some t0\<rparr>) w1)"
    using SetPrompt_initial [of 0 w1 LOGIN_PROMPT_ECHO_ON L 0 0 False] w l by (auto simp: w1_def)
  define w2 where "w2 = (set_prompt 0 (u\<lparr>lp_state := LOGIN_PROMPT_ECHO_ON, lp_promptText := Some t0\<rparr>) w1)\<lparr>lw_state := PROMPTING\<rparr>"
  have "Initialize L raw = Inr w2"
    using raw s1 s0 by (simp add: Initialize_def prompt_def u_def [symmetric] v_def [symmetric] w_def [symmetric]
        w1_def [symmetric] w2_def [symmetric] del: One_nat_def)
  moreover have "entering L w2"
    using f w by (simp add: w2_def w1_def entering_def field_ok_def text_ok_def) (simp add: w_def set_prompt_def)
  ultimately show ?thesis by blast
qed

section \<open>An abstract line editor\<close>

text \<open>What the keys do to the text before and behind the cursor, in a field that holds \<open>cap\<close>
  characters; None for the actions that leave the field.\<close>

fun command :: "login_action \<Rightarrow> (string \<times> string \<Rightarrow> string \<times> string) option" where
  "command delete_previous_character = Some (\<lambda>(l, r). (butlast l, r))"
| "command delete_character = Some (\<lambda>(l, r). (l, tl r))"
| "command move_backward_character = Some (\<lambda>(l, r). if l = [] then (l, r) else (butlast l, last l # r))"
| "command move_forward_character = Some (\<lambda>(l, r). if r = [] then (l, r) else (l @ [hd r], tl r))"
| "command move_to_begining = Some (\<lambda>(l, r). ([], l @ r))"
| "command move_to_end = Some (\<lambda>(l, r). (l @ r, []))"
| "command erase_to_end_of_line = Some (\<lambda>(l, r). (l, []))"
| "command erase_line = Some (\<lambda>(l, r). ([], []))"
| "command a = None"

text \<open>The keys that stand for a command; the others stand for their text.\<close>

fun key_command :: "keysym \<Rightarrow> login_action option" where
  "key_command XK_BackSpace = Some delete_previous_character"
| "key_command XK_Delete = Some delete_character"
| "key_command XK_KP_Delete = Some delete_character"
| "key_command DXK_Remove = Some delete_character"
| "key_command XK_Left = Some move_backward_character"
| "key_command XK_KP_Left = Some move_backward_character"
| "key_command XK_Right = Some move_forward_character"
| "key_command XK_KP_Right = Some move_forward_character"
| "key_command XK_End = Some move_to_end"
| "key_command XK_KP_End = Some move_to_end"
| "key_command XK_Home = Some move_to_begining"
| "key_command XK_KP_Home = Some move_to_begining"
| "key_command (XK_other modifier) = None"
| "key_command key = Some finish_field"

definition typed :: "nat \<Rightarrow> string \<Rightarrow> string \<times> string \<Rightarrow> string \<times> string" where
  "typed cap s = (\<lambda>(l, r). (l @ take (cap - (length l + length r)) s, r))"

fun editor :: "nat \<Rightarrow> login_action \<Rightarrow> (string \<times> string \<Rightarrow> string \<times> string) option" where
  "editor cap (insert_char key s) = (case key_command key of Some a \<Rightarrow> command a | None \<Rightarrow> Some (typed cap s))"
| "editor cap a = command a"

text \<open>A sequence of keys, and the same sequence in the abstract editor.\<close>

primrec press :: "look \<Rightarrow> login_action list \<Rightarrow> login \<Rightarrow> c_error + login" where
  "press L [] w = Inr w"
| "press L (a # as) w = bindE (loginActions L a w) (press L as)"

primrec edit :: "nat \<Rightarrow> login_action list \<Rightarrow> string \<times> string \<Rightarrow> string \<times> string" where
  "edit cap [] t = t"
| "edit cap (a # as) t = edit cap as (the (editor cap a) t)"

definition editing_key :: "login_action \<Rightarrow> bool" where
  "editing_key a \<longleftrightarrow> editor 0 a \<noteq> None \<and> safe_event (Key a)"

lemma editor_cap: "editor cap a = None \<longleftrightarrow> editor 0 a = None"
  by (cases a) (simp_all split: option.split)

lemma does_id:
  "entering L w \<Longrightarrow> action w = Inr w' \<Longrightarrow> entering L w' \<Longrightarrow> rest w' = rest w \<Longrightarrow> fields w' = fields w \<Longrightarrow>
    does L action (\<lambda>t. t) w"
  using entering_length by (auto simp: does_def)

lemma typed_nothing [simp]: "typed cap '''' = (\<lambda>t. t)"
  by (auto simp: typed_def)

lemma action_does:
  assumes "entering L w" "message_ok (k_failMsg L)" "safe_event (Key a)" "editor (capacity w (lw_activePrompt w)) a = Some f"
  shows "does L (loginActions L a) f w"
proof -
  note d = DeleteBackwardChar_does DeleteForwardChar_does MoveBackwardChar_does MoveForwardChar_does
    MoveToEnd_does MoveToBegining_does
  note d1 = d [OF assms(1,2)] and d2 = EraseToEndOfLine_does [OF assms(1,2)] EraseLine_does [OF assms(1,2)]
  have c: "does L (loginActions L b) f w" if "command b = Some f" for b
    using that d1 d2 by (cases b) (auto simp: does_def)
  show ?thesis
  proof (cases "\<exists>key s. a = insert_char key s")
    case True
    then obtain key s where a: "a = insert_char key s" by blast
    then have s: "NUL \<notin> set s" "length s < 128" using assms(3) by simp_all
    have i: "does L (insert_default L (lw_activePrompt w) s) (typed (capacity w (lw_activePrompt w)) s) w"
      using insert_default_does [OF assms(1,2) s(1)] by (simp add: typed_def)
    have n: "does L (\<lambda>w. Inr (if key = XK_other True then w else paint [Bell] w)) (\<lambda>t. t) w"
      using assms(1) by (simp add: does_def)
    show ?thesis using assms(4) s d1 i n by (cases key) (auto simp: a does_def InsertChar_def)
  next
    case False
    then have "editor cap a = command a" for cap by (cases a) auto
    with c assms(4) show ?thesis by simp
  qed
qed

lemma capacity_rest: "rest w' = rest w \<Longrightarrow> n < length (lw_prompts w) \<Longrightarrow> capacity w' n = capacity w n"
  unfolding rest_def capacity_def by (metis (no_types, lifting) Pair_inject length_map nth_map)

lemma press_does:
  assumes "entering L w" "message_ok (k_failMsg L)" "\<forall>a \<in> set as. editing_key a"
  shows "does L (press L as) (edit (capacity w (lw_activePrompt w)) as) w"
  using assms(1,3)
proof (induction as arbitrary: w)
  case Nil
  then show ?case using does_id [of L w "press L []" w] by (simp add: does_def)
next
  case (Cons a as)
  let ?n = "lw_activePrompt w" let ?cap = "capacity w ?n"
  have n: "length (lw_prompts w) = 2" "?n < 2" using entering_length [OF Cons(2)] Cons(2) by (auto simp: entering_def)
  obtain f where f: "editor ?cap a = Some f" using Cons(3) editor_cap [of ?cap a] by (auto simp: editing_key_def)
  have d: "does L (loginActions L a) f w"
    using action_does [OF Cons(2) assms(2) _ f] Cons(3) by (simp add: editing_key_def)
  then obtain w1 where w1: "loginActions L a w = Inr w1" "entering L w1" "rest w1 = rest w"
    "fields w1 = (fields w)[?n := f (fields w ! ?n)]" by (auto simp: does_def)
  have a: "lw_activePrompt w1 = ?n" "capacity w1 ?n = ?cap"
    using w1(3) n capacity_rest [OF w1(3), of ?n] by (simp_all add: rest_def)
  have "does L (press L as) (edit ?cap as) w1" using Cons.IH [OF w1(2)] Cons(3) a by simp
  then obtain w2 where w2: "press L as w1 = Inr w2" "entering L w2" "rest w2 = rest w1"
    "fields w2 = (fields w1)[?n := edit ?cap as (fields w1 ! ?n)]" using a(1) by (auto simp: does_def)
  have "?n < length (fields w)" using n by (simp add: fields_def)
  then have "fields w2 = (fields w)[?n := edit ?cap (a # as) (fields w ! ?n)]" using w2(4) w1(4) f by simp
  moreover have "press L (a # as) w = Inr w2" using w1(1) w2(1) by simp
  moreover have "rest w2 = rest w" using w2(3) w1(3) by (rule trans)
  ultimately show ?case using w2(2) unfolding does_def by (intro exI [of _ w2] conjI)
qed

section \<open>A key that stands for NUL\<close>

text \<open>The widget after such a key: the text has length 0 for \<open>strlen\<close>, whatever is behind it, and
  the cursor is behind the characters \<open>pre\<close>, of which the first is the NUL.\<close>

definition runaway :: "look \<Rightarrow> string \<Rightarrow> nat \<Rightarrow> login \<Rightarrow> bool" where
  "runaway L pre k w \<longleftrightarrow> lw_state w = PROMPTING \<and> lw_activePrompt w = 0 \<and> lw_fail w = k_failMsg L \<and> \<not> gr_done w \<and>
     lw_prompts w \<noteq> [] \<and> lp_state (hd (lw_prompts w)) = LOGIN_PROMPT_ECHO_ON \<and>
     lp_valueText (hd (lw_prompts w)) = pre @ replicate k NUL \<and> lp_cursor (hd (lw_prompts w)) = length pre \<and>
     lp_valueShownStart (hd (lw_prompts w)) = 0"

lemma strlen_from_NUL [simp]: "strlen_from (NUL # b) 0 = Inr 0"
  by (simp add: strlen_from_def cstr_def)

lemma strlen_from_behind: "strlen_from (pre @ NUL # b) (length pre) = Inr 0"
  by (simp add: strlen_from_def cstr_def)

lemma runaway_paint [simp]: "runaway L pre k (paint ds w) = runaway L pre k w"
  by (simp add: runaway_def)

lemma runaway_failUp [simp]: "runaway L pre k (w\<lparr>lw_failUp := b\<rparr>) = runaway L pre k w"
  by (simp add: runaway_def)

lemma runaway_prompt: "runaway L pre k w \<Longrightarrow> prompt 0 w = Inr (hd (lw_prompts w))"
  by (simp add: runaway_def prompt_def hd_conv_nth)

lemma runaway_cursor: "runaway L pre k w \<Longrightarrow> \<exists>ds. realizeCursor L g w = Inr (paint ds w)"
  using runaway_prompt [of L pre k w]
  by (auto simp: runaway_def realizeCursor_def cursor_offset_def bytes_at_def Let_def)

lemma runaway_erase:
  assumes "runaway L pre k w"
  shows "\<exists>ds. EraseValue L (length pre) 0 w = Inr (paint ds w)"
proof -
  have "masked L (hd (lw_prompts w)) = False" using assms by (simp add: masked_def runaway_def)
  then show ?thesis using runaway_prompt [OF assms] assms
    by (auto simp: EraseValue_def realizeValue_def shown_buffer_def runaway_def bytes_at_def Let_def)
      (metis paint_simps(8))+
qed

text \<open>What the insertion does to the buffer: there is room for one more character and a terminator,
  or not.\<close>

lemma inserted_runaway:
  assumes "lp_valueText p = pre @ replicate (Suc (Suc k)) NUL" "lp_cursor p = length pre"
  shows "inserted [c] p = Inr (p\<lparr>lp_valueText := (pre @ [c]) @ replicate (Suc k) NUL\<rparr>)"
  using assms by (simp add: inserted_def strlen_from_behind write_at_def)

lemma inserted_overflow:
  assumes "lp_valueText p = pre @ [NUL]" "lp_cursor p = length pre"
  shows "inserted [c] p = Inl OutOfBounds"
  using assms by (simp add: inserted_def strlen_from_behind write_at_def)

lemma runaway_draw:
  assumes "prompt 0 w = Inr p" "lp_state p = LOGIN_PROMPT_ECHO_ON" "lp_valueText p = NUL # b"
    "lp_valueShownStart p = 0" "at < Suc (length b)" "NUL \<in> set (drop at (NUL # b))"
  shows "\<exists>ds e. DrawValue L at 0 w = Inr (paint ds (set_prompt 0 (p\<lparr>lp_valueShownStart := 0, lp_valueShownEnd := e\<rparr>) w))"
proof -
  have m: "masked L p = False" using assms(2) by (simp add: masked_def)
  obtain n where n: "strlen_from (NUL # b) (max at 0) = Inr n" using strlen_from_exists [OF assms(6)] by auto
  define curoff where "curoff = (if 0 < at then k_width_of L TextFont (take at (NUL # b)) else 0)"
  have c: "(if lp_valueShownStart p < at then mapE (k_width_of L TextFont) (bytes_at (NUL # b) 0 at) else Inr 0) = Inr curoff"
    using assms(4,5) by (simp add: curoff_def bytes_at_def)
  have idle: "w = paint [] (set_prompt 0 (p\<lparr>lp_valueShownStart := 0, lp_valueShownEnd := lp_valueShownEnd p\<rparr>) w)"
    using set_prompt_idle [OF assms(1)] assms(4) by (cases p) simp
  show ?thesis
  proof (cases "i32 (MAX_VALUE_W L p) - curoff < k_width_of L TextFont (take n (drop (max at 0) (NUL # b)))")
    case True
    then show ?thesis using assms(1-4) m n c by (simp add: DrawValue_def realizeValue_def shown_buffer_def Let_def) blast
  next
    case False
    then have "\<exists>ds. DrawValue L at 0 w = Inr (paint ds w)"
      using assms(1-4) m n c by (simp add: DrawValue_def realizeValue_def shown_buffer_def Let_def) blast
    with idle show ?thesis by (metis paint_simps(7))
  qed
qed

lemma runaway_room:
  "lp_valueText p = NUL # b \<Longrightarrow> 2 \<le> length b \<Longrightarrow> mapE (\<lambda>len. room p len 1) (strlen_from (lp_valueText p) 0) = Inr 1"
  by (simp add: room_def Let_def)

lemma runaway_frame:
  assumes "runaway L pre k w" "message_ok (k_failMsg L)" "\<exists>b. lp_valueText (hd (lw_prompts w)) = NUL # b \<and> 2 \<le> length b"
  shows "\<exists>v. runaway L pre k v \<and> lw_prompts v = lw_prompts w \<and>
    insert_default L 0 [c] w = bindE (insert_text L 0 [c] v) (XorCursor L)"
proof -
  obtain ds where ds: "EraseCursor L w = Inr (paint ds w)" using runaway_cursor [OF assms(1)] by blast
  obtain ds2 where ds2: "RemoveFail L (paint ds w) = Inr (paint ds2 ((paint ds w)\<lparr>lw_failUp := False\<rparr>))"
    using RemoveFail_ok [OF assms(2), of "paint ds w"] assms(1) by (auto simp: runaway_def)
  let ?v = "paint ds2 ((paint ds w)\<lparr>lw_failUp := False\<rparr>)"
  have v: "runaway L pre k ?v" "lw_state w = PROMPTING" using assms(1) by (simp_all add: runaway_def)
  have "mapE (\<lambda>len. room (hd (lw_prompts w)) len (length [c])) (strlen_from (lp_valueText (hd (lw_prompts w))) 0) = Inr 1"
    using runaway_room assms(3) by auto
  then have "insert_default L 0 [c] w = bindE (insert_text L 0 [c] ?v) (XorCursor L)"
    using runaway_prompt [OF assms(1)] ds ds2 v by (simp add: insert_default_def)
  then show ?thesis using v by (intro exI [of _ ?v]) simp
qed

lemma runaway_step:
  assumes "runaway L pre (Suc (Suc k)) w" "message_ok (k_failMsg L)" "hd (pre @ [c]) = NUL" "2 \<le> length pre + Suc k"
  shows "\<exists>w'. insert_default L 0 [c] w = Inr w' \<and> runaway L (pre @ [c]) (Suc k) w'"
proof -
  have h: "pre = [] \<or> hd pre = NUL" using assms(3) by (cases pre) auto
  have b: "\<exists>b. lp_valueText (hd (lw_prompts w)) = NUL # b \<and> 2 \<le> length b"
    using assms(1,4) h by (cases pre) (auto simp: runaway_def)
  obtain v where v: "runaway L pre (Suc (Suc k)) v" "lw_prompts v = lw_prompts w"
    "insert_default L 0 [c] w = bindE (insert_text L 0 [c] v) (XorCursor L)"
    using runaway_frame [OF assms(1,2) b] by blast
  define p where "p = hd (lw_prompts v)"
  have p: "prompt 0 v = Inr p" "lp_valueText p = pre @ replicate (Suc (Suc k)) NUL" "lp_cursor p = length pre"
    "lp_state p = LOGIN_PROMPT_ECHO_ON" "lp_valueShownStart p = 0"
    using runaway_prompt [OF v(1)] v(1) unfolding p_def by (simp_all add: runaway_def)
  obtain ds where ds: "EraseValue L (lp_cursor p) 0 v = Inr (paint ds v)" using runaway_erase [OF v(1)] p(3) by auto
  define p2 where "p2 = p\<lparr>lp_valueText := (pre @ [c]) @ replicate (Suc k) NUL\<rparr>"
  have i: "inserted [c] p = Inr p2" unfolding p2_def by (rule inserted_runaway [OF p(2,3)])
  have n: "0 < length (lw_prompts v)" using v(1) by (simp add: runaway_def)
  obtain b2 where b2: "lp_valueText p2 = NUL # b2" using assms(3) by (cases pre) (auto simp: p2_def)
  have l: "length pre < Suc (length b2)" "NUL \<in> set (drop (length pre) (NUL # b2))"
    unfolding b2 [symmetric] using arg_cong [OF b2, of length] by (simp_all add: p2_def)
  have f: "lp_cursor p2 = length pre" "lp_state p2 = LOGIN_PROMPT_ECHO_ON" "lp_valueShownStart p2 = 0"
    using p by (simp_all add: p2_def)
  obtain ds2 e where d: "DrawValue L (length pre) 0 (paint ds (set_prompt 0 p2 v)) =
      Inr (paint ds2 (set_prompt 0 (p2\<lparr>lp_valueShownStart := 0, lp_valueShownEnd := e\<rparr>) (paint ds (set_prompt 0 p2 v))))"
    using runaway_draw [of "paint ds (set_prompt 0 p2 v)" p2 b2 "length pre" L] n f b2 l by auto
  define q where "q = p2\<lparr>lp_valueShownStart := 0, lp_valueShownEnd := e, lp_cursor := Suc (length pre)\<rparr>"
  define v' where "v' = paint ds2 (paint ds (set_prompt 0 q v))"
  have t: "insert_text L 0 [c] v = Inr v'"
    using n p(1) ds i d f(1) by (simp add: insert_text_def v'_def q_def)
  have r: "runaway L (pre @ [c]) (Suc k) v'"
    using v(1) n f by (cases "lw_prompts v") (simp_all add: runaway_def v'_def q_def p2_def)
  obtain ds3 where "XorCursor L v' = Inr (paint ds3 v')" using runaway_cursor [OF r] by blast
  then show ?thesis using v(3) t r by simp
qed

lemma runaway_end:
  assumes "runaway L pre 1 w" "message_ok (k_failMsg L)" "hd pre = NUL" "2 \<le> length pre"
  shows "insert_default L 0 [c] w = Inl OutOfBounds"
proof -
  have b: "\<exists>b. lp_valueText (hd (lw_prompts w)) = NUL # b \<and> 2 \<le> length b"
    using assms(1,3,4) by (cases pre) (auto simp: runaway_def)
  obtain v where v: "runaway L pre 1 v" "insert_default L 0 [c] w = bindE (insert_text L 0 [c] v) (XorCursor L)"
    using runaway_frame [OF assms(1,2) b] by blast
  obtain ds where "EraseValue L (length pre) 0 v = Inr (paint ds v)" using runaway_erase [OF v(1)] by blast
  moreover have "inserted [c] (hd (lw_prompts v)) = Inl OutOfBounds"
    by (rule inserted_overflow) (use v(1) in \<open>simp_all add: runaway_def\<close>)
  ultimately show ?thesis using v runaway_prompt [OF v(1)] by (simp add: insert_text_def runaway_def)
qed

abbreviation typing :: "string \<Rightarrow> greet_event list" where
  "typing \<equiv> map (\<lambda>c. Key (insert_char (XK_other False) [c]))"

lemma runaway_loop:
  assumes "runaway L pre (Suc k) w" "message_ok (k_failMsg L)" "hd pre = NUL" "pre \<noteq> []" "3 \<le> length pre + Suc k"
    "length t = Suc k"
  shows "greet_loop L (typing t) w = Inl OutOfBounds"
  using assms
proof (induction t arbitrary: pre k w)
  case Nil
  then show ?case by simp
next
  case (Cons c t)
  have w: "\<not> gr_done w" "lw_activePrompt w = 0" using Cons(2) by (simp_all add: runaway_def)
  show ?case
  proof (cases k)
    case 0
    then have "insert_default L 0 [c] w = Inl OutOfBounds" using runaway_end [of L pre w c] Cons by simp
    then show ?thesis using w by (simp add: greet_event_step_def InsertChar_def)
  next
    case (Suc j)
    then obtain w' where w': "insert_default L 0 [c] w = Inr w'" "runaway L (pre @ [c]) (Suc j) w'"
      using runaway_step [of L pre j w c] Cons by auto
    have "greet_loop L (typing t) w' = Inl OutOfBounds" using Cons.IH [OF w'(2)] Cons(3-7) Suc by simp
    then show ?thesis using w w' by (simp add: greet_event_step_def InsertChar_def)
  qed
qed

section \<open>An example\<close>

text \<open>A font in which every character is one wide, and fields of four characters.\<close>

definition sample_look :: look where
  "sample_look = \<lparr>k_width_of = (\<lambda>f s. int (length s)), k_advance = (\<lambda>f. 1), k_ascent = (\<lambda>f. 1), k_descent = (\<lambda>f. 0),
     k_width = 100, k_height = 50, k_outframewidth = 1, k_inframeswidth = 1, k_sepwidth = 1, k_logoWidth = 0,
     k_logoPadding = 0, k_greeting = ''hello'', k_unsecure_greet = ''hello'', k_namePrompt = ''name:  '',
     k_passwdPrompt = ''pass:  '', k_failMsg = ''no'', k_passwdChangeMsg = ''old'', k_failTimeout = 10,
     k_secure_session = True, k_echo_passwd = False, k_echo_passwd_char = ''*'', k_NAME_LEN = 6, k_PASSWORD_LEN = 6,
     k_strdup = True\<rparr>"

definition sample_prompt :: "loginPromptState \<Rightarrow> loginPromptData" where
  "sample_prompt st = \<lparr>lp_promptText = None, lp_defaultPrompt = ''name:  '', lp_valueText = replicate 6 NUL,
     lp_valueShownStart = 0, lp_valueShownEnd = 0, lp_cursor = 0, lp_state = st\<rparr>"

definition sample_widget :: login where
  "sample_widget = \<lparr>lw_state = PROMPTING, lw_activePrompt = 0, lw_failUp = False, lw_fail = ''no'',
     lw_prompts = [sample_prompt LOGIN_PROMPT_ECHO_ON, sample_prompt LOGIN_PROMPT_ECHO_OFF], lw_sessionArg = None,
     lw_allow_access = False, lw_interval_id = False, lw_msgTimeout = 0, lw_drawn = [], gr_name = '''', gr_password = '''',
     gr_code = 0, gr_done = False\<rparr>"

lemma sample_message: "message_ok (k_failMsg sample_look)"
  by (simp add: message_ok_def sample_look_def isspace_def)

lemma sample_fresh: "fresh_record sample_look sample_widget"
  using sample_message by (simp add: fresh_record_def sample_widget_def sample_prompt_def) (simp add: sample_look_def)

lemma sample_entering: "entering sample_look sample_widget"
  by (simp add: entering_def sample_widget_def sample_look_def sample_prompt_def field_ok_def text_ok_def)

lemma sample_fields: "fields sample_widget = [('''', ''''), ('''', '''')]"
  by (simp add: fields_def sample_widget_def sample_prompt_def field_text_def)

lemma sample_capacity: "capacity sample_widget 0 = 4"
  by (simp add: capacity_def sample_widget_def sample_prompt_def)

section \<open>Properties\<close>

text \<open>C7: the editing keys implement a line editor.  In a widget that waits for input, any sequence of
  editing keys and of characters succeeds and changes only the active field, to what an abstract editor
  on the text before and behind the cursor makes of it: the part of a typed string that no longer fits
  is dropped, and the two last bytes of the buffer are never used.\<close>

theorem editing_refines:
  assumes "entering L w" "message_ok (k_failMsg L)" "\<forall>a \<in> set as. editing_key a"
  shows "\<exists>w'. press L as w = Inr w' \<and> entering L w' \<and> rest w' = rest w \<and>
    fields w' = (fields w)[lw_activePrompt w := edit (capacity w (lw_activePrompt w)) as (fields w ! lw_activePrompt w)]"
  using press_does [OF assms] by (simp add: does_def)

theorem editing_refines_witness:
  "\<exists>w'. press sample_look [insert_char (XK_other False) ''rot'', move_backward_character, insert_char (XK_other False) ''oxy'',
      insert_char XK_BackSpace '''', move_to_begining, delete_character] sample_widget = Inr w' \<and>
    fields w' = [('''', ''ot''), ('''', '''')]"
proof -
  let ?as = "[insert_char (XK_other False) ''rot'', move_backward_character, insert_char (XK_other False) ''oxy'',
      insert_char XK_BackSpace '''', move_to_begining, delete_character]"
  have "lw_activePrompt sample_widget = 0" by (simp add: sample_widget_def)
  moreover have "\<forall>a \<in> set ?as. editing_key a" by (simp add: editing_key_def NUL_def)
  ultimately show ?thesis
    using editing_refines [OF sample_entering sample_message, of ?as]
    by (auto simp: sample_fields sample_capacity typed_def)
qed



text \<open>C38: one key is enough to leave the buffer.  When a key that stands for the character NUL (such as
  control and space) is typed into an empty name, the length the insertion computes stays 0 while the
  cursor moves on, so that the room it leaves no longer bounds the text: of a buffer of \<open>m\<close> bytes
  the \<open>m - 1\<close> characters typed next write past the end.\<close>

theorem NUL_key_overflows:
  assumes "entering L w" "message_ok (k_failMsg L)" "lw_activePrompt w = 0" "\<not> gr_done w"
    "lp_valueText (lw_prompts w ! 0) = replicate m NUL" "3 \<le> m" "length t = m - 1"
  shows "greet_loop L (typing (NUL # t)) w = Inl OutOfBounds"
proof -
  define k where "k = m - 2"
  have m: "m = Suc (Suc k)" using assms(6) by (simp add: k_def)
  have p: "prompt 0 w = Inr (lw_prompts w ! 0)" "field_ok (lw_prompts w ! 0)"
    using entering_prompt [OF assms(1), of 0] by auto
  have ne: "lw_prompts w \<noteq> []" using entering_length [OF assms(1)] by auto
  have "lp_cursor (lw_prompts w ! 0) = 0" "lp_valueShownStart (lw_prompts w ! 0) = 0"
    using p(2) by (auto simp: field_ok_def text_ok_def assms(5))
  moreover have "lp_state (lw_prompts w ! 0) = LOGIN_PROMPT_ECHO_ON"
    using assms(1) ne by (cases "lw_prompts w") (auto simp: entering_def)
  ultimately have "runaway L [] (Suc (Suc k)) w"
    using assms(1,3-5) ne m by (simp add: runaway_def entering_def hd_conv_nth)
  then obtain w' where w': "insert_default L 0 [NUL] w = Inr w'" "runaway L [NUL] (Suc k) w'"
    using runaway_step [of L "[]" k w NUL] assms(2,6) m by auto
  have "greet_loop L (typing t) w' = Inl OutOfBounds"
    using runaway_loop [OF w'(2) assms(2)] assms(6,7) m by simp
  then show ?thesis using w' assms(3,4) by (simp add: greet_event_step_def InsertChar_def)
qed

theorem NUL_key_overflows_witness:
  "greet_loop sample_look (typing (NUL # ''alice'')) sample_widget = Inl OutOfBounds"
  by (rule NUL_key_overflows [OF sample_entering sample_message, where m = 6])
    (simp_all add: sample_widget_def sample_prompt_def)

end
