(* ===== verification/Session_Run.thy ===== *)
theory Session_Run
  imports Session Greet_Safe
begin

text \<open>
  One session from its start to its end: \<open>ManageSession\<close> of \<open>xdm/session.c\<close> with the greeter
  library's \<open>GreetUser\<close> (\<open>greeter/greet.c\<close>), \<open>Verify\<close> and the client, and what holds of all of
  them together: a client is run only for a user who has been verified, and with that user's rights.
\<close>

section \<open>The greeter\<close>

text \<open>The static \<open>verifyInfo\<close> before anybody has been verified.\<close>

definition no_info :: verify_info where
  "no_info = \<lparr>vi_uid = 0, vi_gid = 0, vi_argv = None, vi_userEnviron = None, vi_systemEnviron = None\<rparr>"

definition greet_info_of :: "sys \<Rightarrow> string \<Rightarrow> string \<Rightarrow> string option \<Rightarrow> greet_info" where
  "greet_info_of Y name pass sessionArg =
     \<lparr>gi_name = name, gi_password = pass, gi_string = sessionArg, gi_allow_null_passwd = y_allow_null_passwd Y,
      gi_allow_root_login = y_allow_root_login Y\<rparr>"

definition verify_user :: "sys \<Rightarrow> display \<Rightarrow> string \<Rightarrow> string \<Rightarrow> string option \<Rightarrow> bool \<times> verify_info" where
  "verify_user Y d name pass sessionArg =
     (case Verify (y_ext Y) (y_accounts Y) (y_exportList Y) d (greet_info_of Y name pass sessionArg) no_info of
        (ok, g, v) \<Rightarrow> (ok, v))"

text \<open>The greeting says that the session is secure when the server was given an authorization or the
  configuration asks for none.\<close>

definition greet_look :: "look \<Rightarrow> display \<Rightarrow> look" where
  "greet_look L d =
     (if \<not> au_authorize (d_auth d) \<or> au_authorizations (d_auth d) \<noteq> None \<or> \<not> au_authComplain (d_auth d)
      then L\<lparr>k_secure_session := True\<rparr> else L)"

definition CloseGreet :: "login \<Rightarrow> call list" where
  "CloseGreet w = (if lw_allow_access w then [DisableAccess] else [])"

text \<open>The end of \<open>GreetUser\<close>: the process has ended or is waiting (left), or a user is to be
  given a session (right).\<close>

definition greet_finish ::
    "sys \<Rightarrow> display \<Rightarrow> user_result \<Rightarrow> login \<Rightarrow> c_error + ((process_end + verify_info \<times> string) \<times> call list)" where
  "greet_finish Y d r w =
     (case r of
        StillWaiting \<Rightarrow> Inr (Inl Waits, [])
      | SessionEnds c \<Rightarrow> mapE (\<lambda>cs. (Inl (Exits c), CloseGreet w @ cs)) (SessionExit Y d no_info False)
      | ServerGone \<Rightarrow> mapE (map_prod Inl id) (SessionPingFailed Y d no_info 0)
      | Verified name pass \<Rightarrow>
          (let v = snd (verify_user Y d name pass (lw_sessionArg w)); cs = DeleteXloginResources # CloseGreet w
           in bindE (source Y (vi_systemEnviron v) (se_startup (d_session d))) (\<lambda>(status, cs').
                if status \<noteq> 0
                then mapE (\<lambda>cs''. (Inl (Exits OBEYSESS_DISPLAY), cs @ cs' @ cs'')) (SessionExit Y d v False)
                else Inr (Inr (v, name), cs @ cs'))))"

definition greet_user ::
    "sys \<Rightarrow> look \<Rightarrow> login \<Rightarrow> greet_event list \<Rightarrow> display \<Rightarrow>
     c_error + ((process_end + verify_info \<times> string) \<times> call list)" where
  "greet_user Y L raw es d =
     (let ready = (if sr_grabServer (d_server d) then Inr [] else SetupDisplay Y d)
      in if \<not> y_opens Y then mapE (Pair (Inl (Exits RESERVER_DISPLAY))) ready
         else if \<not> y_secures Y then mapE (Pair (Inl (Exits RESERVER_DISPLAY))) (SessionExit Y d no_info False)
         else
           bindE (Initialize (greet_look L d) raw) (\<lambda>w.
           bindE ready (\<lambda>cs.
           bindE (GreetUser (greet_look L d) (\<lambda>name pass. fst (verify_user Y d name pass None)) es w) (\<lambda>(r, w').
             mapE (map_prod id (append cs)) (greet_finish Y d r w')))))"

section \<open>The session\<close>

definition ManageSession ::
    "sys \<Rightarrow> look \<Rightarrow> login \<Rightarrow> greet_event list \<Rightarrow> wait_event list \<Rightarrow> display \<Rightarrow> c_error + (process_end \<times> call list)" where
  "ManageSession Y L raw es ws d =
     bindE (LoadXloginResources Y d) (\<lambda>cs.
       case se_greeter (d_session d) of
         Some (c # greeter) \<Rightarrow>
           (case parseArgs (x_calloc (y_ext Y) 0) None (c # greeter) of
              None \<Rightarrow> Inl NullDeref
            | Some args \<Rightarrow>
                mapE (\<lambda>(ran, cs'). (if ran then Becomes else Exits UNMANAGE_DISPLAY, cs @ cs'))
                  (execute Y args (system_env Y d)))
       | _ \<Rightarrow>
           (if \<not> y_greeter_loads Y then Inr (Exits UNMANAGE_DISPLAY, cs)
            else bindE (greet_user Y L raw es d) (\<lambda>(r, cs').
                   case r of
                     Inl e \<Rightarrow> Inr (e, cs @ cs')
                   | Inr (v, name) \<Rightarrow> mapE (map_prod id (append (cs @ cs'))) (run_session Y d v name ws))))"

section \<open>What the client's process does\<close>

lemma SessionExit_no_exec: "SessionExit Y d v b = Inr cs \<Longrightarrow> Execve f a e \<notin> set cs"
  by (auto simp: SessionExit_def Let_def mapE_Inr_iff split: if_splits)

lemma source_no_exec: "source Y env file = Inr (r, cs) \<Longrightarrow> Execve f a e \<notin> set cs"
  by (auto simp: source_def runAndWait_def bindE_Inr_iff split: option.splits if_splits)

lemma finish_session_no_exec: "finish_session Y d v c = Inr (r, cs) \<Longrightarrow> Execve f a e \<notin> set cs"
  using source_no_exec SessionExit_no_exec
  by (fastforce simp: finish_session_def bindE_Inr_iff mapE_Inr_iff)

lemma become_user_calls:
  "fst (become_user Y v name) \<Longrightarrow> snd (become_user Y v name) = [SetGid (vi_gid v), InitGroups name (vi_gid v), SetUid (vi_uid v)] \<and>
    y_setgid Y (vi_gid v) \<and> y_initgroups Y name (vi_gid v) \<and> y_setuid Y (vi_uid v)"
  by (auto simp: become_user_def split: if_splits)

lemma become_user_no_exec: "Execve f a e \<notin> set (snd (become_user Y v name))"
  by (simp add: become_user_def)

text \<open>A child has what it executes executed with the user's rights.\<close>

definition as_user :: "sys \<Rightarrow> verify_info \<Rightarrow> string \<Rightarrow> call list \<Rightarrow> bool" where
  "as_user Y v name cs \<longleftrightarrow>
     y_setgid Y (vi_gid v) \<and> y_initgroups Y name (vi_gid v) \<and> y_setuid Y (vi_uid v) \<and>
     (\<exists>cs'. cs = [SetGid (vi_gid v), InitGroups name (vi_gid v), SetUid (vi_uid v)] @ cs')"

lemma client_process_user:
  assumes "client_process Y d v name = Inr (e, cs)" "Execve f a env \<in> set cs \<or> e = Becomes"
  shows "as_user Y v name cs"
proof (cases "fst (become_user Y v name)")
  case True
  note b = become_user_calls [OF True]
  have s: "become_user Y v name = (True, snd (become_user Y v name))" using True by (simp add: prod_eq_iff)
  have "\<exists>cs'. cs = snd (become_user Y v name) @ cs'"
    using assms(1) by (subst (asm) client_process_def, subst (asm) s)
      (auto simp: Let_def bindE_Inr_iff mapE_Inr_iff case_prod_beta)
  then show ?thesis using b by (auto simp: as_user_def)
next
  case False
  have s: "become_user Y v name = (False, snd (become_user Y v name))" using False by (simp add: prod_eq_iff)
  obtain e' cs' where "finish_session Y d v OBEYSESS_DISPLAY = Inr (e', cs')" "e = e'" "cs = snd (become_user Y v name) @ cs'"
    using assms(1) by (subst (asm) client_process_def, subst (asm) s) (auto simp: mapE_Inr_iff)
  moreover from this have "e' = Exits OBEYSESS_DISPLAY" by (auto simp: finish_session_def bindE_Inr_iff mapE_Inr_iff)
  ultimately show ?thesis using assms(2) become_user_no_exec finish_session_no_exec by fastforce
qed

section \<open>Where a client comes from\<close>

definition no_client :: "call list \<Rightarrow> bool" where
  "no_client cs \<longleftrightarrow> (\<forall>x. Client x \<notin> set cs)"

lemma no_client_simps [simp]:
  "no_client []" "no_client (c # cs) \<longleftrightarrow> (\<forall>x. c \<noteq> Client x) \<and> no_client cs"
  "no_client (cs @ cs') \<longleftrightarrow> no_client cs \<and> no_client cs'"
  by (auto simp: no_client_def)

lemma source_no_client: "source Y env file = Inr (r, cs) \<Longrightarrow> no_client cs"
  by (auto simp: source_def runAndWait_def bindE_Inr_iff split: option.splits if_splits)

lemma SessionExit_no_client: "SessionExit Y d v b = Inr cs \<Longrightarrow> no_client cs"
  by (auto simp: SessionExit_def Let_def mapE_Inr_iff split: if_splits)

lemma finish_session_no_client: "finish_session Y d v c = Inr (r, cs) \<Longrightarrow> no_client cs"
  using source_no_client SessionExit_no_client
  by (fastforce simp: finish_session_def bindE_Inr_iff mapE_Inr_iff)

lemma abort_no_client: "no_client (abort_loop ans pid sig i n)"
  by (induction n arbitrary: sig i) (auto split: abort_answer.split)

lemma SessionPingFailed_no_client: "SessionPingFailed Y d v c = Inr (r, cs) \<Longrightarrow> no_client cs"
  using finish_session_no_client SessionExit_no_client abort_no_client
  by (fastforce simp: SessionPingFailed_def AbortClient_def mapE_Inr_iff split: if_splits)

lemma wait_client_no_client: "wait_client Y d v pid es = Inr (r, cs) \<Longrightarrow> no_client cs"
proof (induction Y d v pid es arbitrary: r cs rule: wait_client.induct)
  case (2 Y d v pid p es)
  then show ?case using finish_session_no_client by (auto split: if_splits)
next
  case (3 Y d v pid answers es)
  then show ?case using SessionPingFailed_no_client by (auto split: if_splits)
next
  case (4 Y d v pid es)
  then show ?case using finish_session_no_client abort_no_client by (auto simp: mapE_Inr_iff AbortClient_def)
qed simp

lemma runAndWait_no_client: "runAndWait Y args env = Inr (r, cs) \<Longrightarrow> no_client cs"
  by (auto simp: runAndWait_def split: option.splits if_splits)

lemma LoadXloginResources_no_client: "LoadXloginResources Y d = Inr cs \<Longrightarrow> no_client cs"
  using runAndWait_no_client
  by (fastforce simp: LoadXloginResources_def mapE_Inr_iff Let_def split: option.splits if_splits)

lemma SetupDisplay_no_client: "SetupDisplay Y d = Inr cs \<Longrightarrow> no_client cs"
  using source_no_client by (fastforce simp: SetupDisplay_def mapE_Inr_iff split: option.splits if_splits)

lemma execute_no_client: "execute Y args env = Inr (r, cs) \<Longrightarrow> no_client cs"
  by (auto simp: execute_def Let_def split: list.splits option.splits exec_error.splits if_splits prod.splits)

lemma GreetUser_verified:
  "GreetUser L V es w = Inr (Verified name pass, w') \<Longrightarrow> V name pass"
proof (induction L V es w arbitrary: w' rule: GreetUser.induct)
  case (1 L V es w)
  from 1(2) show ?case
    by (subst (asm) GreetUser.simps) (auto split: sum.splits prod.splits greet_result.splits if_splits dest: 1(1))
qed

lemma verify_user_cases:
  assumes "verify_user Y d name pass arg = (True, v)"
  shows "\<exists>p. n_getpwnam (y_accounts Y) name = Some p \<and> may_log_in (y_accounts Y) (greet_info_of Y name pass arg) p \<and>
    vi_uid v = pw_uid p \<and> vi_gid v = pw_gid p"
proof -
  let ?g = "greet_info_of Y name pass arg"
  have n: "gi_name ?g = name" by (simp add: greet_info_of_def)
  show ?thesis
  proof (cases "\<exists>p. n_getpwnam (y_accounts Y) name = Some p \<and> may_log_in (y_accounts Y) ?g p")
    case True
    then obtain p where p: "n_getpwnam (y_accounts Y) name = Some p" "may_log_in (y_accounts Y) ?g p" by blast
    then show ?thesis using assms n Verify_accept [of "y_accounts Y" ?g p] by (auto simp: verify_user_def)
  next
    case False
    then have "Verify (y_ext Y) (y_accounts Y) (y_exportList Y) d ?g no_info = (False, ?g\<lparr>gi_password := ''''\<rparr>, no_info)"
      using n by (intro Verify_refuse) auto
    then show ?thesis using assms by (simp add: verify_user_def)
  qed
qed

text \<open>The argument of the session has no part in the decision.\<close>

lemma verify_user_arg: "fst (verify_user Y d name pass arg) = fst (verify_user Y d name pass arg')"
  by (simp add: verify_user_def Verify_def greet_info_of_def Let_def split: option.split)

lemma greet_user_result:
  assumes "greet_user Y L raw es d = Inr (r, cs)"
  shows "no_client cs \<and> (\<forall>v name. r = Inr (v, name) \<longrightarrow> (\<exists>pass arg. verify_user Y d name pass arg = (True, v)))"
proof -
  define ready where "ready = (if sr_grabServer (d_server d) then Inr [] else SetupDisplay Y d)"
  have s: "no_client xs" if "ready = Inr xs" for xs
    using that SetupDisplay_no_client by (auto simp: ready_def split: if_splits)
  show ?thesis
  proof (cases "y_opens Y \<and> y_secures Y")
    case False
    then show ?thesis using assms s SessionExit_no_client
      by (auto simp: greet_user_def ready_def [symmetric] mapE_Inr_iff split: if_splits)
  next
    case True
    then obtain w xs u w' ys where x: "ready = Inr xs"
        "GreetUser (greet_look L d) (\<lambda>name pass. fst (verify_user Y d name pass None)) es w = Inr (u, w')"
        "greet_finish Y d u w' = Inr (r, ys)" "cs = xs @ ys"
      using assms by (auto simp: greet_user_def ready_def [symmetric] bindE_Inr_iff mapE_Inr_iff)
    have c: "no_client (CloseGreet w')" by (simp add: CloseGreet_def)
    have "no_client ys \<and> (\<forall>v name. r = Inr (v, name) \<longrightarrow> (\<exists>pass arg. verify_user Y d name pass arg = (True, v)))"
    proof (cases u)
      case (Verified name pass)
      have "fst (verify_user Y d name pass (lw_sessionArg w'))"
        using GreetUser_verified x(2) Verified verify_user_arg by blast
      then have "verify_user Y d name pass (lw_sessionArg w') = (True, snd (verify_user Y d name pass (lw_sessionArg w')))"
        by (simp add: prod_eq_iff)
      then show ?thesis using x(3) c Verified source_no_client SessionExit_no_client
        by (fastforce simp: greet_finish_def Let_def bindE_Inr_iff mapE_Inr_iff split: if_splits)
    qed (use x(3) c SessionExit_no_client SessionPingFailed_no_client in \<open>auto simp: greet_finish_def mapE_Inr_iff\<close>)
    then show ?thesis using x(4) s [OF x(1)] by simp
  qed
qed

lemma run_session_client:
  assumes "run_session Y d v name ws = Inr (e, cs)" "Client x \<in> set cs"
  shows "x = client_process Y d v name"
proof (cases "y_client_fork Y = -1")
  case True
  then show ?thesis using assms finish_session_no_client
    by (fastforce simp: run_session_def StartClient_def mapE_Inr_iff no_client_def)
next
  case False
  then show ?thesis using assms wait_client_no_client
    by (fastforce simp: run_session_def StartClient_def mapE_Inr_iff no_client_def)
qed

lemma ManageSession_client:
  assumes "ManageSession Y L raw es ws d = Inr (e, cs)" "Client x \<in> set cs"
  shows "\<exists>v name pass arg. verify_user Y d name pass arg = (True, v) \<and> x = client_process Y d v name"
proof -
  obtain xs where xs: "LoadXloginResources Y d = Inr xs" "no_client xs"
    using assms(1) LoadXloginResources_no_client by (auto simp: ManageSession_def bindE_Inr_iff)
  show ?thesis
  proof (cases "\<exists>c g. se_greeter (d_session d) = Some (c # g)")
    case True
    then show ?thesis using assms xs execute_no_client
      by (fastforce simp: ManageSession_def bindE_Inr_iff mapE_Inr_iff no_client_def split: option.splits)
  next
    case False
    define run where "run = (if \<not> y_greeter_loads Y then Inr (Exits UNMANAGE_DISPLAY, xs)
      else bindE (greet_user Y L raw es d) (\<lambda>(r, cs').
        case r of Inl e \<Rightarrow> Inr (e, xs @ cs')
        | Inr (v, name) \<Rightarrow> mapE (map_prod id (append (xs @ cs'))) (run_session Y d v name ws)))"
    have "ManageSession Y L raw es ws d = run"
      using False xs(1) by (auto simp: ManageSession_def run_def split: option.split list.split)
    then have r: "run = Inr (e, cs)" using assms(1) by simp
    have "y_greeter_loads Y" using r assms(2) xs(2) by (auto simp: run_def no_client_def split: if_splits)
    then obtain g ys where g: "greet_user Y L raw es d = Inr (g, ys)" "no_client ys"
      using r greet_user_result by (fastforce simp: run_def bindE_Inr_iff)
    show ?thesis
    proof (cases g)
      case (Inl e')
      then show ?thesis using r g xs(2) assms(2) by (auto simp: run_def no_client_def split: if_splits)
    next
      case (Inr vn)
      obtain v name where vn: "vn = (v, name)" by (cases vn)
      obtain zs where zs: "run_session Y d v name ws = Inr (e, zs)" "cs = xs @ ys @ zs"
        using r g Inr vn \<open>y_greeter_loads Y\<close> by (auto simp: run_def mapE_Inr_iff)
      then have "Client x \<in> set zs" using assms(2) xs(2) g(2) by (auto simp: no_client_def)
      from run_session_client [OF zs(1) this] greet_user_result [OF g(1)] Inr vn show ?thesis by blast
    qed
  qed
qed

section \<open>An example\<close>

definition sample_sys :: sys where
  "sample_sys =
     \<lparr>y_ext = std_ext, y_accounts = sample_accounts, y_exportList = Some [''LANG''], y_execve = (\<lambda>f. None),
      y_fopen = (\<lambda>f. if f = ''Reset'' then Some ''exit'' else None), y_access = (\<lambda>f. False), y_fork = (\<lambda>a. 30),
      y_status = (\<lambda>a. 0), y_client_fork = 20, y_setgid = (\<lambda>g. True), y_initgroups = (\<lambda>n g. True), y_setuid = (\<lambda>u. True),
      y_chdir = (\<lambda>d. True), y_login_files = sample_files, y_logout_files = sample_files, y_abort = (\<lambda>i. TimedOut),
      y_greeter_loads = True, y_opens = True, y_secures = True, y_allow_null_passwd = True, y_allow_root_login = False\<rparr>"

definition sample_display :: display where
  "sample_display = (new_display '':0'' None)\<lparr>d_session := \<lparr>se_resources = Some '''', se_xrdb = Some ''xrdb'', se_setup = None,
     se_startup = None, se_reset = Some ''Reset'', se_session = Some ''/etc/Xsession'', se_userPath = Some ''/bin'',
     se_systemPath = Some ''/bin'', se_systemShell = Some ''/bin/sh'', se_failsafeClient = Some ''/bin/xterm'',
     se_chooser = None, se_greeter = None\<rparr>\<rparr>"

abbreviation sample_events :: "greet_event list" where
  "sample_events \<equiv> typing ''bob'' @ [Key finish_field, Key finish_field]"

definition clients_of :: "call list \<Rightarrow> (c_error + process_end \<times> call list) list" where
  "clients_of cs = concat (map (\<lambda>c. case c of Client x \<Rightarrow> [x] | _ \<Rightarrow> []) cs)"

lemma sample_session:
  "case ManageSession sample_sys sample_look sample_widget sample_events [Ended 20] sample_display of
     Inr (e, cs) \<Rightarrow> e = Exits 0 \<and> length (clients_of cs) = 1 | _ \<Rightarrow> False"
  by code_simp

lemma clients_of_set: "set (clients_of cs) = {x. Client x \<in> set cs}"
  by (induction cs) (auto simp: clients_of_def split: call.split)

lemma sample_run:
  obtains e cs x where "ManageSession sample_sys sample_look sample_widget sample_events [Ended 20] sample_display = Inr (e, cs)"
    "e = Exits 0" "Client x \<in> set cs"
proof -
  obtain e cs where r: "ManageSession sample_sys sample_look sample_widget sample_events [Ended 20] sample_display = Inr (e, cs)"
    "e = Exits 0" "length (clients_of cs) = 1"
    using sample_session by (auto split: sum.splits prod.splits)
  then have "hd (clients_of cs) \<in> set (clients_of cs)" by (cases "clients_of cs") auto
  with r that clients_of_set show ?thesis by blast
qed

section \<open>Properties\<close>

text \<open>C8: a session is run only for a user who has been verified, and as that user.  Every client process
  a session forks belongs to an account whose name and password were typed and accepted, and whatever that
  process executes, be it the session, its interpreter or the failsafe client, it executes after it has
  taken on the account's group, the groups the system gives it and the account's user, and after the
  system has agreed to all three.\<close>

theorem client_of_verified_user:
  assumes "ManageSession Y L raw es ws d = Inr (e, cs)" "Client x \<in> set cs"
  shows "\<exists>name pass arg p v. n_getpwnam (y_accounts Y) name = Some p \<and>
    may_log_in (y_accounts Y) (greet_info_of Y name pass arg) p \<and> vi_uid v = pw_uid p \<and> vi_gid v = pw_gid p \<and>
    (\<forall>end ccs. x = Inr (end, ccs) \<and> (end = Becomes \<or> (\<exists>f a env. Execve f a env \<in> set ccs)) \<longrightarrow> as_user Y v name ccs)"
proof -
  obtain v name pass arg where v: "verify_user Y d name pass arg = (True, v)" "x = client_process Y d v name"
    using ManageSession_client [OF assms] by blast
  obtain p where "n_getpwnam (y_accounts Y) name = Some p" "may_log_in (y_accounts Y) (greet_info_of Y name pass arg) p"
    "vi_uid v = pw_uid p" "vi_gid v = pw_gid p" using verify_user_cases [OF v(1)] by blast
  then show ?thesis using client_process_user v(2) by metis
qed

theorem client_of_verified_user_witness:
  "\<exists>cs x name p. ManageSession sample_sys sample_look sample_widget sample_events [Ended 20] sample_display = Inr (Exits 0, cs) \<and>
    Client x \<in> set cs \<and> n_getpwnam sample_accounts name = Some p"
proof -
  obtain e cs x where r: "ManageSession sample_sys sample_look sample_widget sample_events [Ended 20] sample_display = Inr (e, cs)"
    "e = Exits 0" "Client x \<in> set cs" by (rule sample_run)
  from client_of_verified_user [OF r(1,3)] r show ?thesis by (auto simp: sample_sys_def)
qed


lemma sample_run_session:
  "case run_session sample_sys sample_display (sample_user ''/home/bob'') ''bob'' [Ping True, Ended 20] of
     Inr (e, cs) \<Rightarrow> e = Exits 0 | _ \<Rightarrow> False"
  by code_simp


text \<open>C39: a client that is refused the user's rights ends the session a second time.  When the system
  refuses the group, the groups or the user, the child returns to \<open>ManageSession\<close>, where it is taken for
  the parent whose client could not be started: it runs the reset program and resets the server, with
  whatever rights it still has, and exits; and when it has, the parent does all of this again.\<close>

theorem refused_client_ends_session_twice:
  assumes "\<not> fst (become_user Y v name)" "y_client_fork Y \<noteq> -1"
    "finish_session Y d v OBEYSESS_DISPLAY = Inr (Exits OBEYSESS_DISPLAY, fin)"
  shows "run_session Y d v name (Ended (y_client_fork Y) # ws) = Inr (Exits OBEYSESS_DISPLAY,
      [Client (Inr (Exits OBEYSESS_DISPLAY, snd (become_user Y v name) @ fin)), WipePassword] @ fin) \<and>
    (ResetServer \<in> set fin \<or> Signal (d_serverPid d) (sr_resetSignal (d_server d)) \<in> set fin)"
proof -
  have "become_user Y v name = (False, snd (become_user Y v name))" using assms(1) by (simp add: prod_eq_iff)
  then have "client_process Y d v name = Inr (Exits OBEYSESS_DISPLAY, snd (become_user Y v name) @ fin)"
    using assms(3) by (subst client_process_def) (metis (no_types, lifting) case_prod_conv id_apply map_prod_simp mapE_simps(2) bool.simps(4))
  moreover have "ResetServer \<in> set fin \<or> Signal (d_serverPid d) (sr_resetSignal (d_server d)) \<in> set fin"
    using assms(3) by (auto simp: finish_session_def SessionExit_def Let_def bindE_Inr_iff mapE_Inr_iff split: if_splits)
  ultimately show ?thesis using assms(2,3) by (simp add: run_session_def StartClient_def)
qed

text \<open>A system that refuses to change the user.\<close>

definition refusing :: sys where
  "refusing = sample_sys\<lparr>y_setuid := (\<lambda>u. u = 0)\<rparr>"

lemma refusing_finishes:
  "case finish_session refusing sample_display (sample_user ''/home/bob'') OBEYSESS_DISPLAY of
     Inr (e, cs) \<Rightarrow> e = Exits 0 | _ \<Rightarrow> False"
  by code_simp

theorem refused_client_ends_session_twice_witness:
  "\<exists>fin. run_session refusing sample_display (sample_user ''/home/bob'') ''bob'' [Ended 20] =
     Inr (Exits 0, [Client (Inr (Exits 0, [SetGid 100, InitGroups ''bob'' 100, SetUid 1000] @ fin)), WipePassword] @ fin)"
proof -
  let ?v = "sample_user ''/home/bob''"
  obtain fin where f: "finish_session refusing sample_display ?v OBEYSESS_DISPLAY = Inr (Exits OBEYSESS_DISPLAY, fin)"
    using refusing_finishes by (auto split: sum.splits prod.splits)
  have b: "become_user refusing ?v ''bob'' = (False, [SetGid 100, InitGroups ''bob'' 100, SetUid 1000])"
    by (simp add: become_user_def refusing_def sample_sys_def sample_user_def)
  have "y_client_fork refusing = 20" by (simp add: refusing_def sample_sys_def)
  with refused_client_ends_session_twice [OF _ _ f, of "''bob''" "[]"] b show ?thesis by auto
qed

text \<open>The status of a session.\<close>

lemma fresh_greet_look: "fresh_record L raw \<Longrightarrow> fresh_record (greet_look L d) raw"
  by (simp add: fresh_record_def greet_look_def)

lemma greet_user_exits:
  assumes "greet_user Y L raw es d = Inr (Inl (Exits c), cs)" "fresh_record L raw" "\<forall>e \<in> set es. safe_event e"
  shows "c \<in> {OBEYSESS_DISPLAY, REMANAGE_DISPLAY, UNMANAGE_DISPLAY, RESERVER_DISPLAY}"
proof (cases "y_opens Y \<and> y_secures Y")
  case False
  then show ?thesis using assms(1) by (auto simp: greet_user_def Let_def mapE_Inr_iff split: if_splits)
next
  case True
  define V where "V = (\<lambda>name pass. fst (verify_user Y d name pass None))"
  obtain w where w: "Initialize (greet_look L d) raw = Inr w" "entering (greet_look L d) w"
    using Initialize_ok [OF fresh_greet_look [OF assms(2)]] by blast
  have m: "message_ok (k_failMsg (greet_look L d))" using fresh_greet_look [OF assms(2)] by (simp add: fresh_record_def)
  obtain u w' where u: "GreetUser (greet_look L d) V es w = Inr (u, w')" "\<forall>c. u = SessionEnds c \<longrightarrow> c \<in> {1, 2, 3}"
    using GreetUser_ok [OF m assms(3) w(2), of V] by blast
  obtain ys where "greet_finish Y d u w' = Inr (Inl (Exits c), ys)"
    using assms(1) True w(1) u(1) by (auto simp: greet_user_def V_def [symmetric] bindE_Inr_iff mapE_Inr_iff)
  then show ?thesis using u(2)
    by (cases u) (auto simp: greet_finish_def SessionPingFailed_def Let_def bindE_Inr_iff mapE_Inr_iff split: if_splits)
qed

lemma wait_client_exits: "wait_client Y d v pid ws = Inr (Exits c, cs) \<Longrightarrow> c = OBEYSESS_DISPLAY \<or> c = RESERVER_DISPLAY"
  by (induction Y d v pid ws arbitrary: c cs rule: wait_client.induct)
    (auto simp: finish_session_def SessionPingFailed_def bindE_Inr_iff mapE_Inr_iff split: if_splits)

lemma run_session_exits: "run_session Y d v name ws = Inr (Exits c, cs) \<Longrightarrow> c = OBEYSESS_DISPLAY \<or> c = RESERVER_DISPLAY"
  using wait_client_exits
  by (fastforce simp: run_session_def StartClient_def finish_session_def bindE_Inr_iff mapE_Inr_iff split: if_splits)



end
