(* ===== verification/Chooser.thy ===== *)
theory Chooser
  imports Xdmcp_Packets "HOL-Library.List_Lexorder" "HOL-Library.Char_ord"
begin

text \<open>
  The chooser, \<open>chooser/chooser.c\<close>: a program of its own that the daemon starts for an X terminal
  whose user is to choose a host.  It asks the hosts it was told, lists those that answer, and reports
  the one that was chosen to the daemon.

  The list widget of the Athena library is its items and the highlighted one.  Highlighting an item
  that does not exist is an error.  What the program asks of the system is the record \<open>chooser_host\<close>:
  the allocator and the resolver, the reader of packets, the interfaces with an address and whether they
  are up and can broadcast, whether the daemon can be connected to, the sizes of the list and of the
  viewport, and the resources.  The machine is little-endian and the program's sockets can be created.
\<close>

section \<open>Data\<close>

record app_resources =
  ap_xdmAddress :: "ARRAY8 option"
  ap_clientAddress :: "ARRAY8 option"
  ap_connectionType :: int

record HostName =
  hn_fullname :: string
  hn_willing :: bool
  hn_hostname :: ARRAY8
  hn_status :: ARRAY8
  hn_connectionType :: CARD16
  hn_hostaddr :: ARRAY8

datatype chooser_event =
    SentQuery bool sockaddr "xdm_write list"
  | AddTimeOut
  | ScrolledTo int
  | RangBell
  | Reported sockaddr "xdm_write list"
  | Printed CARD16 ARRAY8

record chooser =
  cs_hostAddrdb :: "(sockaddr \<times> xdmOpCode) list"
  cs_hostNamedb :: "HostName list"
  cs_NameTable :: "string list"
  cs_NameTableSize :: nat
  cs_highlight :: "nat option"
  cs_oldline :: "nat option"
  cs_pingTry :: nat
  cs_events :: "chooser_event list"

record 'b chooser_host =
  c_ext :: ext
  c_reader :: "'b reader"
  c_interfaces :: "(sockaddr \<times> bool \<times> sockaddr option) list option"
  c_getaddrinfo :: "string \<Rightarrow> sockaddr list option"
  c_connect :: "sockaddr \<Rightarrow> bool"
  c_height :: nat
  c_y :: int
  c_portheight :: nat
  c_app :: app_resources

definition happens :: "chooser_event \<Rightarrow> chooser \<Rightarrow> chooser" where
  "happens e s = s\<lparr>cs_events := e # cs_events s\<rparr>"

section \<open>Hexadecimal strings\<close>

definition ishexdigit :: "char \<Rightarrow> bool" where
  "ishexdigit c \<longleftrightarrow> is_digit c \<or> (97 \<le> (of_char c :: nat) \<and> (of_char c :: nat) \<le> 102)"

definition HexChar :: "char \<Rightarrow> int" where
  "HexChar c = (if is_digit c then of_char c - 48 else of_char c - 97 + 10)"

text \<open>The bytes, and whether the string is legal.  An illegal digit counts for something all the
  same.\<close>

fun FromHex :: "string \<Rightarrow> CARD8 list \<times> bool" where
  "FromHex [] = ([], True)"
| "FromHex [c] = ([], False)"
| "FromHex (a # b # s) =
     (let (d, ok) = FromHex s
      in (word_of_int (HexChar a * 16 + HexChar b) # d, ishexdigit a \<and> ishexdigit b \<and> ok))"

text \<open>The converter of the resources.  The size of a string includes its terminator; a string that is
  not legal is converted all the same.\<close>

definition CvtStringToARRAY8 :: "ext \<Rightarrow> string \<Rightarrow> ARRAY8" where
  "CvtStringToARRAY8 E s =
     (let len = length s + 1
      in if x_array8_alloc E (len div 2) then fst (FromHex (s @ [NUL])) else [])"

section \<open>The table of names\<close>

text \<open>The names in the order of \<open>strcmp\<close>.  The loop that fills the new table goes by the list, the
  size of the table by the counter.\<close>

definition RebuildTable :: "'b chooser_host \<Rightarrow> nat \<Rightarrow> chooser \<Rightarrow> c_error + chooser" where
  "RebuildTable C n s =
     (let names = map hn_fullname (cs_hostNamedb s);
          change = (\<lambda>table. s\<lparr>cs_NameTable := table, cs_NameTableSize := n, cs_highlight := None\<rparr>)
      in if n = 0 then Inr (change [])
         else if \<not> x_calloc (c_ext C) n then Inr s
         else if n < length names then Inl OutOfBounds
         else if length names < n then Inl NullDeref
         else Inr (change (sort names)))"

text \<open>\<open>%-30.*s %*.*s\<close>: a precision stops at a NUL.\<close>

definition pad_right :: "nat \<Rightarrow> string \<Rightarrow> string" where
  "pad_right n s = s @ replicate (n - length s) CHR '' ''"

definition pad_left :: "nat \<Rightarrow> string \<Rightarrow> string" where
  "pad_left n s = replicate (n - length s) CHR '' '' @ s"

definition text_of :: "ARRAY8 \<Rightarrow> string" where
  "text_of a = cstr (map (\<lambda>b. char_of (unat b)) a)"

definition full_name :: "ARRAY8 \<Rightarrow> ARRAY8 \<Rightarrow> string" where
  "full_name hostname status =
     pad_right 30 (text_of hostname) @ '' '' @ pad_left (length status) (text_of status)"

definition host_key :: "sockaddr \<Rightarrow> CARD16 \<times> ARRAY8" where
  "host_key addr =
     (case addr of SockIn p a \<Rightarrow> (FamilyInternet, a) | SockIn6 p a sc \<Rightarrow> (FamilyInternet6, a) | _ \<Rightarrow> (FamilyLocal, []))"

definition same_host :: "ext \<Rightarrow> sockaddr \<Rightarrow> HostName \<Rightarrow> bool" where
  "same_host E addr n \<longleftrightarrow> fst (host_key addr) = hn_connectionType n \<and> x_array8_equal E (snd (host_key addr)) (hn_hostaddr n)"

text \<open>The name of a new host: what the resolver says, or what the host calls itself.\<close>

definition resolved_name :: "ext \<Rightarrow> ARRAY8 \<Rightarrow> sockaddr \<Rightarrow> ARRAY8" where
  "resolved_name E hostname addr =
     (if hostname = [] \<or> fst (host_key addr) = FamilyLocal then hostname
      else case x_gethostbyaddr E (NetaddrFamily addr) (snd (host_key addr)) of
             Some host \<Rightarrow> if x_array8_alloc E (length host) then bytes_of host else []
           | None \<Rightarrow> hostname)"

text \<open>What is shown of a host; None when there is no memory for it at all, in which case the table gets
  a NULL.\<close>

definition shown_name :: "ext \<Rightarrow> ARRAY8 \<Rightarrow> ARRAY8 \<Rightarrow> string option" where
  "shown_name E hostname status =
     (if x_calloc E (length status) then Some (full_name hostname status) else x_strdup E ''Unknown'')"

definition named :: "ext \<Rightarrow> bool \<Rightarrow> ARRAY8 \<Rightarrow> HostName \<Rightarrow> HostName" where
  "named E willing status n =
     n\<lparr>hn_willing := willing, hn_status := status, hn_fullname := the (shown_name E (hn_hostname n) status)\<rparr>"

text \<open>True when the caller's arrays are kept.  When the new table of names cannot be allocated, the list
  keeps the old one, in which the name of a host that answers again has been freed.\<close>

definition AddHostname ::
    "'b chooser_host \<Rightarrow> ARRAY8 \<Rightarrow> ARRAY8 \<Rightarrow> sockaddr \<Rightarrow> bool \<Rightarrow> chooser \<Rightarrow> c_error + (bool \<times> chooser)" where
  "AddHostname C hostname status addr willing s =
     (let E = c_ext C; db = cs_hostNamedb s
      in case find_first (same_host E addr) db of
           Some n \<Rightarrow>
             (if x_array8_equal E status (hn_status n) then Inr (False, s)
              else if shown_name E (hn_hostname n) status = None then Inl NullDeref
              else if \<not> x_calloc E (cs_NameTableSize s) then Inl UseAfterFree
              else mapE (Pair True)
                     (RebuildTable C (cs_NameTableSize s)
                       (s\<lparr>cs_hostNamedb := update_first (same_host E addr) (named E willing status) db\<rparr>)))
         | None \<Rightarrow>
             (if \<not> x_calloc E (length db) \<or> \<not> x_array8_alloc E (length (snd (host_key addr))) then Inr (False, s)
              else if shown_name E (resolved_name E hostname addr) status = None then Inl NullDeref
              else
                (let n = \<lparr>hn_fullname = '''', hn_willing = False, hn_hostname = resolved_name E hostname addr, hn_status = [],
                          hn_connectionType = fst (host_key addr), hn_hostaddr = snd (host_key addr)\<rparr>
                 in mapE (Pair True)
                      (RebuildTable C (Suc (cs_NameTableSize s))
                        (s\<lparr>cs_hostNamedb := db @ [named E willing status n], cs_NameTableSize := Suc (cs_NameTableSize s)\<rparr>)))))"

definition EmptyHostnames :: "'b chooser_host \<Rightarrow> chooser \<Rightarrow> c_error + chooser" where
  "EmptyHostnames C s = RebuildTable C 0 (s\<lparr>cs_hostNamedb := [], cs_NameTableSize := 0\<rparr>)"

section \<open>Asking hosts\<close>

text \<open>The list of authentication names is empty: it is never set.\<close>

definition query_packet :: "xdmOpCode \<Rightarrow> xdm_write list" where
  "query_packet type = [header type 1, WARRAYofARRAY8 []]"

text \<open>The flag of a query says that it is sent through the IPv6 socket.\<close>

definition PingHosts :: "chooser \<Rightarrow> chooser" where
  "PingHosts s =
     (let s1 = fold (\<lambda>(addr, type). happens (SentQuery (NetaddrFamily addr = AF_INET6) addr
                       (query_packet (if type = QUERY then QUERY else BROADCAST_QUERY)))) (cs_hostAddrdb s) s;
          s2 = s1\<lparr>cs_pingTry := Suc (cs_pingTry s1)\<rparr>
      in if cs_pingTry s2 < 3 then happens AddTimeOut s2 else s2)"

definition RegisterHostaddr :: "ext \<Rightarrow> sockaddr \<Rightarrow> xdmOpCode \<Rightarrow> chooser \<Rightarrow> chooser" where
  "RegisterHostaddr E addr type s =
     (if x_calloc E (length (cs_hostAddrdb s)) then s\<lparr>cs_hostAddrdb := cs_hostAddrdb s @ [(addr, type)]\<rparr> else s)"

abbreviation (input) XDM_UDP_PORT :: "CARD8 list" where "XDM_UDP_PORT \<equiv> [0, 177]"

text \<open>\<open>IN_MULTICAST\<close> wants the address as a number; the code gives it the bytes as they are in
  memory.\<close>

definition IN_MULTICAST :: "CARD32 \<Rightarrow> bool" where
  "IN_MULTICAST a \<longleftrightarrow> a AND 0xF0000000 = 0xE0000000"

definition s_addr :: "CARD8 list \<Rightarrow> CARD32" where
  "s_addr a = foldr (\<lambda>b w. push_bit 8 w OR ucast b) a 0"

definition IN6_IS_ADDR_MULTICAST :: "CARD8 list \<Rightarrow> bool" where
  "IN6_IS_ADDR_MULTICAST a \<longleftrightarrow> a \<noteq> [] \<and> hd a = 0xFF"

definition query_type :: "sockaddr \<Rightarrow> xdmOpCode" where
  "query_type addr =
     (case addr of
        SockIn p a \<Rightarrow> if IN_MULTICAST (s_addr a) then BROADCAST_QUERY else QUERY
      | SockIn6 p a sc \<Rightarrow> if IN6_IS_ADDR_MULTICAST a then BROADCAST_QUERY else QUERY
      | _ \<Rightarrow> QUERY)"

definition broadcast_address :: "sockaddr \<times> bool \<times> sockaddr option \<Rightarrow> sockaddr option" where
  "broadcast_address = (\<lambda>(addr, up, brd).
     if NetaddrFamily addr = AF_INET \<and> up
     then (case brd of Some (SockIn p a) \<Rightarrow> Some (SockIn XDM_UDP_PORT a) | _ \<Rightarrow> None) else None)"

definition RegisterHostname :: "'b chooser_host \<Rightarrow> string \<Rightarrow> chooser \<Rightarrow> chooser" where
  "RegisterHostname C name s =
     (let E = c_ext C
      in if name = ''BROADCAST'' then
           (case c_interfaces C of
              None \<Rightarrow> s
            | Some ifs \<Rightarrow> fold (\<lambda>a. RegisterHostaddr E a BROADCAST_QUERY) (List.map_filter broadcast_address ifs) s)
         else if length name = 8 \<and> snd (FromHex name)
         then RegisterHostaddr E (SockIn XDM_UDP_PORT (fst (FromHex name))) QUERY s
         else
           (case c_getaddrinfo C name of
              None \<Rightarrow> s
            | Some as \<Rightarrow> fold (\<lambda>a. RegisterHostaddr E a (query_type a))
                (filter (\<lambda>a. NetaddrFamily a \<in> {AF_INET, AF_INET6}) as) s))"

definition InitXDMCP :: "'b chooser_host \<Rightarrow> string list \<Rightarrow> chooser \<Rightarrow> chooser" where
  "InitXDMCP C argv s = PingHosts ((fold (RegisterHostname C) argv s)\<lparr>cs_pingTry := 0\<rparr>)"

text \<open>A packet that has arrived.\<close>

definition ReceivePacket :: "'b chooser_host \<Rightarrow> CARD8 list option \<Rightarrow> sockaddr \<Rightarrow> chooser \<Rightarrow> c_error + chooser" where
  "ReceivePacket C packet addr s =
     (let R = c_reader C
      in case packet of
           None \<Rightarrow> Inr s
         | Some bytes \<Rightarrow>
             (case r_header R (r_buffer R bytes) of
                None \<Rightarrow> Inr s
              | Some ((version, opc, len), b) \<Rightarrow>
                  if version \<noteq> XDM_PROTOCOL_VERSION then Inr s
                  else if opc = opcode WILLING then
                    (case r_array8 R b of None \<Rightarrow> Inr s | Some (auth, b1) \<Rightarrow>
                     case r_array8 R b1 of None \<Rightarrow> Inr s | Some (hostname, b2) \<Rightarrow>
                     case r_array8 R b2 of None \<Rightarrow> Inr s | Some (status, b3) \<Rightarrow>
                       if unat len = 6 + length auth + length hostname + length status
                       then mapE snd (AddHostname C hostname status addr True s) else Inr s)
                  else if opc = opcode UNWILLING then
                    (case r_array8 R b of None \<Rightarrow> Inr s | Some (hostname, b1) \<Rightarrow>
                     case r_array8 R b1 of None \<Rightarrow> Inr s | Some (status, b2) \<Rightarrow>
                       if unat len = 4 + length hostname + length status
                       then mapE snd (AddHostname C hostname status addr False s) else Inr s)
                  else Inr s))"

section \<open>Reporting a choice\<close>

abbreviation (input) Button4 :: int where "Button4 \<equiv> 4"
abbreviation (input) Button5 :: int where "Button5 \<equiv> 5"
abbreviation (input) XK_Up :: int where "XK_Up \<equiv> 0xFF52"
abbreviation (input) XK_Down :: int where "XK_Down \<equiv> 0xFF54"

text \<open>The address to connect to, out of the bytes of \<open>-xdmaddress\<close>: the family, the port, the address.
  The characters that hold the family are signed.  None for a family that cannot be connected to.\<close>

definition xdm_sockaddr :: "ARRAY8 \<Rightarrow> c_error + sockaddr option" where
  "xdm_sockaddr xdm =
     (if length xdm < 2 then Inl OutOfBounds
      else (let family = sint (xdm ! 0) * 256 + sint (xdm ! 1)
            in if family = int AF_INET then
                 (if length xdm < 8 then Inl OutOfBounds
                  else Inr (Some (SockIn (take 2 (drop 2 xdm)) (take 4 (drop 4 xdm)))))
               else if family = int AF_INET6 then
                 (if length xdm < 20 then Inl OutOfBounds
                  else Inr (Some (SockIn6 (take 2 (drop 2 xdm)) (take 16 (drop 4 xdm)) 0)))
               else Inr None))"

text \<open>An operation that may end the program returns its status.\<close>

definition Choose :: "'b chooser_host \<Rightarrow> HostName \<Rightarrow> chooser \<Rightarrow> c_error + (int option \<times> chooser)" where
  "Choose C h s =
     (let app = c_app C
      in case ap_xdmAddress app of
           None \<Rightarrow> Inr (None, happens (Printed (hn_connectionType h) (hn_hostaddr h)) s)
         | Some xdm \<Rightarrow>
             bindE (xdm_sockaddr xdm) (\<lambda>addr.
               case addr of
                 None \<Rightarrow> Inr (Some REMANAGE_DISPLAY, s)
               | Some addr \<Rightarrow>
                   (if \<not> c_connect C addr then Inr (Some REMANAGE_DISPLAY, s)
                    else case ap_clientAddress app of
                           None \<Rightarrow> Inl NullDeref
                         | Some client \<Rightarrow>
                             Inr (None, happens (Reported addr
                               [WARRAY8 client, WCARD16 (word_of_int (ap_connectionType app)), WARRAY8 (hn_hostaddr h)]) s))))"

section \<open>Moving in the list\<close>

definition next_line :: "CARD32 \<Rightarrow> CARD32 \<Rightarrow> int \<Rightarrow> c_error + CARD32" where
  "next_line current n event =
     (if event = Button5 \<or> event = XK_Down then (if n = 0 then Inl DivideByZero else Inr ((current + 1) mod n))
      else if event = Button4 \<or> event = XK_Up then (if n = 0 then Inl DivideByZero else Inr ((current + n - 1) mod n))
      else Inr (- 1))"

definition highlight :: "nat \<Rightarrow> chooser \<Rightarrow> c_error + chooser" where
  "highlight line s = (if line < length (cs_NameTable s) then Inr (s\<lparr>cs_highlight := Some line\<rparr>) else Inl OutOfBounds)"

definition unhighlight :: "chooser \<Rightarrow> chooser" where
  "unhighlight s = s\<lparr>cs_highlight := None\<rparr>"

text \<open>The viewport is scrolled to show a line.\<close>

definition scroll_to :: "'b chooser_host \<Rightarrow> nat \<Rightarrow> chooser \<Rightarrow> c_error + chooser" where
  "scroll_to C line s =
     (if cs_NameTableSize s = 0 then Inl DivideByZero
      else (let lineheight = int (c_height C div cs_NameTableSize s);
                liney = lineheight * int line
            in Inr (if c_y C + liney < 0 then happens (ScrolledTo liney) s
                    else if c_y C + liney + lineheight > int (c_portheight C)
                    then happens (ScrolledTo (liney + lineheight - int (c_portheight C))) s
                    else s)))"

text \<open>The hosts of the highlighted name, in the order of the list.\<close>

primrec select_hosts :: "'b chooser_host \<Rightarrow> nat \<Rightarrow> string \<Rightarrow> HostName list \<Rightarrow> chooser \<Rightarrow> c_error + (bool \<times> chooser)" where
  "select_hosts C line name [] s = Inr (False, s)"
| "select_hosts C line name (h # hs) s =
     (if name \<noteq> hn_fullname h then select_hosts C line name hs s
      else if \<not> hn_willing h then select_hosts C line name hs (unhighlight s)
      else mapE (Pair True) (scroll_to C line s))"

definition Hostselect :: "'b chooser_host \<Rightarrow> nat \<Rightarrow> chooser \<Rightarrow> c_error + (bool \<times> chooser)" where
  "Hostselect C line s =
     bindE (highlight line s) (\<lambda>s1. select_hosts C line (cs_NameTable s ! line) (cs_hostNamedb s) s1)"

primrec select_first :: "'b chooser_host \<Rightarrow> nat list \<Rightarrow> chooser \<Rightarrow> c_error + chooser" where
  "select_first C [] s = Inr s"
| "select_first C (line # lines) s =
     bindE (Hostselect C line s) (\<lambda>(ok, s1). if ok then Inr s1 else select_first C lines s1)"

definition Selectfirst :: "'b chooser_host \<Rightarrow> chooser \<Rightarrow> c_error + chooser" where
  "Selectfirst C s = select_first C [0..<cs_NameTableSize s] s"

definition Storeold :: "chooser \<Rightarrow> chooser" where
  "Storeold s = s\<lparr>cs_oldline := cs_highlight s\<rparr>"

definition Setold :: "chooser \<Rightarrow> c_error + chooser" where
  "Setold s =
     (case (cs_highlight s, cs_oldline s) of (None, Some line) \<Rightarrow> highlight line s | _ \<Rightarrow> Inr s)"

text \<open>The first argument bounds the number of steps; \<open>HostCycle\<close> allows one more than there are
  lines.\<close>

primrec host_cycle ::
    "nat \<Rightarrow> 'b chooser_host \<Rightarrow> CARD32 \<Rightarrow> CARD32 \<Rightarrow> CARD32 \<Rightarrow> int \<Rightarrow> chooser \<Rightarrow> c_error + chooser" where
  "host_cycle 0 C newline line m keysym s = Inl NoReturn"
| "host_cycle (Suc n) C newline line m keysym s =
     bindE (next_line newline m keysym) (\<lambda>l.
       if l = line \<or> l = - 1 then highlight (unat line) s
       else bindE (Hostselect C (unat l) s) (\<lambda>(ok, s1).
              if ok then Inr s1 else host_cycle n C l line m keysym s1))"

definition HostCycle :: "'b chooser_host \<Rightarrow> nat \<Rightarrow> nat \<Rightarrow> int \<Rightarrow> chooser \<Rightarrow> c_error + chooser" where
  "HostCycle C line n keysym s =
     host_cycle (Suc n) C (of_nat line) (of_nat line) (of_nat n) keysym s"

definition switch :: "'b chooser_host \<Rightarrow> int \<Rightarrow> chooser \<Rightarrow> c_error + chooser" where
  "switch C event s =
     (case cs_highlight s of None \<Rightarrow> Selectfirst C s | Some i \<Rightarrow> HostCycle C i (cs_NameTableSize s) event s)"

definition Switch_Key :: "'b chooser_host \<Rightarrow> int \<Rightarrow> chooser \<Rightarrow> c_error + chooser" where
  "Switch_Key C keysym s = (if keysym \<noteq> XK_Up \<and> keysym \<noteq> XK_Down then Inr s else switch C keysym s)"

definition Switch_Btn :: "'b chooser_host \<Rightarrow> int \<Rightarrow> chooser \<Rightarrow> c_error + chooser" where
  "Switch_Btn C button s = switch C button s"

section \<open>The buttons\<close>

primrec choose_hosts :: "'b chooser_host \<Rightarrow> HostName list \<Rightarrow> chooser \<Rightarrow> c_error + (int option \<times> chooser)" where
  "choose_hosts C [] s = Inr (None, s)"
| "choose_hosts C (h # hs) s =
     bindE (Choose C h s) (\<lambda>(status, s1). if status \<noteq> None then Inr (status, s1) else choose_hosts C hs s1)"

definition hosts_named :: "string \<Rightarrow> chooser \<Rightarrow> HostName list" where
  "hosts_named name s = filter (\<lambda>h. name = hn_fullname h) (cs_hostNamedb s)"

definition DoAccept :: "'b chooser_host \<Rightarrow> chooser \<Rightarrow> c_error + (int option \<times> chooser)" where
  "DoAccept C s =
     (case cs_highlight s of
        None \<Rightarrow> Inr (None, happens RangBell s)
      | Some i \<Rightarrow>
          mapE (\<lambda>(status, s1). (case status of None \<Rightarrow> Some OBEYSESS_DISPLAY | Some e \<Rightarrow> Some e, s1))
            (choose_hosts C (hosts_named (cs_NameTable s ! i) s) s))"

definition DoCheckWilling :: "chooser \<Rightarrow> chooser" where
  "DoCheckWilling s =
     (case cs_highlight s of
        None \<Rightarrow> s
      | Some i \<Rightarrow> if \<exists>h \<in> set (hosts_named (cs_NameTable s ! i) s). \<not> hn_willing h then unhighlight s else s)"

definition DoCancel :: "chooser \<Rightarrow> int option \<times> chooser" where
  "DoCancel s = (Some OBEYSESS_DISPLAY, s)"

definition DoPing :: "'b chooser_host \<Rightarrow> chooser \<Rightarrow> c_error + chooser" where
  "DoPing C s = mapE (\<lambda>s1. PingHosts (s1\<lparr>cs_pingTry := 0\<rparr>)) (EmptyHostnames C s)"

section \<open>The main loop\<close>

text \<open>What \<open>XtMainLoop\<close> calls back for.  A click does what the comment at \<open>Setold\<close> gives as the
  translation of the button: \<open>Store() Set() CheckWilling() Setold()\<close>, where the library's \<open>Set\<close>
  highlights the item under the pointer, or none when there is no item.\<close>

datatype chooser_input =
    Arrives "CARD8 list option" sockaddr
  | TimeOut
  | Press_Accept
  | Press_Cancel
  | Press_Ping
  | KeySwitch int
  | BtnSwitch int
  | Click nat

definition Set_item :: "nat \<Rightarrow> chooser \<Rightarrow> chooser" where
  "Set_item line s = s\<lparr>cs_highlight := (if line < length (cs_NameTable s) then Some line else None)\<rparr>"

definition chooser_step :: "'b chooser_host \<Rightarrow> chooser_input \<Rightarrow> chooser \<Rightarrow> c_error + (int option \<times> chooser)" where
  "chooser_step C e s =
     (case e of
        Arrives packet addr \<Rightarrow> mapE (Pair None) (ReceivePacket C packet addr s)
      | TimeOut \<Rightarrow> Inr (None, PingHosts s)
      | Press_Accept \<Rightarrow> DoAccept C s
      | Press_Cancel \<Rightarrow> Inr (DoCancel s)
      | Press_Ping \<Rightarrow> mapE (Pair None) (DoPing C s)
      | KeySwitch keysym \<Rightarrow> mapE (Pair None) (Switch_Key C keysym s)
      | BtnSwitch button \<Rightarrow> mapE (Pair None) (Switch_Btn C button s)
      | Click line \<Rightarrow> mapE (Pair None) (Setold (DoCheckWilling (Set_item line (Storeold s)))))"

primrec main_loop :: "'b chooser_host \<Rightarrow> chooser_input list \<Rightarrow> chooser \<Rightarrow> c_error + (int option \<times> chooser)" where
  "main_loop C [] s = Inr (None, s)"
| "main_loop C (e # es) s =
     bindE (chooser_step C e s) (\<lambda>(status, s1). if status \<noteq> None then Inr (status, s1) else main_loop C es s1)"

text \<open>The program: the static variables start at zero.\<close>

definition no_hosts :: chooser where
  "no_hosts = \<lparr>cs_hostAddrdb = [], cs_hostNamedb = [], cs_NameTable = [], cs_NameTableSize = 0, cs_highlight = None,
     cs_oldline = Some 0, cs_pingTry = 0, cs_events = []\<rparr>"

definition chooser_main :: "'b chooser_host \<Rightarrow> string list \<Rightarrow> chooser_input list \<Rightarrow> c_error + (int option \<times> chooser)" where
  "chooser_main C hosts es = main_loop C es (InitXDMCP C hosts no_hosts)"

end
