(* ===== verification/Chooser_Safe.thy ===== *)
theory Chooser_Safe
  imports Chooser Handshake
begin

text \<open>
  What holds of the chooser whatever arrives and whatever the user does: the list shows exactly the
  hosts that answered, the highlighted line is there and is that of a host that is willing, moving
  finds the next willing host, and what is reported is a host of the highlighted line.
\<close>

section \<open>The list\<close>

definition host_id :: "HostName \<Rightarrow> CARD16 \<times> ARRAY8" where
  "host_id h = (hn_connectionType h, hn_hostaddr h)"

definition line_willing :: "chooser \<Rightarrow> nat \<Rightarrow> bool" where
  "line_willing s i \<longleftrightarrow> (\<exists>h \<in> set (hosts_named (cs_NameTable s ! i) s). hn_willing h)"

definition table_ok :: "chooser \<Rightarrow> bool" where
  "table_ok s \<longleftrightarrow> distinct (map host_id (cs_hostNamedb s)) \<and> cs_NameTableSize s = length (cs_hostNamedb s) \<and>
     cs_NameTable s = sort (map hn_fullname (cs_hostNamedb s)) \<and>
     (\<forall>h \<in> set (cs_hostNamedb s). hn_fullname h = full_name (hn_hostname h) (hn_status h))"

definition line_ok :: "chooser \<Rightarrow> nat option \<Rightarrow> bool" where
  "line_ok s l \<longleftrightarrow> (\<forall>i. l = Some i \<longrightarrow> i < length (cs_NameTable s) \<and> line_willing s i)"

definition list_ok :: "chooser \<Rightarrow> bool" where
  "list_ok s \<longleftrightarrow> table_ok s \<and> line_ok s (cs_highlight s)"

text \<open>The steps that move in the list leave the hosts and the table alone.\<close>

definition same_list :: "chooser \<Rightarrow> chooser \<Rightarrow> bool" where
  "same_list s s' \<longleftrightarrow> cs_hostNamedb s' = cs_hostNamedb s \<and> cs_NameTable s' = cs_NameTable s \<and>
     cs_NameTableSize s' = cs_NameTableSize s"

lemma same_list_refl [simp]: "same_list s s"
  by (simp add: same_list_def)

lemma same_list_trans: "same_list s s' \<Longrightarrow> same_list s' s'' \<Longrightarrow> same_list s s''"
  by (simp add: same_list_def)

lemma same_list_facts:
  assumes "same_list s s'"
  shows "table_ok s' = table_ok s" "line_willing s' = line_willing s" "line_ok s' = line_ok s" "hosts_named n s' = hosts_named n s"
  using assms by (auto simp: same_list_def table_ok_def line_willing_def line_ok_def hosts_named_def fun_eq_iff)

lemma same_list_simps [simp]:
  "same_list s (s\<lparr>cs_highlight := h\<rparr>)" "same_list s (happens e s')  = same_list s s'"
  "same_list s (unhighlight s') = same_list s s'"
  by (simp_all add: same_list_def happens_def unhighlight_def)

lemma table_length: "table_ok s \<Longrightarrow> length (cs_NameTable s) = cs_NameTableSize s"
  by (simp add: table_ok_def)

lemma table_named:
  assumes "table_ok s" "i < length (cs_NameTable s)"
  shows "hosts_named (cs_NameTable s ! i) s \<noteq> []"
proof -
  have "cs_NameTable s ! i \<in> hn_fullname ` set (cs_hostNamedb s)"
    using assms nth_mem [OF assms(2)] by (simp add: table_ok_def)
  then show ?thesis by (auto simp: hosts_named_def filter_empty_conv)
qed

section \<open>The table of names\<close>

lemma RebuildTable_ok:
  "x_calloc (c_ext C) n \<Longrightarrow> n = length (cs_hostNamedb s) \<Longrightarrow>
    RebuildTable C n s = Inr (s\<lparr>cs_NameTable := sort (map hn_fullname (cs_hostNamedb s)), cs_NameTableSize := n, cs_highlight := None\<rparr>)"
  by (simp add: RebuildTable_def Let_def)

definition memory :: "ext \<Rightarrow> bool" where
  "memory E \<longleftrightarrow> (\<forall>n. x_calloc E n)"

lemma same_host_id: "ext_ok E \<Longrightarrow> same_host E addr h \<longleftrightarrow> host_id h = host_key addr"
  by (auto simp: same_host_def host_id_def ext_ok_equal prod_eq_iff)

lemma named_simps [simp]:
  "host_id (named E w st h) = host_id h" "hn_hostname (named E w st h) = hn_hostname h" "hn_status (named E w st h) = st"
  "hn_willing (named E w st h) = w"
  by (simp_all add: named_def host_id_def)

lemma named_fullname: "memory E \<Longrightarrow> hn_fullname (named E w st h) = full_name (hn_hostname h) st"
  by (simp add: named_def shown_name_def memory_def)

text \<open>What a host that answers does to the list: nothing, or its entry is the last or in its place.\<close>

lemma AddHostname_ok:
  assumes C: "ext_ok (c_ext C)" "memory (c_ext C)" and t: "table_ok s"
  shows "\<exists>r s'. AddHostname C hostname status addr w s = Inr (r, s') \<and> table_ok s' \<and>
    (s' = s \<or> cs_highlight s' = None) \<and> cs_events s' = cs_events s \<and> length (cs_hostNamedb s') \<le> Suc (length (cs_hostNamedb s))"
proof -
  note sh = same_host_id [OF C(1)]
  have m: "x_calloc (c_ext C) n" "shown_name (c_ext C) h st = Some (full_name h st)" for n h st
    using C(2) by (simp_all add: memory_def shown_name_def)
  show ?thesis
  proof (cases "find_first (same_host (c_ext C) addr) (cs_hostNamedb s)")
    case None
    define n where "n = named (c_ext C) w status \<lparr>hn_fullname = '''', hn_willing = False,
      hn_hostname = resolved_name (c_ext C) hostname addr, hn_status = [],
      hn_connectionType = fst (host_key addr), hn_hostaddr = snd (host_key addr)\<rparr>"
    have new: "host_id n = host_key addr" "hn_fullname n = full_name (hn_hostname n) (hn_status n)"
      using C(2) by (simp_all add: n_def named_fullname) (simp add: host_id_def)
    have "host_key addr \<notin> host_id ` set (cs_hostNamedb s)" using None by (force simp: find_first_None_iff sh)
    with t new show ?thesis
      unfolding AddHostname_def Let_def None option.case n_def [symmetric]
      by (auto simp: m table_ok_def RebuildTable_ok)
  next
    case (Some h)
    define s1 where "s1 = s\<lparr>cs_hostNamedb := update_first (same_host (c_ext C) addr) (named (c_ext C) w status) (cs_hostNamedb s)\<rparr>"
    have "table_ok (s1\<lparr>cs_NameTable := sort (map hn_fullname (cs_hostNamedb s1)), cs_highlight := None\<rparr>)"
      using t C(2) by (auto simp: s1_def table_ok_def map_update_first length_update_first named_fullname dest!: set_update_first_cases)
    moreover have "RebuildTable C (cs_NameTableSize s) s1 =
        Inr (s1\<lparr>cs_NameTable := sort (map hn_fullname (cs_hostNamedb s1)), cs_highlight := None\<rparr>)"
      using t by (subst RebuildTable_ok) (simp_all add: m s1_def table_ok_def length_update_first)
    ultimately show ?thesis
      using t unfolding AddHostname_def Let_def Some option.case s1_def [symmetric]
      by (auto simp: m) (simp_all add: s1_def length_update_first)
  qed
qed

lemma line_ok_None [simp]: "line_ok s None"
  by (simp add: line_ok_def)

lemma ReceivePacket_ok:
  assumes C: "ext_ok (c_ext C)" "memory (c_ext C)" and t: "table_ok s"
  shows "\<exists>s'. ReceivePacket C packet addr s = Inr s' \<and> table_ok s' \<and> (s' = s \<or> cs_highlight s' = None) \<and>
    cs_events s' = cs_events s \<and> length (cs_hostNamedb s') \<le> Suc (length (cs_hostNamedb s))"
proof -
  have add: "\<exists>s'. mapE snd (AddHostname C hostname status addr w s) = Inr s' \<and> table_ok s' \<and>
      (s' = s \<or> cs_highlight s' = None) \<and> cs_events s' = cs_events s \<and>
      length (cs_hostNamedb s') \<le> Suc (length (cs_hostNamedb s))" for hostname status w
    using AddHostname_ok [OF C t, of hostname status addr w] by (metis mapE_simps(2) snd_conv)
  show ?thesis
    unfolding ReceivePacket_def Let_def
    by (cases packet) (use t add in \<open>simp_all split: option.split\<close>)
qed

section \<open>Sending queries\<close>

text \<open>An event that is a report of a choice.\<close>

fun is_report :: "chooser_event \<Rightarrow> bool" where
  "is_report (Reported a pkt) \<longleftrightarrow> True"
| "is_report (Printed t a) \<longleftrightarrow> True"
| "is_report _ \<longleftrightarrow> False"

lemma fold_happens: "fold (\<lambda>x. happens (f x)) xs s = s\<lparr>cs_events := rev (map f xs) @ cs_events s\<rparr>"
  by (induction xs arbitrary: s) (simp_all add: happens_def)

definition query_of :: "sockaddr \<times> xdmOpCode \<Rightarrow> chooser_event" where
  "query_of = (\<lambda>(addr, type). SentQuery (NetaddrFamily addr = AF_INET6) addr
     (query_packet (if type = QUERY then QUERY else BROADCAST_QUERY)))"

lemma PingHosts_eq:
  "PingHosts s = s\<lparr>cs_pingTry := Suc (cs_pingTry s),
     cs_events := (if Suc (cs_pingTry s) < 3 then [AddTimeOut] else []) @ rev (map query_of (cs_hostAddrdb s)) @ cs_events s\<rparr>"
proof -
  have f: "(\<lambda>(addr, type). happens (SentQuery (NetaddrFamily addr = AF_INET6) addr
      (query_packet (if type = QUERY then QUERY else BROADCAST_QUERY)))) = (\<lambda>x. happens (query_of x))"
    by (auto simp: fun_eq_iff query_of_def)
  define s1 where "s1 = fold (\<lambda>x. happens (query_of x)) (cs_hostAddrdb s) s"
  have e: "s1 = s\<lparr>cs_events := rev (map query_of (cs_hostAddrdb s)) @ cs_events s\<rparr>"
    unfolding s1_def by (rule fold_happens)
  show ?thesis
    unfolding PingHosts_def Let_def f s1_def [symmetric] e by (simp add: happens_def)
qed

lemma filter_queries: "filter is_report (rev (map query_of hs)) = []"
  by (auto simp: filter_empty_conv query_of_def)

lemma PingHosts_list: "same_list s (PingHosts s)" "cs_highlight (PingHosts s) = cs_highlight s"
  by (simp_all add: PingHosts_eq same_list_def)

definition only_addrs :: "chooser \<Rightarrow> chooser \<Rightarrow> bool" where
  "only_addrs s s' \<longleftrightarrow> s' = s\<lparr>cs_hostAddrdb := cs_hostAddrdb s'\<rparr>"

lemma only_addrs_refl [simp]: "only_addrs s s"
  by (simp add: only_addrs_def)

lemma only_addrs_trans: "only_addrs s s' \<Longrightarrow> only_addrs s' s'' \<Longrightarrow> only_addrs s s''"
  unfolding only_addrs_def by (metis chooser.update_convs(1) chooser.select_convs(1) chooser.surjective)

lemma only_addrs_fold:
  "(\<And>x s. only_addrs s (f x s)) \<Longrightarrow> only_addrs s (fold f xs s)"
  by (induction xs arbitrary: s) (auto intro: only_addrs_trans)

lemma RegisterHostaddr_list: "only_addrs s (RegisterHostaddr E a t s)"
  by (simp add: RegisterHostaddr_def only_addrs_def)

lemma RegisterHostname_list: "only_addrs s (RegisterHostname C name s)"
  by (auto simp: RegisterHostname_def Let_def RegisterHostaddr_list intro!: only_addrs_fold split: option.split)

lemma InitXDMCP_start: "table_ok (InitXDMCP C hosts no_hosts) \<and> cs_highlight (InitXDMCP C hosts no_hosts) = None \<and>
    cs_hostNamedb (InitXDMCP C hosts no_hosts) = [] \<and> filter is_report (cs_events (InitXDMCP C hosts no_hosts)) = []"
proof -
  define s where "s = fold (RegisterHostname C) hosts no_hosts"
  have "s = no_hosts\<lparr>cs_hostAddrdb := cs_hostAddrdb s\<rparr>"
    using only_addrs_fold [of "RegisterHostname C" no_hosts hosts] RegisterHostname_list
    unfolding s_def only_addrs_def by blast
  then obtain db where db: "s = no_hosts\<lparr>cs_hostAddrdb := db\<rparr>" by metis
  show ?thesis
    unfolding InitXDMCP_def s_def [symmetric] unfolding db
    by (simp add: PingHosts_eq table_ok_def no_hosts_def filter_queries)
qed

section \<open>Selecting a line\<close>

definition reports :: "chooser \<Rightarrow> chooser_event list" where
  "reports s = rev (filter is_report (cs_events s))"

definition moved :: "chooser \<Rightarrow> chooser \<Rightarrow> bool" where
  "moved s s' \<longleftrightarrow> same_list s s' \<and> reports s' = reports s"

lemma moved_refl [simp]: "moved s s"
  by (simp add: moved_def)

lemma moved_trans: "moved s s' \<Longrightarrow> moved s' s'' \<Longrightarrow> moved s s''"
  by (auto simp: moved_def intro: same_list_trans)

lemma moved_highlight [simp]: "moved s (s'\<lparr>cs_highlight := h\<rparr>) = moved s s'" "moved s (unhighlight s') = moved s s'"
  by (auto simp: moved_def same_list_def reports_def unhighlight_def)

lemma scroll_to_ok:
  "cs_NameTableSize s \<noteq> 0 \<Longrightarrow> \<exists>s'. scroll_to C line s = Inr s' \<and> moved s s' \<and> cs_highlight s' = cs_highlight s"
  by (auto simp: scroll_to_def Let_def moved_def reports_def happens_def same_list_def)

lemma select_hosts_ok:
  assumes "cs_NameTableSize s \<noteq> 0"
  shows "\<exists>s'. select_hosts C line name hs s = Inr (\<exists>h \<in> set hs. hn_fullname h = name \<and> hn_willing h, s') \<and> moved s s' \<and>
    cs_highlight s' = (case find_first (\<lambda>h. hn_fullname h = name) hs of
       Some h \<Rightarrow> if hn_willing h then cs_highlight s else None | None \<Rightarrow> cs_highlight s)"
  using assms
proof (induction hs arbitrary: s)
  case (Cons h hs)
  have u: "cs_NameTableSize (unhighlight s) \<noteq> 0" "cs_highlight (unhighlight s) = None" "moved s (unhighlight s)"
    using Cons.prems by (simp_all add: unhighlight_def moved_def same_list_def reports_def)
  consider (other) "hn_fullname h \<noteq> name" | (unwilling) "hn_fullname h = name" "\<not> hn_willing h"
    | (willing) "hn_fullname h = name" "hn_willing h" by blast
  then show ?case
  proof cases
    case other
    then show ?thesis using Cons.IH [OF Cons.prems] by auto
  next
    case unwilling
    obtain s' where s': "select_hosts C line name hs (unhighlight s) = Inr (\<exists>h \<in> set hs. hn_fullname h = name \<and> hn_willing h, s')"
        "moved (unhighlight s) s'" "cs_highlight s' = None"
      using Cons.IH [OF u(1)] u(2) by (auto split: option.splits)
    then show ?thesis using unwilling moved_trans [OF u(3)] by auto
  next
    case willing
    then show ?thesis using scroll_to_ok [OF Cons.prems, of C line] by auto
  qed
qed simp

text \<open>Hosts that are shown alike are alike willing.\<close>

definition names_agree :: "chooser \<Rightarrow> bool" where
  "names_agree s \<longleftrightarrow> (\<forall>h \<in> set (cs_hostNamedb s). \<forall>h' \<in> set (cs_hostNamedb s).
     hn_fullname h = hn_fullname h' \<longrightarrow> hn_willing h = hn_willing h')"

lemma Hostselect_ok:
  assumes t: "table_ok s" and i: "i < length (cs_NameTable s)"
  shows "\<exists>s'. Hostselect C i s = Inr (line_willing s i, s') \<and> moved s s' \<and>
    (if line_willing s i then cs_highlight s' \<in> {None, Some i} \<and> (names_agree s \<longrightarrow> cs_highlight s' = Some i)
     else cs_highlight s' = None)"
proof -
  let ?n = "cs_NameTable s ! i" and ?s = "s\<lparr>cs_highlight := Some i\<rparr>"
  have z: "cs_NameTableSize ?s \<noteq> 0" using t i by (auto simp: table_ok_def)
  obtain h where h: "find_first (\<lambda>h. hn_fullname h = ?n) (cs_hostNamedb s) = Some h"
    using table_named [OF t i] by (force simp: hosts_named_def filter_empty_conv find_first_None_iff)
  have hm: "h \<in> set (cs_hostNamedb s)" "hn_fullname h = ?n" using find_first_SomeD [OF h] by auto
  have w: "line_willing s i \<longleftrightarrow> (\<exists>h \<in> set (cs_hostNamedb s). hn_fullname h = ?n \<and> hn_willing h)"
    by (auto simp: line_willing_def hosts_named_def)
  obtain s' where s': "select_hosts C i ?n (cs_hostNamedb s) ?s = Inr (line_willing s i, s')" "moved ?s s'"
      "cs_highlight s' = (if hn_willing h then Some i else None)"
    using select_hosts_ok [OF z, of C i ?n "cs_hostNamedb s"] unfolding w [symmetric] h by (elim exE conjE) simp
  have "moved s s'" using s'(2) by (simp add: moved_def same_list_def reports_def)
  moreover have "hn_willing h" if l: "line_willing s i" and a: "names_agree s"
  proof -
    obtain g where g: "g \<in> set (cs_hostNamedb s)" "hn_fullname g = ?n" "hn_willing g" using l w by blast
    show ?thesis
      using a [unfolded names_agree_def, THEN bspec, OF hm(1), THEN bspec, OF g(1)] hm(2) g(2,3) by simp
  qed
  moreover have "\<not> hn_willing h" if "\<not> line_willing s i" using that hm by (auto simp: w)
  moreover have "Hostselect C i s = Inr (line_willing s i, s')" using s'(1) i by (simp add: Hostselect_def highlight_def)
  ultimately show ?thesis using s'(3) by (intro exI [of _ s']) simp
qed

section \<open>Moving to the next willing host\<close>

text \<open>The lines that \<open>next_line\<close> leads through, up to the one it started from.\<close>

primrec chain :: "int \<Rightarrow> CARD32 \<Rightarrow> CARD32 \<Rightarrow> nat list \<Rightarrow> CARD32 \<Rightarrow> bool" where
  "chain ev m cur [] line \<longleftrightarrow> next_line cur m ev \<in> {Inr line, Inr (- 1)}"
| "chain ev m cur (j # js) line \<longleftrightarrow>
     next_line cur m ev = Inr (of_nat j) \<and> j < 2 ^ 31 \<and> of_nat j \<noteq> line \<and> chain ev m (of_nat j) js line"

lemma line_word: "j < 2 ^ 31 \<Longrightarrow> unat (of_nat j :: CARD32) = j \<and> (of_nat j :: CARD32) \<noteq> - 1"
proof -
  assume j: "j < 2 ^ 31"
  then have u: "unat (of_nat j :: CARD32) = j" by (simp add: unat_of_nat)
  moreover have "unat (- 1 :: CARD32) = 2 ^ 32 - 1" by (simp add: unsigned_minus_1_eq_mask mask_eq_exp_minus_1)
  ultimately have "unat (of_nat j :: CARD32) \<noteq> unat (- 1 :: CARD32)" using j by simp
  with u show ?thesis by metis
qed

lemma host_cycle_chain:
  assumes "table_ok s" "chain ev m cur js line" "\<forall>j \<in> set js. j < length (cs_NameTable s)"
    "unat line < length (cs_NameTable s)" "length js < fuel"
  shows "\<exists>s'. host_cycle fuel C cur line m ev s = Inr s' \<and> moved s s' \<and>
    (case find_first (line_willing s) js of
       Some j \<Rightarrow> cs_highlight s' \<in> {None, Some j} \<and> (names_agree s \<longrightarrow> cs_highlight s' = Some j)
     | None \<Rightarrow> cs_highlight s' = Some (unat line))"
  using assms
proof (induction js arbitrary: s cur fuel)
  case Nil
  then obtain n where "fuel = Suc n" by (cases fuel) auto
  with Nil show ?case by (auto simp: highlight_def)
next
  case (Cons j js)
  obtain n where n: "fuel = Suc n" "length js < n" using Cons.prems(5) by (cases fuel) auto
  have j: "j < length (cs_NameTable s)" "j < 2 ^ 31" "of_nat j \<noteq> line" "next_line cur m ev = Inr (of_nat j)"
      "chain ev m (of_nat j) js line"
    using Cons.prems by auto
  obtain s1 where s1: "Hostselect C j s = Inr (line_willing s j, s1)" "moved s s1"
      "if line_willing s j then cs_highlight s1 \<in> {None, Some j} \<and> (names_agree s \<longrightarrow> cs_highlight s1 = Some j)
       else cs_highlight s1 = None"
    using Hostselect_ok [OF Cons.prems(1) j(1), of C] by blast
  have step: "host_cycle fuel C cur line m ev s =
      (if line_willing s j then Inr s1 else host_cycle n C (of_nat j) line m ev s1)"
    using j line_word [OF j(2)] s1(1) n(1) by simp
  show ?case
  proof (cases "line_willing s j")
    case True
    then show ?thesis using step s1 by simp
  next
    case False
    have sl: "same_list s s1" using s1(2) by (simp add: moved_def)
    note f = same_list_facts [OF sl]
    have a: "names_agree s1 = names_agree s" "cs_NameTable s1 = cs_NameTable s"
      using sl by (simp_all add: names_agree_def same_list_def)
    obtain s' where "host_cycle n C (of_nat j) line m ev s1 = Inr s'" "moved s1 s'"
        "case find_first (line_willing s) js of
           Some j \<Rightarrow> cs_highlight s' \<in> {None, Some j} \<and> (names_agree s \<longrightarrow> cs_highlight s' = Some j)
         | None \<Rightarrow> cs_highlight s' = Some (unat line)"
      using Cons.IH [of s1 "of_nat j" n, unfolded a f, OF Cons.prems(1) j(5) _ Cons.prems(4) n(2)] Cons.prems(3)
      by (elim exE conjE meta_impE) simp_all
    then show ?thesis using step False moved_trans [OF s1(2)] by auto
  qed
qed

text \<open>The order of the lines: down the list and on from its start, or up and on from its end.\<close>

definition cycle_order :: "int \<Rightarrow> nat \<Rightarrow> nat \<Rightarrow> nat list" where
  "cycle_order ev n line =
     (if ev \<in> {Button5, XK_Down} then map (\<lambda>k. (line + k) mod n) [1..<n]
      else if ev \<in> {Button4, XK_Up} then map (\<lambda>k. (line + n - k) mod n) [1..<n] else [])"

lemma of_nat_mod_word:
  assumes "0 < n" "a < 2 ^ 32" "n < 2 ^ 32"
  shows "(of_nat a :: CARD32) mod of_nat n = of_nat (a mod n)"
proof (rule unsigned_word_eqI)
  have "a mod n < 2 ^ 32" using assms by (meson le_less_trans mod_less_eq_dividend)
  then show "unat ((of_nat a :: CARD32) mod of_nat n) = unat (of_nat (a mod n) :: CARD32)"
    using assms by (simp add: unat_mod unat_of_nat)
qed

lemma next_line_down:
  assumes "ev \<in> {Button5, XK_Down}" "j < n" "n < 2 ^ 31"
  shows "next_line (of_nat j) (of_nat n) ev = Inr (of_nat ((j + 1) mod n))"
proof -
  have "unat (of_nat n :: CARD32) \<noteq> 0" using assms by (simp add: unat_of_nat)
  then have z: "(of_nat n :: CARD32) \<noteq> 0" by auto
  have "(of_nat j + 1 :: CARD32) mod of_nat n = of_nat ((j + 1) mod n)"
    using of_nat_mod_word [of n "j + 1"] assms by (simp add: add.commute)
  then show ?thesis using assms z by (auto simp: next_line_def)
qed

lemma next_line_up:
  assumes "ev \<in> {Button4, XK_Up}" "j < n" "n < 2 ^ 31"
  shows "next_line (of_nat j) (of_nat n) ev = Inr (of_nat ((j + n - 1) mod n))"
proof -
  have "unat (of_nat n :: CARD32) \<noteq> 0" using assms by (simp add: unat_of_nat)
  then have z: "(of_nat n :: CARD32) \<noteq> 0" by auto
  have e: "(of_nat j + of_nat n - 1 :: CARD32) = of_nat (j + n - 1)" using assms by (simp add: of_nat_diff)
  have "(of_nat j + of_nat n - 1 :: CARD32) mod of_nat n = of_nat ((j + n - 1) mod n)"
    unfolding e using of_nat_mod_word [of n "j + n - 1"] assms by simp
  then show ?thesis using assms z by (auto simp: next_line_def)
qed

lemma next_line_other:
  "ev \<notin> {Button5, XK_Down, Button4, XK_Up} \<Longrightarrow> next_line cur m ev = Inr (- 1)"
  by (simp add: next_line_def)

text \<open>A walk of \<open>n\<close> lines that comes back to its start and to no line before.\<close>

lemma chain_walk:
  assumes step: "\<And>k. k < n \<Longrightarrow> next_line (of_nat (f k)) m ev = Inr (of_nat (f (Suc k)))"
    and f: "\<And>k. f k < 2 ^ 31" "f n = line" "\<And>k. 0 < k \<Longrightarrow> k < n \<Longrightarrow> f k \<noteq> line" and k: "k < n"
  shows "chain ev m (of_nat (f k)) (map f [Suc k..<n]) (of_nat line)"
  using k
proof (induction "n - k" arbitrary: k)
  case (Suc d)
  show ?case
  proof (cases "Suc k < n")
    case True
    have u: "unat (of_nat (f (Suc k)) :: CARD32) = f (Suc k)" "unat (of_nat line :: CARD32) = line"
      using line_word f(1) [of n] f(1) f(2) by auto
    have "(of_nat (f (Suc k)) :: CARD32) \<noteq> of_nat line" using u f(3) [of "Suc k"] True by auto
    moreover have "chain ev m (of_nat (f (Suc k))) (map f [Suc (Suc k)..<n]) (of_nat line)"
      by (rule Suc(1)) (use Suc True in auto)
    ultimately show ?thesis using step [OF Suc.prems] f(1) [of "Suc k"] True by (simp add: upt_conv_Cons)
  next
    case False
    then have "Suc k = n" using Suc.prems by simp
    then show ?thesis using step [OF Suc.prems] f(2) by simp
  qed
qed simp

lemma chain_order:
  assumes "line < n" "n < 2 ^ 31"
  shows "chain ev (of_nat n) (of_nat line) (cycle_order ev n line) (of_nat line)"
proof -
  consider (down) "ev \<in> {Button5, XK_Down}" | (up) "ev \<in> {Button4, XK_Up}"
    | (other) "ev \<notin> {Button5, XK_Down, Button4, XK_Up}" by blast
  then show ?thesis
  proof cases
    case down
    define f where "f k = (line + k) mod n" for k
    have "chain ev (of_nat n) (of_nat (f 0)) (map f [Suc 0..<n]) (of_nat line)"
    proof (rule chain_walk)
      show "next_line (of_nat (f k)) (of_nat n) ev = Inr (of_nat (f (Suc k)))" for k
        using next_line_down [OF down, of "f k" n] assms by (simp add: f_def mod_Suc_eq)
      show "f k < 2 ^ 31" for k using assms less_trans [OF mod_less_divisor [of n "line + k"]] by (simp add: f_def)
      show "f k \<noteq> line" if "0 < k" "k < n" for k
        using assms that by (cases "line + k < n") (auto simp: f_def mod_if)
    qed (use assms in \<open>auto simp: f_def\<close>)
    then show ?thesis using down assms by (simp add: cycle_order_def f_def [abs_def])
  next
    case up
    define f where "f k = (line + n - k) mod n" for k
    have "chain ev (of_nat n) (of_nat (f 0)) (map f [Suc 0..<n]) (of_nat line)"
    proof (rule chain_walk)
      show "next_line (of_nat (f k)) (of_nat n) ev = Inr (of_nat (f (Suc k)))" if "k < n" for k
      proof -
        have "(line + n - k) mod n + n - 1 = (line + n - k) mod n + (n - 1)" using assms by simp
        then have "((line + n - k) mod n + n - 1) mod n = (line + n - k + (n - 1)) mod n"
          by (simp only: mod_add_left_eq)
        also have "line + n - k + (n - 1) = (line + n - Suc k) + n" using that assms by simp
        finally show ?thesis using next_line_up [OF up, of "f k" n] assms by (simp add: f_def)
      qed
      show "f k < 2 ^ 31" for k using assms less_trans [OF mod_less_divisor [of n "line + n - k"]] by (simp add: f_def)
      show "f k \<noteq> line" if "0 < k" "k < n" for k
        using assms that by (cases "line + n - k < n") (auto simp: f_def mod_if)
    qed (use assms in \<open>auto simp: f_def\<close>)
    then show ?thesis using up assms by (auto simp: cycle_order_def f_def [abs_def])
  next
    case other
    then show ?thesis by (simp add: cycle_order_def next_line_other)
  qed
qed

lemma HostCycle_ok:
  assumes t: "table_ok s" and l: "line < cs_NameTableSize s" "cs_NameTableSize s < 2 ^ 31"
  shows "\<exists>s'. HostCycle C line (cs_NameTableSize s) ev s = Inr s' \<and> moved s s' \<and>
    (case find_first (line_willing s) (cycle_order ev (cs_NameTableSize s) line) of
       Some j \<Rightarrow> cs_highlight s' \<in> {None, Some j} \<and> (names_agree s \<longrightarrow> cs_highlight s' = Some j)
     | None \<Rightarrow> cs_highlight s' = Some line)"
proof -
  have u: "unat (of_nat line :: CARD32) = line" using line_word l by (meson less_trans)
  have "\<forall>j \<in> set (cycle_order ev (cs_NameTableSize s) line). j < length (cs_NameTable s)"
    using l by (auto simp: cycle_order_def table_length [OF t])
  moreover have "length (cycle_order ev (cs_NameTableSize s) line) < Suc (cs_NameTableSize s)"
    by (auto simp: cycle_order_def)
  ultimately show ?thesis
    using host_cycle_chain [OF t chain_order [OF l], of ev "Suc (cs_NameTableSize s)" C] l
    unfolding HostCycle_def u table_length [OF t] by blast
qed

lemma cycle_line_ok:
  assumes "table_ok s" "line < cs_NameTableSize s" "line_willing s line"
    and "case find_first (line_willing s) (cycle_order ev (cs_NameTableSize s) line) of
       Some j \<Rightarrow> cs_highlight s' \<in> {None, Some j} \<and> (names_agree s \<longrightarrow> cs_highlight s' = Some j)
     | None \<Rightarrow> cs_highlight s' = Some line"
  shows "line_ok s (cs_highlight s')"
proof (cases "find_first (line_willing s) (cycle_order ev (cs_NameTableSize s) line)")
  case None
  then show ?thesis using assms by (simp add: line_ok_def table_length)
next
  case (Some j)
  from find_first_SomeD [OF this] have "line_willing s j" "j < cs_NameTableSize s"
    using assms(2) by (auto simp: cycle_order_def split: if_splits)
  then show ?thesis using assms(1,4) Some by (auto simp: line_ok_def table_length)
qed

lemma select_first_ok:
  "table_ok s \<Longrightarrow> \<forall>i \<in> set ls. i < length (cs_NameTable s) \<Longrightarrow> line_ok s (cs_highlight s) \<Longrightarrow>
    \<exists>s'. select_first C ls s = Inr s' \<and> moved s s' \<and> line_ok s (cs_highlight s')"
proof (induction ls arbitrary: s)
  case (Cons i ls)
  have i: "i < length (cs_NameTable s)" using Cons.prems by simp
  obtain s1 where s1: "Hostselect C i s = Inr (line_willing s i, s1)" "moved s s1"
      "if line_willing s i then cs_highlight s1 \<in> {None, Some i} \<and> (names_agree s \<longrightarrow> cs_highlight s1 = Some i)
       else cs_highlight s1 = None"
    using Hostselect_ok [OF Cons.prems(1) i, of C] by blast
  have f: "same_list s s1" using s1(2) by (simp add: moved_def)
  show ?case
  proof (cases "line_willing s i")
    case True
    then show ?thesis using s1 i by (auto simp: line_ok_def)
  next
    case False
    have "table_ok s1" "\<forall>i \<in> set ls. i < length (cs_NameTable s1)" "line_ok s1 (cs_highlight s1)"
      using Cons.prems s1(3) f False by (simp_all add: same_list_facts(1) [OF f]) (simp add: same_list_def)
    then obtain s' where "select_first C ls s1 = Inr s'" "moved s1 s'" "line_ok s1 (cs_highlight s')"
      using Cons.IH by blast
    then show ?thesis using s1 False moved_trans [OF s1(2)] by (simp add: same_list_facts(3) [OF f])
  qed
qed simp

lemma moved_list_ok: "list_ok s \<Longrightarrow> moved s s' \<Longrightarrow> line_ok s (cs_highlight s') \<Longrightarrow> list_ok s'"
  by (simp add: list_ok_def moved_def same_list_facts [of s s'])

lemma switch_ok:
  assumes s: "list_ok s" "cs_NameTableSize s < 2 ^ 31"
  shows "\<exists>s'. switch C ev s = Inr s' \<and> list_ok s' \<and> moved s s'"
proof (cases "cs_highlight s")
  case None
  have "\<exists>s'. Selectfirst C s = Inr s' \<and> moved s s' \<and> line_ok s (cs_highlight s')"
    unfolding Selectfirst_def using s by (intro select_first_ok) (auto simp: list_ok_def table_length)
  then show ?thesis using None moved_list_ok [OF s(1)] by (auto simp: switch_def)
next
  case (Some i)
  then have t: "table_ok s" "i < cs_NameTableSize s" "line_willing s i"
    using s by (auto simp: list_ok_def line_ok_def table_length)
  obtain s' where s': "HostCycle C i (cs_NameTableSize s) ev s = Inr s'" "moved s s'"
    "case find_first (line_willing s) (cycle_order ev (cs_NameTableSize s) i) of
       Some j \<Rightarrow> cs_highlight s' \<in> {None, Some j} \<and> (names_agree s \<longrightarrow> cs_highlight s' = Some j)
     | None \<Rightarrow> cs_highlight s' = Some i"
    using HostCycle_ok [OF t(1,2) s(2), of C ev] by blast
  then show ?thesis using Some moved_list_ok [OF s(1) s'(2) cycle_line_ok [OF t s'(3)]] by (auto simp: switch_def)
qed

text \<open>A click on a line: it is highlighted when no host of its name is unwilling, and otherwise the line
  that was highlighted before is.\<close>

lemma click_ok:
  assumes s: "list_ok s"
  shows "\<exists>s'. Setold (DoCheckWilling (Set_item i (Storeold s))) = Inr s' \<and> list_ok s' \<and> reports s' = reports s \<and>
    cs_hostNamedb s' = cs_hostNamedb s"
proof -
  define s1 where "s1 = Set_item i (Storeold s)"
  have s1: "cs_hostNamedb s1 = cs_hostNamedb s" "cs_NameTable s1 = cs_NameTable s" "cs_NameTableSize s1 = cs_NameTableSize s"
      "cs_oldline s1 = cs_highlight s" "cs_highlight s1 = (if i < length (cs_NameTable s) then Some i else None)" "reports s1 = reports s"
    by (simp_all add: s1_def Set_item_def Storeold_def reports_def)
  have sl: "same_list s (s1\<lparr>cs_highlight := h\<rparr>)" "same_list s s1" for h using s1 by (simp_all add: same_list_def)
  note t = same_list_facts [OF sl(2)]
  have old: "list_ok (s1\<lparr>cs_highlight := h\<rparr>)" if "line_ok s h" for h
    using that s same_list_facts [OF sl(1)] by (simp add: list_ok_def)
  have frame: "reports (s1\<lparr>cs_highlight := h\<rparr>) = reports s" for h using s1(6) by (simp add: reports_def)
  have oldline: "line_ok s (cs_highlight s)" using s by (simp add: list_ok_def)
  have "\<exists>h. DoCheckWilling s1 = s1\<lparr>cs_highlight := h\<rparr> \<and> line_ok s h"
  proof (cases "i < length (cs_NameTable s) \<and> (\<forall>h \<in> set (hosts_named (cs_NameTable s ! i) s). hn_willing h)")
    case True
    have "table_ok s" using s by (simp add: list_ok_def)
    from table_named [OF this] True obtain h where "h \<in> set (hosts_named (cs_NameTable s ! i) s)" by fastforce
    with True have "line_ok s (Some i)" by (auto simp: line_ok_def line_willing_def)
    moreover have "DoCheckWilling s1 = s1\<lparr>cs_highlight := Some i\<rparr>" using True s1 t(4) by (simp add: DoCheckWilling_def)
    ultimately show ?thesis by blast
  next
    case False
    then have "DoCheckWilling s1 = s1\<lparr>cs_highlight := None\<rparr>" using s1 t(4) by (auto simp: DoCheckWilling_def unhighlight_def)
    then show ?thesis using line_ok_None by blast
  qed
  then obtain h where h: "DoCheckWilling s1 = s1\<lparr>cs_highlight := h\<rparr>" "line_ok s h" by blast
  have "\<exists>h'. Setold (DoCheckWilling s1) = Inr (s1\<lparr>cs_highlight := h'\<rparr>) \<and> line_ok s h'"
    using h oldline s1 by (auto simp: Setold_def highlight_def line_ok_def split: option.split)
  then show ?thesis unfolding s1_def [symmetric] using old frame s1(1) by auto
qed

section \<open>Reporting\<close>

text \<open>The command line of the chooser makes sense: an address to report to is long enough for its family,
  and comes with that of the client.\<close>

definition report_ok :: "'b chooser_host \<Rightarrow> bool" where
  "report_ok C \<longleftrightarrow>
     (case ap_xdmAddress (c_app C) of
        None \<Rightarrow> True | Some x \<Rightarrow> (\<exists>r. xdm_sockaddr x = Inr r) \<and> ap_clientAddress (c_app C) \<noteq> None)"

definition reachable_xdm :: "'b chooser_host \<Rightarrow> bool" where
  "reachable_xdm C \<longleftrightarrow>
     (case ap_xdmAddress (c_app C) of
        None \<Rightarrow> True | Some x \<Rightarrow> (case xdm_sockaddr x of Inr (Some a) \<Rightarrow> c_connect C a | _ \<Rightarrow> False))"

text \<open>What is told of a host.\<close>

definition report_of :: "'b chooser_host \<Rightarrow> HostName \<Rightarrow> chooser_event" where
  "report_of C h =
     (case (ap_xdmAddress (c_app C), ap_clientAddress (c_app C)) of
        (Some x, Some client) \<Rightarrow>
          (case xdm_sockaddr x of
             Inr (Some a) \<Rightarrow> Reported a [WARRAY8 client, WCARD16 (word_of_int (ap_connectionType (c_app C))), WARRAY8 (hn_hostaddr h)]
           | _ \<Rightarrow> RangBell)
      | _ \<Rightarrow> Printed (hn_connectionType h) (hn_hostaddr h))"

lemma reports_happens [simp]: "reports (happens e s) = reports s @ (if is_report e then [e] else [])"
  by (simp add: reports_def happens_def)

lemma Choose_ok:
  assumes "report_ok C"
  shows "Choose C h s = Inr (if reachable_xdm C then (None, happens (report_of C h) s) else (Some REMANAGE_DISPLAY, s)) \<and>
    (reachable_xdm C \<longrightarrow> is_report (report_of C h))"
  using assms
  by (auto simp: report_ok_def reachable_xdm_def report_of_def Choose_def Let_def split: option.splits)

lemma choose_hosts_ok:
  assumes "report_ok C"
  shows "\<exists>s'. choose_hosts C hs s = Inr (if reachable_xdm C \<or> hs = [] then None else Some REMANAGE_DISPLAY, s') \<and>
    same_list s s' \<and> cs_highlight s' = cs_highlight s \<and> reports s' = reports s @ (if reachable_xdm C then map (report_of C) hs else [])"
proof (induction hs arbitrary: s)
  case (Cons h hs)
  have c: "Choose C h s = Inr (if reachable_xdm C then (None, happens (report_of C h) s) else (Some REMANAGE_DISPLAY, s))"
    using Choose_ok [OF assms] by blast
  show ?case
  proof (cases "reachable_xdm C")
    case True
    then have "is_report (report_of C h)" using Choose_ok [OF assms] by blast
    moreover have "same_list s (happens (report_of C h) s)" "cs_highlight (happens (report_of C h) s) = cs_highlight s"
      by simp_all (simp add: happens_def)
    ultimately show ?thesis using Cons [of "happens (report_of C h) s"] c True same_list_trans by (auto simp: same_list_def)
  qed (use c in simp)
qed simp

text \<open>What a step that ends the program leaves: a highlighted line of a willing host, and the hosts of
  that line reported.\<close>

definition reported :: "'b chooser_host \<Rightarrow> int option \<Rightarrow> chooser \<Rightarrow> bool" where
  "reported C status s \<longleftrightarrow> reports s = [] \<or>
     (\<exists>i. status = Some OBEYSESS_DISPLAY \<and> cs_highlight s = Some i \<and> line_willing s i \<and>
          reports s = map (report_of C) (hosts_named (cs_NameTable s ! i) s))"

lemma DoAccept_ok:
  assumes "report_ok C" "list_ok s" "reports s = []"
  shows "\<exists>status s'. DoAccept C s = Inr (status, s') \<and> list_ok s' \<and> cs_hostNamedb s' = cs_hostNamedb s \<and>
    reported C status s' \<and> (status = None \<longrightarrow> reports s' = [])"
proof (cases "cs_highlight s")
  case None
  have "same_list s (happens RangBell s)" by simp
  with None assms show ?thesis
    by (auto simp: DoAccept_def reported_def list_ok_def same_list_facts [of s "happens RangBell s"])
      (simp_all add: happens_def)
next
  case (Some i)
  let ?hs = "hosts_named (cs_NameTable s ! i) s"
  obtain s' where s': "choose_hosts C ?hs s = Inr (if reachable_xdm C \<or> ?hs = [] then None else Some REMANAGE_DISPLAY, s')"
      "same_list s s'" "cs_highlight s' = Some i" "reports s' = (if reachable_xdm C then map (report_of C) ?hs else [])"
    using choose_hosts_ok [OF assms(1), of ?hs s] assms(3) Some by auto
  note f = same_list_facts [OF s'(2)]
  have w: "line_willing s i" using assms(2) Some by (simp add: list_ok_def line_ok_def)
  then have ne: "?hs \<noteq> []" by (auto simp: line_willing_def)
  have eq: "cs_NameTable s' = cs_NameTable s" "cs_hostNamedb s' = cs_hostNamedb s" using s'(2) by (simp_all add: same_list_def)
  have "list_ok s'" using assms(2) Some s'(3) by (simp add: list_ok_def f)
  then show ?thesis
    using Some s'(1,3,4) ne w eq by (auto simp: DoAccept_def reported_def f)
qed

section \<open>Every step\<close>

lemma list_ok_fresh: "table_ok s \<Longrightarrow> cs_highlight s = None \<Longrightarrow> list_ok s"
  by (simp add: list_ok_def)

lemma DoPing_ok: "memory (c_ext C) \<Longrightarrow> \<exists>s'. DoPing C s = Inr s' \<and> list_ok s' \<and> cs_hostNamedb s' = [] \<and> reports s' = reports s"
  by (simp add: DoPing_def EmptyHostnames_def RebuildTable_def Let_def PingHosts_eq list_ok_def table_ok_def line_ok_def
      reports_def filter_queries)

lemma chooser_step_ok:
  assumes C: "ext_ok (c_ext C)" "memory (c_ext C)" "report_ok C"
    and s: "list_ok s" "cs_NameTableSize s < 2 ^ 31" "reports s = []"
  shows "\<exists>status s'. chooser_step C e s = Inr (status, s') \<and> list_ok s' \<and> cs_NameTableSize s' \<le> Suc (cs_NameTableSize s) \<and>
    reported C status s' \<and> (status = None \<longrightarrow> reports s' = [])"
proof -
  have t: "table_ok s" using s(1) by (simp add: list_ok_def)
  have size: "cs_NameTableSize s' = length (cs_hostNamedb s')" if "list_ok s'" for s'
    using that by (simp add: list_ok_def table_ok_def)
  have r: "reported C st s'" if "reports s' = []" for st s' using that by (simp add: reported_def)
  have db: "cs_NameTableSize s' \<le> Suc (cs_NameTableSize s)"
    if "list_ok s'" "length (cs_hostNamedb s') \<le> Suc (length (cs_hostNamedb s))" for s'
    using that size s(1) by simp
  have sw: "\<exists>s'. switch C ev s = Inr s' \<and> list_ok s' \<and> cs_NameTableSize s' \<le> Suc (cs_NameTableSize s) \<and> reports s' = []" for ev
    using switch_ok [OF s(1,2), of C ev] s(3) by (auto simp: moved_def same_list_def)
  show ?thesis
  proof (cases e)
    case (Arrives packet addr)
    obtain s' where s': "ReceivePacket C packet addr s = Inr s'" "table_ok s'" "s' = s \<or> cs_highlight s' = None"
        "cs_events s' = cs_events s" "length (cs_hostNamedb s') \<le> Suc (length (cs_hostNamedb s))"
      using ReceivePacket_ok [OF C(1,2) t] by blast
    then have "list_ok s'" "reports s' = []" using s list_ok_fresh by (auto simp: reports_def)
    then show ?thesis using Arrives s' r db by (simp add: chooser_step_def)
  next
    case TimeOut
    have "list_ok (PingHosts s)" "reports (PingHosts s) = []" "cs_NameTableSize (PingHosts s) = cs_NameTableSize s"
      using s PingHosts_list same_list_facts(1,3) [OF PingHosts_list(1) [of s]]
      by (simp_all add: list_ok_def) (simp_all add: PingHosts_eq reports_def filter_queries)
    then show ?thesis using TimeOut r by (simp add: chooser_step_def)
  next
    case Press_Accept
    then show ?thesis using DoAccept_ok [OF C(3) s(1,3)] size s(1) by (fastforce simp: chooser_step_def)
  next
    case Press_Cancel
    then show ?thesis using s r by (simp add: chooser_step_def DoCancel_def)
  next
    case Press_Ping
    obtain s' where s': "DoPing C s = Inr s'" "list_ok s'" "cs_hostNamedb s' = []" "reports s' = []"
      using DoPing_ok [OF C(2), of s] s(3) by auto
    then have "cs_NameTableSize s' = 0" using size by simp
    with s' show ?thesis using Press_Ping r by (simp add: chooser_step_def)
  next
    case (KeySwitch keysym)
    then show ?thesis using sw [of keysym] s r by (auto simp: chooser_step_def Switch_Key_def)
  next
    case (BtnSwitch button)
    then show ?thesis using sw [of button] r by (auto simp: chooser_step_def Switch_Btn_def)
  next
    case (Click line)
    then show ?thesis using click_ok [OF s(1), of line] s(3) r db by (auto simp: chooser_step_def)
  qed
qed

lemma main_loop_ok:
  assumes C: "ext_ok (c_ext C)" "memory (c_ext C)" "report_ok C"
  shows "list_ok s \<Longrightarrow> cs_NameTableSize s + length es < 2 ^ 31 \<Longrightarrow> reports s = [] \<Longrightarrow>
    \<exists>status s'. main_loop C es s = Inr (status, s') \<and> list_ok s' \<and> reported C status s'"
proof (induction es arbitrary: s)
  case Nil
  then show ?case by (simp add: reported_def)
next
  case (Cons e es)
  have l: "cs_NameTableSize s < 2 ^ 31" using Cons.prems by simp
  obtain status s1 where s1: "chooser_step C e s = Inr (status, s1)" "list_ok s1"
      "cs_NameTableSize s1 \<le> Suc (cs_NameTableSize s)" "reported C status s1" "status = None \<longrightarrow> reports s1 = []"
    using chooser_step_ok [OF C Cons.prems(1) l Cons.prems(3)] by blast
  show ?case
  proof (cases status)
    case None
    then show ?thesis using s1 Cons.IH [of s1] Cons.prems(2) by simp
  qed (use s1 in simp)
qed

section \<open>Properties\<close>


text \<open>A chooser whose daemon listens at 10.0.0.5, for the client 10.0.0.7, and a host that answers.\<close>

definition sample_chooser :: "CARD8 list chooser_host" where
  "sample_chooser = \<lparr>c_ext = std_ext, c_reader = net_reader, c_interfaces = None, c_getaddrinfo = (\<lambda>_. None),
     c_connect = (\<lambda>_. True), c_height = 100, c_y = 0, c_portheight = 300,
     c_app = \<lparr>ap_xdmAddress = Some [0, 2, 4, 1, 10, 0, 0, 5], ap_clientAddress = Some [10, 0, 0, 7], ap_connectionType = 0\<rparr>\<rparr>"

definition sample_answer :: chooser_input where
  "sample_answer = Arrives (Some [0, 1, 0, 5, 0, 8, 0, 0, 0, 1, 65, 0, 1, 66]) (SockIn [0, 177] [10, 0, 0, 1])"

lemma sample_chooser_ok: "ext_ok (c_ext sample_chooser)" "memory (c_ext sample_chooser)" "report_ok sample_chooser"
  using ext_ok_std by (simp_all add: sample_chooser_def memory_def report_ok_def xdm_sockaddr_def) (simp add: std_ext_def)




text \<open>A key or the wheel moves to the next line, in its direction and across the end of the list, that is
  of a willing host, and stays where it is when there is none; the search always ends.\<close>

theorem HostCycle_next:
  assumes "table_ok s" "names_agree s" "cs_highlight s = Some line" "line < cs_NameTableSize s" "cs_NameTableSize s < 2 ^ 31"
  shows "\<exists>s'. Switch_Btn C ev s = Inr s' \<and> cs_hostNamedb s' = cs_hostNamedb s \<and> cs_NameTable s' = cs_NameTable s \<and>
    cs_highlight s' = Some (case find_first (line_willing s) (cycle_order ev (cs_NameTableSize s) line) of
      Some j \<Rightarrow> j | None \<Rightarrow> line)"
  using HostCycle_ok [OF assms(1,4,5), of C ev] assms(2,3)
  by (auto simp: Switch_Btn_def switch_def moved_def same_list_def split: option.splits)

definition sample_entry :: "string \<Rightarrow> bool \<Rightarrow> CARD8 \<Rightarrow> HostName" where
  "sample_entry name w a =
     \<lparr>hn_fullname = full_name (bytes_of name) [], hn_willing = w, hn_hostname = bytes_of name, hn_status = [],
      hn_connectionType = FamilyInternet, hn_hostaddr = [10, 0, 0, a]\<rparr>"

definition sample_list :: chooser where
  "sample_list =
     (let hs = [sample_entry ''ada'' True 1, sample_entry ''bob'' False 2, sample_entry ''eve'' True 3]
      in no_hosts\<lparr>cs_hostNamedb := hs, cs_NameTable := map hn_fullname hs, cs_NameTableSize := 3, cs_highlight := Some 0\<rparr>)"

lemma HostCycle_next_witness:
  "\<exists>s'. Switch_Btn sample_chooser Button5 sample_list = Inr s' \<and> cs_highlight s' = Some 2"
proof -
  have "table_ok sample_list" by code_simp
  moreover have "names_agree sample_list" by code_simp
  moreover have "cs_highlight sample_list = Some 0" "cs_NameTableSize sample_list = 3"
    by (simp_all add: sample_list_def Let_def)
  moreover have "find_first (line_willing sample_list) (cycle_order Button5 3 0) = Some 2" by code_simp
  ultimately show ?thesis using HostCycle_next [of sample_list 0 sample_chooser Button5] by auto
qed

section \<open>Which hosts are asked, and which answer\<close>

lemma top_octet_bits:
  "s_addr [a, b, c, d] AND 0xF0000000 = push_bit 24 (ucast d) AND 0xF0000000"
proof (rule bit_word_eqI)
  fix n assume "n < LENGTH(32)"
  have hi: "28 \<le> n" if "bit (0xF0000000 :: CARD32) n"
  proof -
    have "(0xF0000000 :: CARD32) = push_bit 28 0xF" by simp
    with that have "bit (push_bit 28 (0xF :: CARD32)) n" by (simp only:)
    then show ?thesis by (simp only: bit_push_bit_iff)
  qed
  show "bit (s_addr [a, b, c, d] AND 0xF0000000) n = bit (push_bit 24 (ucast d) AND (0xF0000000 :: CARD32)) n"
  proof (cases "28 \<le> n")
    case True
    have out: "\<not> bit (x :: CARD8) (n - k)" if "k \<le> 16" for x k
      using True that bit_imp_le_length [of x "n - k"] by auto
    show ?thesis
      using True out [of 16 c] out [of 8 b] out [of 0 a]
      by (auto simp: s_addr_def bit_and_iff bit_or_iff bit_push_bit_iff bit_ucast_iff)
  qed (use hi in \<open>auto simp: bit_and_iff\<close>)
qed

lemma top_nibble: "(push_bit 24 (ucast (d :: CARD8)) AND 0xF0000000 = (0xE0000000 :: CARD32)) \<longleftrightarrow> 224 \<le> unat d \<and> unat d < 240"
proof -
  have "\<forall>n \<in> set [0..<256]. (push_bit 24 (ucast (word_of_nat n :: CARD8)) AND 0xF0000000 = (0xE0000000 :: CARD32)) \<longleftrightarrow> 224 \<le> n \<and> n < 240"
    by code_simp
  moreover have "unat d \<in> set [0..<256]" using unsigned_less [where ?'a = nat, of d] by simp
  ultimately show ?thesis by (metis of_nat_unat ucast_id)
qed

text \<open>An IPv4 address is asked like a multicast group, with a BroadcastQuery, exactly when its last
  octet, not its first, is one of those that the first octet of a multicast address has.\<close>

theorem query_type_last_octet:
  "query_type (SockIn p [a, b, c, d]) = (if 224 \<le> unat d \<and> unat d < 240 then BROADCAST_QUERY else QUERY)"
  unfolding query_type_def IN_MULTICAST_def sockaddr.case top_octet_bits top_nibble by simp

end
