(* ===== verification/Run_Chooser.thy ===== *)
theory Run_Chooser
  imports Session_Run Chooser_Safe Pidfile
begin

text \<open>
  A chooser from its start by the daemon to its answer: \<open>RunChooser\<close> of \<open>xdm/choose.c\<close>, what its
  arguments mean to the chooser, and what the chooser's answer means to the daemon.
\<close>

section \<open>Starting the chooser\<close>

text \<open>The arguments of the chooser; \<open>chooser_addr\<close> is the address of the socket on which the daemon
  waits for the answer, \<open>la\<close> the local address if it is known already.\<close>

definition chooser_args ::
    "ext \<Rightarrow> database \<Rightarrow> sockaddr option \<Rightarrow> local_address \<Rightarrow> display \<Rightarrow> c_error + string list option" where
  "chooser_args E db chooser_addr la d =
     (case se_chooser (d_session d) of
        None \<Rightarrow> Inl NullDeref
      | Some prog \<Rightarrow>
          (let add = parseArgs (x_calloc E 0);
               args1 = add None prog;
               (xdm, la1) = FormatChooserArgument E chooser_addr la (1024 - length ''-xdmaddress '');
               args2 = (case xdm of Some t \<Rightarrow> add args1 (''-xdmaddress '' @ t) | None \<Rightarrow> args1);
               args3 = (case FormatARRAY8 (d_clientAddr d) (1024 - length ''-clientaddress '') of
                          Some t \<Rightarrow> add args2 (''-clientaddress '' @ t) | None \<Rightarrow> args2);
               args4 = add args3 (''-connectionType '' @ show_nat (unat (d_connectionType d)))
           in mapE fst (ForEachChooserHost E db (d_clientAddr d) (d_connectionType d) (AddChooserHost E) args4 la1)))"

definition RunChooser ::
    "sys \<Rightarrow> database \<Rightarrow> sockaddr option \<Rightarrow> local_address \<Rightarrow> display \<Rightarrow> c_error + (process_end \<times> call list)" where
  "RunChooser Y db chooser_addr la d =
     bindE (LoadXloginResources Y d) (\<lambda>cs.
     bindE (chooser_args (y_ext Y) db chooser_addr la d) (\<lambda>args.
       case args of
         None \<Rightarrow> Inl NullDeref
       | Some a \<Rightarrow>
           mapE (\<lambda>(ran, cs'). (if ran then Becomes else Exits REMANAGE_DISPLAY, cs @ cs'))
             (execute Y a (system_env Y d))))"

section \<open>Hexadecimal text\<close>

lemma hex_digit_value:
  "n < 16 \<Longrightarrow> HexChar (HexChars ! n) = int n \<and> ishexdigit (HexChars ! n) \<and> \<not> isblank (HexChars ! n)"
proof -
  have "\<forall>n \<in> set [0..<16]. HexChar (HexChars ! n) = int n \<and> ishexdigit (HexChars ! n) \<and> \<not> isblank (HexChars ! n)"
    by code_simp
  then show "n < 16 \<Longrightarrow> ?thesis" by simp
qed

lemma nibbles:
  "unat (drop_bit 4 b AND 0xF :: CARD8) = unat b div 16" "unat (b AND 0xF :: CARD8) = unat b mod 16"
proof -
  have m: "(0xF :: CARD8) = mask 4" by (simp add: mask_eq_exp_minus_1)
  have "unat b div 16 < 16" using unsigned_less [where ?'a = nat, of b] by simp
  then show "unat (drop_bit 4 b AND 0xF :: CARD8) = unat b div 16"
    unfolding m take_bit_eq_mask [symmetric] by (simp add: unsigned_take_bit_eq unsigned_drop_bit_eq take_bit_eq_mod drop_bit_eq_div unat_div unat_mod)
  show "unat (b AND 0xF :: CARD8) = unat b mod 16"
    unfolding m take_bit_eq_mask [symmetric] by (simp add: unsigned_take_bit_eq take_bit_eq_mod unat_mod)
qed

lemma hex_byte_value:
  "\<exists>x y. hex_byte b = [x, y] \<and> word_of_int (HexChar x * 16 + HexChar y) = b \<and> ishexdigit x \<and> ishexdigit y \<and>
    \<not> isblank x \<and> \<not> isblank y"
proof -
  let ?h = "unat b div 16" and ?l = "unat b mod 16"
  have h: "?h < 16" using unsigned_less [where ?'a = nat, of b] by simp
  have "int ?h * 16 + int ?l = int (unat b)" by presburger
  then have "word_of_int (int ?h * 16 + int ?l) = b" by (simp only: of_nat_unat word_of_int_uint)
  then show ?thesis
    using hex_digit_value [OF h] hex_digit_value [of ?l] 
    unfolding hex_byte_def unfolding nibbles(1) unfolding nibbles(2) by auto
qed

lemma FromHex_bytes: "FromHex (concat (map hex_byte a) @ [c]) = (a, False) \<and> FromHex (concat (map hex_byte a)) = (a, True)"
proof (induction a)
  case (Cons b a)
  obtain x y where "hex_byte b = [x, y]" "word_of_int (HexChar x * 16 + HexChar y) = b" "ishexdigit x" "ishexdigit y"
    using hex_byte_value by blast
  with Cons show ?case by simp
qed simp

lemma hex_no_blank: "\<forall>c \<in> set (concat (map hex_byte a)). \<not> isblank c"
proof (induction a)
  case (Cons b a)
  then show ?case using hex_byte_value [of b] by auto
qed simp

lemma length_hex: "length (concat (map hex_byte a)) = 2 * length a"
  by (induction a) (simp_all add: hex_byte_def)

text \<open>What the daemon prints the chooser's converter reads back.\<close>

lemma Cvt_FormatBytes:
  assumes "FormatBytes a n = Some t" "x_array8_alloc E (length a)"
  shows "CvtStringToARRAY8 E t = a \<and> (\<forall>c \<in> set t. \<not> isblank c)"
proof -
  have t: "t = concat (map hex_byte a)" using assms(1) by (simp add: FormatBytes_def split: if_splits)
  have "(length t + 1) div 2 = length a" unfolding t length_hex by simp
  then show ?thesis
    using assms(2) hex_no_blank FromHex_bytes [of a NUL] unfolding t by (simp add: CvtStringToARRAY8_def Let_def)
qed

section \<open>The argument vector\<close>

lemma or_seq_inv:
  "or_seq m k = Inr (l, s') \<Longrightarrow> (\<And>l s. m = Inr (l, s) \<Longrightarrow> P s) \<Longrightarrow> (\<And>l s s'. k s = Inr (l, s') \<Longrightarrow> P s \<Longrightarrow> P s') \<Longrightarrow> P s'"
  by (auto simp: or_seq_def bindE_Inr_iff mapE_Inr_iff)

text \<open>What every call of the callback keeps, the walk over the hosts keeps.\<close>

lemma scan_hosts_inv:
  assumes f: "\<And>ct a s. P s \<Longrightarrow> P (f ct a s)"
    and al: "\<And>n s l s'. alias n s = Inr (l, s') \<Longrightarrow> P s \<Longrightarrow> P s'"
  shows "scan_hosts E alias ct (Some f) b hs s = Inr (l, s') \<Longrightarrow> P s \<Longrightarrow> P s'"
proof (induction hs arbitrary: s l s')
  case (Cons h hs)
  have "P s1" if "scan_host E alias ct (Some f) b h s = Inr (l1, s1)" for l1 s1
    using that Cons.prems(2) f al by (auto simp: scan_host_def call_back_def split: host_type.splits if_splits)
  then show ?case using or_seq_inv [OF Cons.prems(1) [unfolded scan_hosts.simps], of P] Cons.IH by blast
qed simp

lemma scan_aliases_inv:
  assumes "\<And>hs s l s'. scan hs s = Inr (l, s') \<Longrightarrow> P s \<Longrightarrow> P s'"
  shows "scan_aliases scan alias db s = Inr (l, s') \<Longrightarrow> P s \<Longrightarrow> P s'"
proof (induction db arbitrary: s l s')
  case (Cons d db)
  let ?m = "case de_type d of DISPLAY_ALIAS n \<Rightarrow> bindE (patternMatch (Some alias) n) (\<lambda>m. if m then scan (de_hosts d) s else Inr (False, s))
             | _ \<Rightarrow> Inr (False, s)"
  have "P s1" if "?m = Inr (l1, s1)" for l1 s1
    using that Cons.prems(2) assms by (auto simp: bindE_Inr_iff split: display_type.splits if_splits)
  then show ?case using or_seq_inv [OF Cons.prems(1) [unfolded scan_aliases.simps], of P] Cons.IH by blast
qed simp

lemma indirectAlias_inv:
  assumes f: "\<And>ct a s. P s \<Longrightarrow> P (f ct a s)"
  shows "indirectAlias E db ct (Some f) b n a s = Inr (l, s') \<Longrightarrow> P s \<Longrightarrow> P s'"
proof (induction n arbitrary: a s l s')
  case (Suc n)
  have "P s'" if "scan_hosts E (indirectAlias E db ct (Some f) b n) ct (Some f) b hs s = Inr (l, s')" "P s" for hs s l s'
    using scan_hosts_inv [where P = P and f = f, OF f _ that] Suc.IH by blast
  then show ?case using scan_aliases_inv [of _ P] Suc.prems by simp blast
qed simp

lemma ForEachChooserHost_inv:
  assumes f: "\<And>ct a s. P s \<Longrightarrow> P (f ct a s)" and r: "ForEachChooserHost E db a ct f s la = Inr (s', la')" and "P s"
  shows "P s'"
proof -
  have "P s1" if "scanHostlist E db hs ct (Some f) s n b = Inr (l, s1)" for hs n b l s1
    using scan_hosts_inv [where P = P and f = f, OF f _ that [unfolded scanHostlist_def] assms(3)]
      indirectAlias_inv [where P = P and f = f, OF f] by blast
  then show ?thesis
    using r assms(3) f
    by (auto simp: ForEachChooserHost_def bindE_Inr_iff mapE_Inr_iff case_prod_beta split: option.splits if_splits)
qed

lemma option_words:
  assumes "t \<noteq> []" "\<forall>c \<in> set t. \<not> isblank c" "w \<noteq> []" "\<forall>c \<in> set w. \<not> isblank c"
  shows "parse_words [] (w @ CHR '' '' # t) = [w, t]"
  using parse_words_join [of "CHR '' ''" "[w, t]"] assms by (simp add: isblank_def)

lemma AddChooserHost_appends:
  assumes "memory E" "\<exists>hosts. args = Some (v @ hosts)"
  shows "\<exists>hosts. AddChooserHost E ct a args = Some (v @ hosts)"
proof -
  obtain hosts where h: "args = Some (v @ hosts)" using assms(2) by blast
  have "parseArgs (x_calloc E 0) args t = Some (v @ hosts @ parse_words [] t)" for t
    using assms(1) h by (simp add: memory_def parseArgs_append)
  then show ?thesis using h by (simp add: AddChooserHost_def split: option.split)
qed

lemma chooser_args_shape:
  assumes m: "memory E" and d: "se_chooser (d_session d) = Some prog"
    and x: "FormatChooserArgument E addr la 1012 = (Some x, la')" "x \<noteq> []" "\<forall>c \<in> set x. \<not> isblank c"
    and c: "FormatARRAY8 (d_clientAddr d) 1009 = Some c" "c \<noteq> []" "\<forall>c \<in> set c. \<not> isblank c"
    and r: "chooser_args E db addr la d = Inr args"
  shows "\<exists>hosts. args = Some (parse_words [] prog @
    [''-xdmaddress'', x, ''-clientaddress'', c, ''-connectionType'', show_nat (unat (d_connectionType d))] @ hosts)"
proof -
  let ?n = "show_nat (unat (d_connectionType d))"
  have n: "?n \<noteq> []" "\<forall>c \<in> set ?n. \<not> isblank c"
    using show_nat_digits [of "unat (d_connectionType d)"] by (auto simp: isblank_def is_digit_def)
  have w: "parse_words [] (''-xdmaddress '' @ x) = [''-xdmaddress'', x]" "parse_words [] (''-clientaddress '' @ c) = [''-clientaddress'', c]"
      "parse_words [] (''-connectionType '' @ ?n) = [''-connectionType'', ?n]"
    using option_words [OF x(2,3), of "''-xdmaddress''"] option_words [OF c(2,3), of "''-clientaddress''"]
      option_words [OF n, of "''-connectionType''"] by (simp_all add: isblank_def)
  have l: "1024 - length ''-xdmaddress '' = 1012" "1024 - length ''-clientaddress '' = 1009" by simp_all
  have p: "parseArgs (x_calloc E 0) argv t = Some ((case argv of None \<Rightarrow> [] | Some a \<Rightarrow> a) @ parse_words [] t)" for argv t
    using m by (simp add: memory_def parseArgs_append)
  let ?v = "parse_words [] prog @ [''-xdmaddress'', x, ''-clientaddress'', c, ''-connectionType'', ?n]"
  have "\<exists>la1 la2. ForEachChooserHost E db (d_clientAddr d) (d_connectionType d) (AddChooserHost E) (Some ?v) la1 = Inr (args, la2)"
    using r unfolding chooser_args_def d option.case Let_def l x(1) c(1) prod.case p w by (auto simp: mapE_Inr_iff)
  then obtain la1 la2 where
    f: "ForEachChooserHost E db (d_clientAddr d) (d_connectionType d) (AddChooserHost E) (Some ?v) la1 = Inr (args, la2)" by blast
  have "\<exists>hosts. args = Some (?v @ hosts)"
    by (rule ForEachChooserHost_inv [where P = "\<lambda>s. \<exists>hosts. s = Some (?v @ hosts)", OF AddChooserHost_appends [OF m] f]) auto
  then show ?thesis by simp
qed

section \<open>What the chooser understands\<close>

lemma FormatBytes_hex: "length a * 2 + 1 \<le> n \<Longrightarrow> FormatBytes a n = Some (concat (map hex_byte a))"
  by (simp add: FormatBytes_def)

lemma hex_nonempty: "a \<noteq> [] \<Longrightarrow> concat (map hex_byte a) \<noteq> []"
  by (cases a) (simp_all add: hex_byte_def)

text \<open>The socket the chooser connects to: the daemon's port at this host's address.\<close>

definition answer_address :: "CARD8 list \<Rightarrow> ARRAY8 \<Rightarrow> sockaddr" where
  "answer_address port a = (if length a = 16 then SockIn6 port a 0 else SockIn port a)"

definition xdm_bytes :: "CARD8 list \<Rightarrow> ARRAY8 \<Rightarrow> CARD8 list" where
  "xdm_bytes port a = [0, if length a = 16 then 10 else 2, port ! 0, port ! 1] @ a"

lemma xdm_bytes_address:
  "length port = 2 \<Longrightarrow> length a = 4 \<or> length a = 16 \<Longrightarrow>
    xdm_sockaddr (xdm_bytes port a) = Inr (Some (answer_address port a))"
  by (auto simp: xdm_sockaddr_def xdm_bytes_def answer_address_def length_Suc_conv numeral_2_eq_2)

lemma FormatChooserArgument_bytes:
  assumes "NetaddrPort addr = (Some port, 2)" "getLocalAddress E la = (a, la')" "length a = 4 \<or> length a = 16"
  shows "FormatChooserArgument E (Some addr) la 1012 = (Some (concat (map hex_byte (xdm_bytes port a))), la')"
proof -
  have "NetaddrFamily addr = AF_INET \<or> NetaddrFamily addr = AF_INET6" using assms(1) by (cases addr) auto
  moreover have "length (xdm_bytes port a) * 2 + 1 \<le> 1012" using assms(3) by (auto simp: xdm_bytes_def)
  ultimately show ?thesis
    using assms FormatBytes_hex [of "xdm_bytes port a" 1012] by (auto simp: FormatChooserArgument_def xdm_bytes_def)
qed

text \<open>The resources of a chooser that was given three options with these values: the library hands the
  strings of the first two to the converter and reads the third as a number.\<close>

definition resources_of :: "ext \<Rightarrow> string \<Rightarrow> string \<Rightarrow> string \<Rightarrow> app_resources" where
  "resources_of E xdm client type =
     \<lparr>ap_xdmAddress = Some (CvtStringToARRAY8 E xdm), ap_clientAddress = Some (CvtStringToARRAY8 E client),
      ap_connectionType = digits_value type\<rparr>"

section \<open>Properties\<close>

text \<open>C14: the chooser understands what the daemon tells it.  The arguments of the program that
  \<open>RunChooser\<close> executes are the words of the resource and three options; a chooser with the resources
  these options give reports a choice to the daemon's port at this host's address, naming the client and
  the type of its connection as the display has them.\<close>

theorem RunChooser_understood:
  assumes "RunChooser Y db (Some addr) la d = Inr (e, cs)" "memory (y_ext Y)" "se_chooser (d_session d) = Some prog"
    and "NetaddrPort addr = (Some port, 2)" "length port = 2"
    and "getLocalAddress (y_ext Y) la = (a, la')" "length a = 4 \<or> length a = 16"
    and "d_clientAddr d \<noteq> []" "length (d_clientAddr d) \<le> 504"
  shows "\<exists>x c t hosts argv. argv = parse_words [] prog @ [''-xdmaddress'', x, ''-clientaddress'', c, ''-connectionType'', t] @ hosts \<and>
    Execve (hd argv) argv (system_env Y d) \<in> set cs \<and>
    (\<forall>C h s. (\<forall>n. x_array8_alloc (c_ext C) n) \<and> c_app C = resources_of (c_ext C) x c t \<and> c_connect C (answer_address port a) \<longrightarrow>
       Choose C h s = Inr (None, happens (Reported (answer_address port a)
         [WARRAY8 (d_clientAddr d), WCARD16 (d_connectionType d), WARRAY8 (hn_hostaddr h)]) s))"
proof -
  let ?x = "concat (map hex_byte (xdm_bytes port a))" and ?c = "concat (map hex_byte (d_clientAddr d))"
  let ?t = "show_nat (unat (d_connectionType d))"
  obtain xs args ys where r: "chooser_args (y_ext Y) db (Some addr) la d = Inr args"
      "(case args of None \<Rightarrow> Inl NullDeref
       | Some a \<Rightarrow> mapE (\<lambda>(ran, cs'). (if ran then Becomes else Exits REMANAGE_DISPLAY, xs @ cs')) (execute Y a (system_env Y d))) =
          Inr (e, cs)"
    using assms(1) by (auto simp: RunChooser_def bindE_Inr_iff split: option.splits)
  have x: "FormatChooserArgument (y_ext Y) (Some addr) la 1012 = (Some ?x, la')"
    by (rule FormatChooserArgument_bytes [OF assms(4,6,7)])
  have "xdm_bytes port a \<noteq> []" by (simp add: xdm_bytes_def)
  note xn = hex_nonempty [OF this] hex_no_blank [of "xdm_bytes port a"]
  have c: "FormatARRAY8 (d_clientAddr d) 1009 = Some ?c"
    unfolding FormatARRAY8_def using assms(9) by (intro FormatBytes_hex) simp
  obtain hosts where args: "args = Some (parse_words [] prog @
      [''-xdmaddress'', ?x, ''-clientaddress'', ?c, ''-connectionType'', ?t] @ hosts)"
    using chooser_args_shape [OF assms(2,3) x xn c hex_nonempty [OF assms(8)] hex_no_blank r(1)] by blast
  define argv where "argv = parse_words [] prog @ [''-xdmaddress'', ?x, ''-clientaddress'', ?c, ''-connectionType'', ?t] @ hosts"
  have "argv \<noteq> []" by (simp add: argv_def)
  then have ex: "Execve (hd argv) argv (system_env Y d) \<in> set cs"
    using r(2) unfolding args argv_def [symmetric] option.case
    by (cases argv) (auto simp: mapE_Inr_iff execute_def Let_def case_prod_beta split: option.splits exec_error.splits if_splits)
  have ch: "Choose C h s = Inr (None, happens (Reported (answer_address port a)
      [WARRAY8 (d_clientAddr d), WCARD16 (d_connectionType d), WARRAY8 (hn_hostaddr h)]) s)"
    if m: "\<forall>n. x_array8_alloc (c_ext C) n" and app: "c_app C = resources_of (c_ext C) ?x ?c ?t" and con: "c_connect C (answer_address port a)"
    for C h s
  proof -
    have "FormatBytes (xdm_bytes port a) (length (xdm_bytes port a) * 2 + 1) = Some ?x"
      "FormatBytes (d_clientAddr d) (length (d_clientAddr d) * 2 + 1) = Some ?c" by (rule FormatBytes_hex, simp)+
    then have "CvtStringToARRAY8 (c_ext C) ?x = xdm_bytes port a" "CvtStringToARRAY8 (c_ext C) ?c = d_clientAddr d"
      using Cvt_FormatBytes m by blast+
    moreover have "(word_of_int (digits_value ?t) :: CARD16) = d_connectionType d"
      using show_nat_digits [of "unat (d_connectionType d)"] by simp
    ultimately show ?thesis
      using con xdm_bytes_address [OF assms(5,7)] unfolding Choose_def Let_def app resources_of_def by simp
  qed
  show ?thesis
    by (intro exI [of _ ?x] exI [of _ ?c] exI [of _ ?t] exI [of _ hosts] exI [of _ argv] conjI allI impI)
      (rule argv_def, rule ex, rule ch, auto)
qed

definition chooser_display :: display where
  "chooser_display = sample_display\<lparr>d_clientAddr := [10, 0, 0, 7], d_useChooser := True,
     d_session := (d_session sample_display)\<lparr>se_chooser := Some ''chooser''\<rparr>\<rparr>"

lemma RunChooser_understood_witness:
  "\<exists>x c t hosts argv. argv = [''chooser'', ''-xdmaddress'', x, ''-clientaddress'', c, ''-connectionType'', t] @ hosts \<and>
    (c_app sample_chooser = resources_of std_ext x c t \<longrightarrow>
       Choose sample_chooser (sample_entry ''ada'' True 1) no_hosts = Inr (None, happens (Reported (SockIn [4, 1] [10, 0, 0, 5])
         [WARRAY8 [10, 0, 0, 7], WCARD16 0, WARRAY8 [10, 0, 0, 1]]) no_hosts))"
proof -
  have "case RunChooser sample_sys [] (Some (SockIn [4, 1] [0, 0, 0, 0])) (Some [10, 0, 0, 5]) chooser_display of
      Inl e \<Rightarrow> False | Inr r \<Rightarrow> True"
    by code_simp
  then obtain e cs where r: "RunChooser sample_sys [] (Some (SockIn [4, 1] [0, 0, 0, 0])) (Some [10, 0, 0, 5]) chooser_display = Inr (e, cs)"
    by (auto split: sum.splits)
  have m: "memory (y_ext sample_sys)" by (simp add: sample_sys_def std_ext_def memory_def)
  have d: "se_chooser (d_session chooser_display) = Some ''chooser''" "d_clientAddr chooser_display = [10, 0, 0, 7]"
      "d_connectionType chooser_display = 0"
    by (simp_all add: chooser_display_def sample_display_def new_display_def)
  have a: "NetaddrPort (SockIn [4, 1] [0, 0, 0, 0]) = (Some [4, 1], 2)" "length [4 :: CARD8, 1] = 2"
      "getLocalAddress (y_ext sample_sys) (Some [10, 0, 0, 5]) = ([10, 0, 0, 5], Some [10, 0, 0, 5])"
      "length [10 :: CARD8, 0, 0, 5] = 4 \<or> length [10 :: CARD8, 0, 0, 5] = 16" "d_clientAddr chooser_display \<noteq> []" "length (d_clientAddr chooser_display) \<le> 504"
    using d by (simp_all add: getLocalAddress_def)
  have p: "parse_words [] ''chooser'' = [''chooser'']" by (simp add: isblank_def)
  have c: "c_ext sample_chooser = std_ext" "\<forall>n. x_array8_alloc std_ext n" "c_connect sample_chooser (answer_address [4, 1] [10, 0, 0, 5])"
    by (simp_all add: sample_chooser_def std_ext_def)
  have v: "answer_address [4, 1] [10, 0, 0, 5] = SockIn [4, 1] [10, 0, 0, 5]" "hn_hostaddr (sample_entry ''ada'' True 1) = [10, 0, 0, 1]"
    by (simp_all add: answer_address_def sample_entry_def)
  obtain x c' t hosts argv where "argv = [''chooser''] @ [''-xdmaddress'', x, ''-clientaddress'', c', ''-connectionType'', t] @ hosts"
    "\<forall>(C :: CARD8 list chooser_host) h s. (\<forall>n. x_array8_alloc (c_ext C) n) \<and> c_app C = resources_of (c_ext C) x c' t \<and> c_connect C (answer_address [4, 1] [10, 0, 0, 5]) \<longrightarrow>
       Choose C h s = Inr (None, happens (Reported (answer_address [4, 1] [10, 0, 0, 5])
         [WARRAY8 (d_clientAddr chooser_display), WCARD16 (d_connectionType chooser_display), WARRAY8 (hn_hostaddr h)]) s)"
    using RunChooser_understood [OF r m d(1) a, unfolded p] by blast
  then show ?thesis using c unfolding d(2,3) v
    by (intro exI [of _ x] exI [of _ c'] exI [of _ t] exI [of _ hosts] exI [of _ argv]) (auto simp: v)
qed

section \<open>Reading what was written\<close>

text \<open>The readers return the items that were written, one after the other.\<close>

fun read_item :: "'b reader \<Rightarrow> xdm_write \<Rightarrow> 'b \<Rightarrow> 'b option" where
  "read_item R (WHeader v opc l) b = (case r_header R b of Some (h, b') \<Rightarrow> if h = (v, opc, l) then Some b' else None | None \<Rightarrow> None)"
| "read_item R (WCARD8 x) b = (case r_card8 R b of Some (y, b') \<Rightarrow> if y = x then Some b' else None | None \<Rightarrow> None)"
| "read_item R (WCARD16 x) b = (case r_card16 R b of Some (y, b') \<Rightarrow> if y = x then Some b' else None | None \<Rightarrow> None)"
| "read_item R (WCARD32 x) b = (case r_card32 R b of Some (y, b') \<Rightarrow> if y = x then Some b' else None | None \<Rightarrow> None)"
| "read_item R (WARRAY8 x) b = (case r_array8 R b of Some (y, b') \<Rightarrow> if y = x then Some b' else None | None \<Rightarrow> None)"
| "read_item R (WARRAYofARRAY8 x) b =
     (case r_arrayofarray8 R b of Some (y, b') \<Rightarrow> if y = x then Some b' else None | None \<Rightarrow> None)"

primrec reads :: "'b reader \<Rightarrow> xdm_write list \<Rightarrow> 'b \<Rightarrow> bool" where
  "reads R [] b = True"
| "reads R (w # ws) b = (case read_item R w b of None \<Rightarrow> False | Some b' \<Rightarrow> reads R ws b')"

lemma RegisterIndirectChoice_put:
  assumes "ext_ok E" "memory E" "\<forall>a. x_array8_copy E a = Some a"
  shows "RegisterIndirectChoice E now a ct v (map Some cs) = Inr (True, map Some (put_choice now (a, ct) v cs))"
proof -
  have "\<exists>cs'. RegisterIndirectChoice E now a ct v (map Some cs) = Inr (True, cs')"
    using assms by (simp add: RegisterIndirectChoice_def find_choice_live memory_def)
  then show ?thesis using RegisterIndirectChoice_True [OF assms(1)] by blast
qed

lemma happens_inj: "happens e s = happens e' s \<longleftrightarrow> e = e'"
proof
  assume "happens e s = happens e' s"
  then have "cs_events (happens e s) = cs_events (happens e' s)" by simp
  then show "e = e'" by (simp add: happens_def)
qed simp

lemma Choose_reported:
  assumes "Choose C h s = Inr (None, happens (Reported addr pkt) s)"
  shows "\<exists>client. ap_clientAddress (c_app C) = Some client \<and>
    pkt = [WARRAY8 client, WCARD16 (word_of_int (ap_connectionType (c_app C))), WARRAY8 (hn_hostaddr h)]"
proof -
  obtain x where x: "ap_xdmAddress (c_app C) = Some x"
    using assms by (cases "ap_xdmAddress (c_app C)") (simp_all add: Choose_def happens_inj)
  obtain r where "xdm_sockaddr x = Inr r" using assms x by (cases "xdm_sockaddr x") (simp_all add: Choose_def)
  moreover from this obtain a where "r = Some a" using assms x by (cases r) (simp_all add: Choose_def)
  ultimately show ?thesis
    using assms x by (cases "ap_clientAddress (c_app C)") (auto simp: Choose_def Let_def happens_inj split: if_splits)
qed

lemma ProcessChooserSocket_answer:
  assumes "reads R [WARRAY8 client, WCARD16 ct, WARRAY8 v] (r_buffer R bytes)" "bytes \<noteq> []"
    and "ext_ok E" "memory E" "\<forall>a. x_array8_copy E a = Some a" "choices_ok cs"
  shows "\<exists>cs'. ProcessChooserSocket E R now (Some bytes) cs = Inr cs' \<and> choices_ok cs' \<and>
    (\<forall>now' t k. choice_at now' t cs' k =
       (if k = (client, ct) then (if now' - now > t then None else Some v) else choice_at now' t cs k))"
proof -
  obtain rs where rs: "cs = map Some rs" "distinct (map ch_key rs)" using assms(6) by (auto simp: choices_ok_iff)
  have p: "ProcessChooserSocket E R now (Some bytes) cs = Inr (map Some (put_choice now (client, ct) v rs))"
    using assms(1,2) RegisterIndirectChoice_put [OF assms(3-5)] unfolding rs(1)
    by (auto simp: ProcessChooserSocket_def split: option.splits prod.splits if_splits)
  show ?thesis
    using p distinct_put_choice [OF rs(2)] live_put_choice [OF rs(2)]
    by (intro exI [of _ "map Some (put_choice now (client, ct) v rs)"])
      (auto simp: choices_ok_iff choice_at_def rs(1) comp_def)
qed

text \<open>What a chooser reports becomes the daemon's choice.  When the daemon's readers return what the
  chooser wrote, the client is from then on told the address of the host that was chosen, until the choice
  expires, and nobody else's choice changes.\<close>

theorem answer_becomes_choice:
  assumes "Choose C h s = Inr (None, happens (Reported addr pkt) s)" "reads R pkt (r_buffer R bytes)" "bytes \<noteq> []"
    and "ext_ok E" "memory E" "\<forall>a. x_array8_copy E a = Some a" "choices_ok cs"
  shows "\<exists>client cs'. ap_clientAddress (c_app C) = Some client \<and>
    ProcessChooserSocket E R now (Some bytes) cs = Inr cs' \<and> choices_ok cs' \<and>
    (\<forall>now' t k. choice_at now' t cs' k =
       (if k = (client, word_of_int (ap_connectionType (c_app C))) then (if now' - now > t then None else Some (hn_hostaddr h))
        else choice_at now' t cs k))"
proof -
  obtain client where c: "ap_clientAddress (c_app C) = Some client"
      "pkt = [WARRAY8 client, WCARD16 (word_of_int (ap_connectionType (c_app C))), WARRAY8 (hn_hostaddr h)]"
    using Choose_reported [OF assms(1)] by blast
  then show ?thesis
    using ProcessChooserSocket_answer [OF assms(2) [unfolded c(2)] assms(3-7), of now] by auto
qed

lemma answer_becomes_choice_witness:
  "\<exists>cs'. ProcessChooserSocket std_ext net_reader 140 (Some [0, 4, 10, 0, 0, 7, 0, 0, 0, 4, 10, 0, 0, 1]) sample_choices = Inr cs' \<and>
     choice_at 150 15 cs' ([10, 0, 0, 7], 0) = Some [10, 0, 0, 1]"
proof -
  let ?h = "sample_entry ''ada'' True 1"
  let ?pkt = "[WARRAY8 [10, 0, 0, 7], WCARD16 0, WARRAY8 [10, 0, 0, 1]]"
  have c: "Choose sample_chooser ?h no_hosts = Inr (None, happens (Reported (SockIn [4, 1] [10, 0, 0, 5]) ?pkt) no_hosts)"
    by code_simp
  have r: "reads net_reader ?pkt (r_buffer net_reader [0, 4, 10, 0, 0, 7, 0, 0, 0, 4, 10, 0, 0, 1])" by code_simp
  have m: "memory std_ext" "\<forall>a. x_array8_copy std_ext a = Some a" by (simp_all add: memory_def std_ext_def)
  have v: "ap_clientAddress (c_app sample_chooser) = Some [10, 0, 0, 7]" "ap_connectionType (c_app sample_chooser) = 0"
      "hn_hostaddr ?h = [10, 0, 0, 1]"
    by (simp_all add: sample_chooser_def sample_entry_def)
  show ?thesis
    using answer_becomes_choice [OF c r _ ext_ok_std m choices_ok_sample, of 140] unfolding v by auto
qed

section \<open>A host that answers\<close>

lemma update_first_split:
  "find_first P xs = Some x \<Longrightarrow> \<exists>ys zs. xs = ys @ x # zs \<and> update_first P f xs = ys @ f x # zs"
proof (induction xs)
  case (Cons a xs)
  show ?case
  proof (cases "P a")
    case True
    then show ?thesis using Cons.prems by (intro exI [of _ "[]"] exI [of _ xs]) simp
  next
    case False
    then obtain ys zs where "xs = ys @ x # zs" "update_first P f xs = ys @ f x # zs" using Cons by auto
    then show ?thesis using False by (intro exI [of _ "a # ys"] exI [of _ zs]) simp
  qed
qed simp

lemma AddHostname_entry:
  assumes C: "ext_ok (c_ext C)" "memory (c_ext C)" "\<forall>n. x_array8_alloc (c_ext C) n" and t: "table_ok s"
  shows "\<exists>r s' h. AddHostname C hostname status addr w s = Inr (r, s') \<and> h \<in> set (cs_hostNamedb s') \<and>
    host_id h = host_key addr \<and> hn_status h = status \<and> (hn_willing h = w \<or> h \<in> set (cs_hostNamedb s)) \<and>
    (\<forall>g. host_id g \<noteq> host_key addr \<longrightarrow> (g \<in> set (cs_hostNamedb s') \<longleftrightarrow> g \<in> set (cs_hostNamedb s)))"
proof -
  note sh = same_host_id [OF C(1)]
  have m: "x_calloc (c_ext C) n" "shown_name (c_ext C) h st = Some (full_name h st)" for n h st
    using C(2) by (simp_all add: memory_def shown_name_def)
  have n: "cs_NameTableSize s = length (cs_hostNamedb s)" using t by (simp add: table_ok_def)
  show ?thesis
  proof (cases "find_first (same_host (c_ext C) addr) (cs_hostNamedb s)")
    case None
    define h where "h = named (c_ext C) w status \<lparr>hn_fullname = '''', hn_willing = False,
      hn_hostname = resolved_name (c_ext C) hostname addr, hn_status = [],
      hn_connectionType = fst (host_key addr), hn_hostaddr = snd (host_key addr)\<rparr>"
    have new: "host_id h = host_key addr" "hn_status h = status" "hn_willing h = w"
      by (simp_all add: h_def) (simp add: host_id_def)
    have a: "\<exists>s'. AddHostname C hostname status addr w s = Inr (True, s') \<and> cs_hostNamedb s' = cs_hostNamedb s @ [h]"
      unfolding AddHostname_def Let_def None option.case h_def [symmetric] using C(3)
      by (simp add: m n RebuildTable_ok)
    then obtain s' where "AddHostname C hostname status addr w s = Inr (True, s')" "cs_hostNamedb s' = cs_hostNamedb s @ [h]"
      by blast
    then show ?thesis using new by (intro exI [of _ True] exI [of _ s'] exI [of _ h]) auto
  next
    case (Some h)
    have hid: "host_id h = host_key addr" "h \<in> set (cs_hostNamedb s)" using find_first_SomeD [OF Some] sh by auto
    show ?thesis
    proof (cases "status = hn_status h")
      case True
      then have "AddHostname C hostname status addr w s = Inr (False, s)"
        using Some C(1) by (simp add: AddHostname_def ext_ok_equal)
      then show ?thesis using hid True by (intro exI [of _ False] exI [of _ s] exI [of _ h]) auto
    next
      case False
      let ?f = "named (c_ext C) w status"
      obtain ys zs where db: "cs_hostNamedb s = ys @ h # zs" "update_first (same_host (c_ext C) addr) ?f (cs_hostNamedb s) = ys @ ?f h # zs"
        using update_first_split [OF Some, of ?f] by blast
      have "\<exists>s'. AddHostname C hostname status addr w s = Inr (True, s') \<and> cs_hostNamedb s' = ys @ ?f h # zs"
        using False n db(1) unfolding AddHostname_def Let_def Some option.case db(2)
        by (simp add: ext_ok_equal [OF C(1)] m RebuildTable_ok)
      then obtain s' where "AddHostname C hostname status addr w s = Inr (True, s')" "cs_hostNamedb s' = ys @ ?f h # zs" by blast
      moreover have "g \<in> set (ys @ ?f h # zs) \<longleftrightarrow> g \<in> set (cs_hostNamedb s)" if "host_id g \<noteq> host_key addr" for g
        using that hid(1) unfolding db(1) by auto
      ultimately show ?thesis using hid(1) by (intro exI [of _ True] exI [of _ s'] exI [of _ "?f h"]) auto
    qed
  qed
qed

text \<open>The chooser lists a host whose daemon answers that it is willing.  When the readers return what
  \<open>send_willing\<close> wrote, the host's address has an entry with the status that was sent, which says that
  it is willing unless the host had sent the same status before, and the other entries stay.\<close>

theorem willing_host_is_listed:
  assumes C: "ext_ok (c_ext C)" "memory (c_ext C)" "\<forall>n. x_array8_alloc (c_ext C) n" "table_ok s"
    and w: "w_trace (send_willing E from an st fd w) = Packet fd from pkt # w_trace w"
    and r: "reads (c_reader C) pkt (r_buffer (c_reader C) bytes)"
    and l: "6 + length an + length (localHostname E) + length st < 2 ^ 16"
  shows "\<exists>s' h. ReceivePacket C (Some bytes) addr s = Inr s' \<and> h \<in> set (cs_hostNamedb s') \<and> host_id h = host_key addr \<and>
    hn_status h = st \<and> (hn_willing h \<or> h \<in> set (cs_hostNamedb s)) \<and>
    (\<forall>g. host_id g \<noteq> host_key addr \<longrightarrow> (g \<in> set (cs_hostNamedb s') \<longleftrightarrow> g \<in> set (cs_hostNamedb s)))"
proof -
  let ?R = "c_reader C" and ?n = "bytes_of (localHostname E)"
  define len where "len = 6 + length an + length ?n + length st"
  have p: "pkt = [header WILLING len, WARRAY8 an, WARRAY8 ?n, WARRAY8 st]"
    using w by (simp add: send_willing_def flush_def emit_def Let_def len_def)
  obtain b b1 b2 b3 where b: "r_header ?R (r_buffer ?R bytes) = Some ((1, opcode WILLING, of_nat len), b)"
      "r_array8 ?R b = Some (an, b1)" "r_array8 ?R b1 = Some (?n, b2)" "r_array8 ?R b2 = Some (st, b3)"
    using r unfolding p header_def
    by (auto split: option.splits prod.splits if_splits)
  have u: "unat (of_nat len :: CARD16) = len" unfolding unat_of_nat using l by (simp add: len_def)
  have "ReceivePacket C (Some bytes) addr s = mapE snd (AddHostname C ?n st addr True s)"
    unfolding ReceivePacket_def Let_def option.case b prod.case u by (simp add: len_def)
  then show ?thesis using AddHostname_entry [OF C, of ?n st addr True] by force
qed

lemma willing_host_is_listed_witness:
  "\<exists>s' h. ReceivePacket sample_chooser (Some [0, 1, 0, 5, 0, 11, 0, 0, 0, 4, 104, 101, 114, 101, 0, 1, 66])
      (SockIn [0, 177] [10, 0, 0, 1]) no_hosts = Inr s' \<and>
    h \<in> set (cs_hostNamedb s') \<and> host_id h = (FamilyInternet, [10, 0, 0, 1]) \<and> hn_status h = [66] \<and> hn_willing h"
proof -
  let ?pkt = "[header WILLING 11, WARRAY8 [], WARRAY8 [104, 101, 114, 101], WARRAY8 [66]]"
  let ?bytes = "[0, 1, 0, 5, 0, 11, 0, 0, 0, 4, 104, 101, 114, 101, 0, 1, 66]"
  let ?w = "\<lparr>w_displays = st_empty, w_trace = []\<rparr>"
  have w: "w_trace (send_willing std_ext (SockIn [0, 177] [10, 0, 0, 7]) [] [66] 5 ?w) =
      Packet 5 (SockIn [0, 177] [10, 0, 0, 7]) ?pkt # w_trace ?w"
    by (simp add: send_willing_def flush_def emit_def localHostname_def std_ext_def bytes_of_def header_def)
  have r: "reads (c_reader sample_chooser) ?pkt (r_buffer (c_reader sample_chooser) ?bytes)" by code_simp
  have m: "\<forall>n. x_array8_alloc (c_ext sample_chooser) n" "table_ok no_hosts"
    by (simp_all add: sample_chooser_def std_ext_def table_ok_def no_hosts_def)
  have l: "6 + length ([] :: ARRAY8) + length (localHostname std_ext) + length [66 :: CARD8] < 2 ^ 16"
    by (simp add: localHostname_def std_ext_def)
  have n: "cs_hostNamedb no_hosts = []" by (simp add: no_hosts_def)
  have k: "host_key (SockIn [0, 177] [10, 0, 0, 1]) = (FamilyInternet, [10, 0, 0, 1])" by (simp add: host_key_def)
  show ?thesis
    using willing_host_is_listed [OF sample_chooser_ok(1,2) m w r l, of "SockIn [0, 177] [10, 0, 0, 1]", unfolded n k] by auto
qed

end
