(* ===== verification/Indirect.thy ===== *)
theory Indirect
  imports Run_Chooser
begin

text \<open>
  An indirect query from its first to its last message: the client's user has chosen a host in the
  chooser, the chooser has told the daemon, and the client, whose session has ended, asks again.
\<close>

section \<open>A client with a choice\<close>

lemma IndirectChoice_at:
  assumes "ext_ok E" "choices_ok cs"
  shows "\<exists>cs'. IndirectChoice E now t a ct cs = Inr (choice_at now t cs (a, ct), cs') \<and> choices_ok cs'"
proof -
  obtain rs where rs: "cs = map Some rs" "distinct (map ch_key rs)" using assms(2) by (auto simp: choices_ok_iff)
  then show ?thesis
    using IndirectChoice_live [OF assms(1), of now t a ct rs] distinct_purge [OF rs(2), of now t "(a, ct)"]
    by (auto simp: choice_at_def choices_ok_iff comp_def)
qed

text \<open>The client is one whose queries a chooser answers.\<close>

definition chooser_client :: "ext \<Rightarrow> database \<Rightarrow> ARRAY8 \<Rightarrow> CARD16 \<Rightarrow> bool" where
  "chooser_client E db a ct \<longleftrightarrow>
     (case indirect_entry E a ct db of Inr (Some d) \<Rightarrow> \<not> de_notAllowed d \<and> de_chooser d | _ \<Rightarrow> False)"

lemma chooser_client_choice:
  assumes "chooser_client E db a ct" "IndirectChoice E now t a ct cs = Inr (Some v, cs')" "\<not> isLocalAddress E v ct"
  shows "ForEachMatchingIndirectHost E now t db a ct f s cs = Inr (False, f ct v s, cs')"
  using assms by (auto simp: chooser_client_def ForEachMatchingIndirectHost_def split: sum.splits option.splits)


text \<open>The terminal 10.0.0.7 and the host 10.0.0.1, half a minute later.\<close>

definition indirect_host :: "((string \<times> string) list, CARD8 list) xdm_host" where
  "indirect_host = sample_host\<lparr>h_now := 145\<rparr>"

definition indirect_daemon :: "(string \<times> string) list xdm_state" where
  "indirect_daemon = (sample_daemon (Some ''Xaccess''))\<lparr>xs_database := [sample_db ! 1]\<rparr>"


end
