(* ===== verification/Startup.thy ===== *)
theory Startup
  imports Resource
begin

text \<open>
  The first steps of the daemon's \<open>main\<close> (\<open>xdm/dm.c\<close>): who may start it, how it detaches
  (\<open>xdm/daemon.c\<close>, in a build whose C library has no \<open>daemon\<close>), and where its messages go
  (\<open>xdm/error.c\<close>).

  The descriptors of a process are a list: the entry at an index is the file that is open there, by its
  absolute name.  \<open>open\<close> takes the lowest index that is free.  What the process writes through its
  standard error is kept with the name of the file it goes to.
\<close>

section \<open>Descriptors\<close>

type_synonym descriptors = "string option list"

definition fd_at :: "descriptors \<Rightarrow> nat \<Rightarrow> string option" where
  "fd_at t n = (if n < length t then t ! n else None)"

definition put_fd :: "nat \<Rightarrow> string option \<Rightarrow> descriptors \<Rightarrow> descriptors" where
  "put_fd n f t = (t @ replicate (Suc n - length t) None)[n := f]"

definition lowest_free :: "descriptors \<Rightarrow> nat" where
  "lowest_free t = length (takeWhile (\<lambda>f. f \<noteq> None) t)"

definition open_fd :: "string \<Rightarrow> descriptors \<Rightarrow> nat \<times> descriptors" where
  "open_fd f t = (lowest_free t, put_fd (lowest_free t) (Some f) t)"

definition close_descriptor :: "nat \<Rightarrow> descriptors \<Rightarrow> descriptors" where
  "close_descriptor n t = put_fd n None t"

text \<open>\<open>dup2\<close> of a descriptor that is not open does nothing.\<close>

definition dup2 :: "nat \<Rightarrow> nat \<Rightarrow> descriptors \<Rightarrow> descriptors" where
  "dup2 a b t = (if fd_at t a = None then t else put_fd b (fd_at t a) t)"

record process =
  pr_cwd :: string
  pr_fds :: descriptors
  pr_messages :: "(string \<times> string) list"

record start_host =
  sh_uid :: int
  sh_pid :: int
  sh_fork :: int
  sh_setsid :: bool
  sh_open :: "string \<Rightarrow> bool"
  sh_creat :: "string \<Rightarrow> bool"
  sh_strerror :: string

definition absolute :: "string \<Rightarrow> string \<Rightarrow> string" where
  "absolute cwd f = (if first_is CHR ''/'' f then f else if cwd = ''/'' then CHR ''/'' # f else cwd @ CHR ''/'' # f)"

section \<open>Messages\<close>

abbreviation (input) STDERR_FILENO :: nat where "STDERR_FILENO \<equiv> 2"

definition LogVWrite :: "string \<Rightarrow> process \<Rightarrow> process" where
  "LogVWrite text p =
     (case fd_at (pr_fds p) STDERR_FILENO of
        None \<Rightarrow> p
      | Some f \<Rightarrow> p\<lparr>pr_messages := pr_messages p @ [(f, snprintf_keep 1024 text)]\<rparr>)"

text \<open>\<open>fprintf\<close> to the standard error keeps the whole text.\<close>

definition print_error :: "string \<Rightarrow> process \<Rightarrow> process" where
  "print_error text p =
     (case fd_at (pr_fds p) STDERR_FILENO of
        None \<Rightarrow> p
      | Some f \<Rightarrow> p\<lparr>pr_messages := pr_messages p @ [(f, text)]\<rparr>)"

definition LogOutOfMem :: "string \<Rightarrow> process \<Rightarrow> process" where
  "LogOutOfMem text p = print_error (''xdm: out of memory in routine '' @ text) p"

definition log_header :: "string \<Rightarrow> int \<Rightarrow> string" where
  "log_header kind pid = ''xdm '' @ kind @ '' (pid '' @ show_int pid @ ''): ''"

definition LogAppend :: "string \<Rightarrow> process \<Rightarrow> process" where
  "LogAppend text p = LogVWrite text p"

definition LogInfo :: "start_host \<Rightarrow> string \<Rightarrow> process \<Rightarrow> process" where
  "LogInfo H text p = LogVWrite text (LogAppend (log_header ''info'' (sh_pid H)) p)"

definition LogError :: "start_host \<Rightarrow> string \<Rightarrow> process \<Rightarrow> process" where
  "LogError H text p = LogVWrite text (LogAppend (log_header ''error'' (sh_pid H)) p)"

text \<open>The result is the status the process exits with.\<close>

definition LogPanic :: "start_host \<Rightarrow> string \<Rightarrow> process \<Rightarrow> int \<times> process" where
  "LogPanic H text p = (1, LogVWrite text (LogAppend (log_header ''panic'' (sh_pid H)) p))"

definition Debug :: "int \<Rightarrow> string \<Rightarrow> process \<Rightarrow> process" where
  "Debug debugLevel text p = (if 0 < debugLevel then LogVWrite text p else p)"

definition InitErrorLog :: "start_host \<Rightarrow> dm_globals \<Rightarrow> process \<Rightarrow> c_error + process" where
  "InitErrorLog H g p =
     (case g_errorLogFile g of
        None \<Rightarrow> Inl NullDeref
      | Some f \<Rightarrow>
          (if f = '''' then Inr p
           else (let path = absolute (pr_cwd p) f
                 in if \<not> sh_creat H path then Inr (LogError H (''Cannot open errorLogFile '' @ f @ [CHR 0x0A]) p)
                    else (let (i, t) = open_fd path (pr_fds p)
                          in Inr (p\<lparr>pr_fds := (if i \<noteq> STDERR_FILENO then close_descriptor i (dup2 i STDERR_FILENO t) else t)\<rparr>)))))"

section \<open>Becoming a daemon\<close>

text \<open>The status of a process that exits, None for the child that goes on.\<close>

definition BecomeDaemon :: "start_host \<Rightarrow> process \<Rightarrow> int option \<times> process" where
  "BecomeDaemon H p =
     (if sh_fork H = - 1 then (Some 1, LogError H (''daemon fork failed, '' @ sh_strerror H @ [CHR 0x0A]) p)
      else if sh_fork H \<noteq> 0 then (Some 0, p)
      else if \<not> sh_setsid H then (Some 1, LogError H (''setting session id for daemon failed: '' @ sh_strerror H @ [CHR 0x0A]) p)
      else
        (let t = close_descriptor 2 (close_descriptor 1 (close_descriptor 0 (pr_fds p)));
             t1 = (if sh_open H ''/dev/null'' then snd (open_fd ''/dev/null'' t) else t)
         in (None, p\<lparr>pr_cwd := ''/'', pr_fds := dup2 0 2 (dup2 0 1 t1)\<rparr>)))"

text \<open>The file mode mask with which \<open>main\<close> goes on, given the one it was started with.\<close>

definition begin_umask :: "16 word \<Rightarrow> 16 word" where
  "begin_umask oldumask = (if and oldumask 2 = 2 then oldumask else 18)"

text \<open>The start of \<open>main\<close> after the configuration has been read.\<close>

definition begin_main :: "string \<Rightarrow> start_host \<Rightarrow> dm_globals \<Rightarrow> process \<Rightarrow> c_error + (int option \<times> process)" where
  "begin_main argv0 H g p =
     (if g_debugLevel g = 0 \<and> sh_uid H \<noteq> 0
      then Inr (Some 1, print_error (''Only root wants to run '' @ argv0 @ [CHR 0x0A]) p)
      else
        (let (status, p1) = (if g_debugLevel g = 0 \<and> g_daemonMode g then BecomeDaemon H p else (None, p))
         in case status of
              Some c \<Rightarrow> Inr (Some c, p1)
            | None \<Rightarrow> mapE (Pair None) (if g_debugLevel g = 0 then InitErrorLog H g p1 else Inr p1)))"

section \<open>Facts\<close>

lemma fd_at_put: "fd_at (put_fd n f t) m = (if m = n then f else fd_at t m)"
  by (auto simp: fd_at_def put_fd_def nth_append nth_list_update)

lemma fd_at_close [simp]: "fd_at (close_descriptor n t) m = (if m = n then None else fd_at t m)"
  by (simp add: close_descriptor_def fd_at_put)

lemma fd_at_dup2 [simp]: "fd_at (dup2 a b t) m = (if fd_at t a \<noteq> None \<and> m = b then fd_at t a else fd_at t m)"
  by (simp add: dup2_def fd_at_put)

lemma lowest_free_spec: "fd_at t (lowest_free t) = None \<and> (\<forall>n < lowest_free t. fd_at t n \<noteq> None)"
proof
  show "fd_at t (lowest_free t) = None"
    by (auto simp: fd_at_def lowest_free_def dest: nth_length_takeWhile)
  show "\<forall>n < lowest_free t. fd_at t n \<noteq> None"
  proof (intro allI impI)
    fix n assume n: "n < lowest_free t"
    then have "takeWhile (\<lambda>f. f \<noteq> None) t ! n \<noteq> None"
      unfolding lowest_free_def using nth_mem set_takeWhileD by fastforce
    moreover have "n < length t"
      using n length_takeWhile_le [of "\<lambda>f. f \<noteq> None" t] unfolding lowest_free_def by linarith
    ultimately show "fd_at t n \<noteq> None" using n by (simp add: fd_at_def lowest_free_def takeWhile_nth)
  qed
qed

lemma lowest_free_eq: "fd_at t n = None \<Longrightarrow> \<forall>m < n. fd_at t m \<noteq> None \<Longrightarrow> lowest_free t = n"
  using lowest_free_spec [of t] by (metis nat_neq_iff)

lemma open_fd_at: "open_fd f t = (i, t') \<Longrightarrow> i = lowest_free t \<and> fd_at t' m = (if m = i then Some f else fd_at t m)"
  by (auto simp: open_fd_def fd_at_put)

text \<open>Redirecting the messages changes the standard error and nothing else.\<close>

lemma InitErrorLog_fds:
  assumes "g_errorLogFile g = Some f" "f \<noteq> ''''" "sh_creat H (absolute (pr_cwd p) f)"
  shows "\<exists>t. InitErrorLog H g p = Inr (p\<lparr>pr_fds := t\<rparr>) \<and>
    (\<forall>m. fd_at t m = (if m = STDERR_FILENO then Some (absolute (pr_cwd p) f) else fd_at (pr_fds p) m))"
proof -
  obtain i t where o: "open_fd (absolute (pr_cwd p) f) (pr_fds p) = (i, t)" by fastforce
  note at = open_fd_at [OF o]
  have free: "fd_at (pr_fds p) i = None" using at lowest_free_spec by metis
  show ?thesis
    using assms o at free by (auto simp: InitErrorLog_def)
qed

lemma BecomeDaemon_fds:
  assumes "sh_fork H = 0" "sh_setsid H" "sh_open H ''/dev/null''"
  shows "\<exists>t. BecomeDaemon H p = (None, p\<lparr>pr_cwd := ''/'', pr_fds := t\<rparr>) \<and>
    (\<forall>m. fd_at t m = (if m \<le> 2 then Some ''/dev/null'' else fd_at (pr_fds p) m))"
proof -
  let ?t = "close_descriptor 2 (close_descriptor 1 (close_descriptor 0 (pr_fds p)))"
  obtain i t where o: "open_fd ''/dev/null'' ?t = (i, t)" by fastforce
  have "lowest_free ?t = 0" by (rule lowest_free_eq) simp_all
  then have at: "fd_at t m = (if m = 0 then Some ''/dev/null'' else fd_at ?t m)" for m
    using open_fd_at [OF o] by auto
  have "BecomeDaemon H p = (None, p\<lparr>pr_cwd := ''/'', pr_fds := dup2 0 2 (dup2 0 1 t)\<rparr>)"
    using assms o by (simp add: BecomeDaemon_def Let_def)
  moreover have "fd_at (dup2 0 2 (dup2 0 1 t)) m = (if m \<le> 2 then Some ''/dev/null'' else fd_at (pr_fds p) m)" for m
    by (auto simp: at)
  ultimately show ?thesis by blast
qed

lemma begin_umask_spec: "and (begin_umask m) 2 = 2"
  by (simp add: begin_umask_def)

section \<open>Properties\<close>

text \<open>C33: a daemon that has detached reads from and prints to nothing, writes its messages to the error
  log, which is looked up from the root directory, and has no other descriptor than before.\<close>

theorem daemon_descriptors:
  assumes "begin_main argv0 H g p = Inr (None, p')" "g_debugLevel g = 0" "g_daemonMode g" "sh_open H ''/dev/null''"
    and "g_errorLogFile g = Some f" "f \<noteq> ''''" "sh_creat H (absolute ''/'' f)"
  shows "sh_uid H = 0 \<and> sh_fork H = 0 \<and> pr_cwd p' = ''/'' \<and> pr_messages p' = pr_messages p \<and>
    fd_at (pr_fds p') 0 = Some ''/dev/null'' \<and> fd_at (pr_fds p') 1 = Some ''/dev/null'' \<and>
    fd_at (pr_fds p') 2 = Some (absolute ''/'' f) \<and> (\<forall>m > 2. fd_at (pr_fds p') m = fd_at (pr_fds p) m)"
proof -
  have r: "sh_uid H = 0" "sh_fork H = 0" "sh_setsid H"
    using assms(1-3) by (auto simp: begin_main_def BecomeDaemon_def Let_def split: if_splits)
  obtain t where t: "BecomeDaemon H p = (None, p\<lparr>pr_cwd := ''/'', pr_fds := t\<rparr>)"
      "\<forall>m. fd_at t m = (if m \<le> 2 then Some ''/dev/null'' else fd_at (pr_fds p) m)"
    using BecomeDaemon_fds [OF r(2,3) assms(4)] by blast
  let ?p = "p\<lparr>pr_cwd := ''/'', pr_fds := t\<rparr>"
  obtain t' where "InitErrorLog H g ?p = Inr (?p\<lparr>pr_fds := t'\<rparr>)"
      and t': "\<forall>m. fd_at t' m = (if m = STDERR_FILENO then Some (absolute ''/'' f) else fd_at t m)"
    using InitErrorLog_fds [OF assms(5,6), of H ?p] assms(7) by auto
  then have "p' = ?p\<lparr>pr_fds := t'\<rparr>" using assms(1-3) r t(1) by (simp add: begin_main_def)
  then show ?thesis using r t(2) t' by simp
qed

definition root_host :: start_host where
  "root_host = \<lparr>sh_uid = 0, sh_pid = 71, sh_fork = 0, sh_setsid = True, sh_open = (\<lambda>f. True), sh_creat = (\<lambda>f. True),
     sh_strerror = []\<rparr>"

definition started_process :: process where
  "started_process = \<lparr>pr_cwd = ''/root'', pr_fds = [Some ''tty'', Some ''tty'', Some ''tty'', Some ''pipe''],
     pr_messages = []\<rparr>"

definition plain_globals :: dm_globals where
  "plain_globals =
     \<lparr>g_config = None, g_servers = None, g_request_port = 177, g_debugLevel = 0,
       g_errorLogFile = Some ''xdm.log'', g_daemonMode = True, g_pidFile = None, g_lockPidFile = False, g_authDir = None,
       g_autoRescan = True, g_removeDomainname = True, g_keyFile = None, g_accessFile = None,
       g_exportList = None, g_randomFile = None, g_prngdSocket = None, g_prngdPort = 0,
       g_randomDevice = None, g_greeterLib = None, g_choiceTimeout = 15, g_sourceAddress = False,
       g_willing = None\<rparr>"

theorem daemon_descriptors_witness:
  "fd_at (pr_fds (snd (projr (begin_main ''xdm'' root_host plain_globals started_process)))) 2 = Some ''/xdm.log''"
proof -
  obtain p' where r: "begin_main ''xdm'' root_host plain_globals started_process = Inr (None, p')"
    by (simp add: begin_main_def root_host_def plain_globals_def BecomeDaemon_def InitErrorLog_def Let_def split_def)
  have "absolute ''/'' ''xdm.log'' = ''/xdm.log''" by (simp add: absolute_def first_is_def)
  then show ?thesis
    using daemon_descriptors [OF r, of "''xdm.log''"] r by (simp add: plain_globals_def root_host_def)
qed

end
