(* ===== verification/Prng.thy ===== *)
theory Prng
  imports Genauth Util
begin

text \<open>
  The sources of randomness behind \<open>xdm/genauth.c\<close>: the client of the random number daemon
  (\<open>xdm/prngc.c\<close>) and the files that are summed into the entropy pool.

  A connection is the list of answers its reads and writes get, in order: an error, or an amount that
  was moved (nothing moved is the end of the stream).  A list that runs out is a call that never
  returns.  \<open>errno\<close> is threaded through, since the code looks at it after calls that do not set it.
\<close>

section \<open>Reading and writing everything\<close>

datatype errno = NoError | EINTR | EAGAIN | EWOULDBLOCK | EPIPE | EOther

datatype 'a answer = Failed errno | Moved 'a

text \<open>\<open>f pos n\<close> is the system call on the last \<open>n\<close> bytes from \<open>pos\<close> on: from what the answer
  moves, it gives the count and the changed buffer or wire.  The result is the count that is
  returned, the last \<open>errno\<close>, the answers that are left and the buffer or wire.\<close>

fun atomicio ::
    "(nat \<Rightarrow> nat \<Rightarrow> 'a \<Rightarrow> 's \<Rightarrow> nat \<times> 's) \<Rightarrow> nat \<Rightarrow> nat \<Rightarrow> 'a answer list \<Rightarrow> errno \<Rightarrow> 's \<Rightarrow>
     c_error + (int \<times> errno \<times> 'a answer list \<times> 's)" where
  "atomicio f n pos answers err s =
     (if \<not> pos < n then Inr (int pos, err, answers, s)
      else case answers of
             [] \<Rightarrow> Inl NoReturn
           | Failed e # later \<Rightarrow>
               (if e = EINTR \<or> e = EAGAIN \<or> e = EWOULDBLOCK then atomicio f n pos later e s
                else Inr (- 1, e, later, s))
           | Moved a # later \<Rightarrow>
               (let (res, s') = f pos (n - pos) a s
                in if res = 0 then Inr (0, err, later, s') else atomicio f n (pos + res) later err s'))"

declare atomicio.simps [simp del]

text \<open>\<open>write\<close> takes at most what it is given, \<open>read\<close> gives at most what there is room for.\<close>

definition write_call :: "CARD8 list \<Rightarrow> nat \<Rightarrow> nat \<Rightarrow> nat \<Rightarrow> CARD8 list \<Rightarrow> nat \<times> CARD8 list" where
  "write_call msg pos n k wire = (min k n, wire @ take (min k n) (drop pos msg))"

definition store_at :: "nat \<Rightarrow> CARD8 list \<Rightarrow> CARD8 list \<Rightarrow> CARD8 list" where
  "store_at pos bs buf = take pos buf @ bs @ drop (pos + length bs) buf"

definition read_call :: "nat \<Rightarrow> nat \<Rightarrow> CARD8 list \<Rightarrow> CARD8 list \<Rightarrow> nat \<times> CARD8 list" where
  "read_call pos n bs buf = (length (take n bs), store_at pos (take n bs) buf)"

section \<open>The random number daemon\<close>

datatype attempt =
    NoSocket errno
  | NoConnect errno
  | Connected "nat answer list" "CARD8 list answer list"

datatype prng_event =
    IgnoreSigpipe
  | RestoreSigpipe
  | OpenedSocket nat
  | ClosedSocket nat
  | SentRequest nat "CARD8 list"

text \<open>The loop from the label \<open>reopen\<close> to the label \<open>done\<close>.  The descriptor of an attempt is
  named by its number.  The result is \<open>rval\<close>, the buffer, and the events.\<close>

function prngd_reopen ::
    "(nat \<Rightarrow> attempt) \<Rightarrow> nat \<Rightarrow> nat \<Rightarrow> errno \<Rightarrow> CARD8 list \<Rightarrow> prng_event list \<Rightarrow>
     c_error + (int \<times> CARD8 list \<times> prng_event list)" where
  "prngd_reopen attempts len errors err buf tr =
     (case attempts errors of
        NoSocket e \<Rightarrow> Inr (- 1, buf, tr @ [RestoreSigpipe])
      | NoConnect e \<Rightarrow> Inr (- 1, buf, tr @ [OpenedSocket errors, RestoreSigpipe, ClosedSocket errors])
      | Connected wr rd \<Rightarrow>
          (let msg = [2, of_nat len]
           in case atomicio (write_call msg) 2 0 wr err [] of
                Inl e \<Rightarrow> Inl e
              | Inr (n, err1, _, wire) \<Rightarrow>
                  (let tr1 = tr @ [OpenedSocket errors, SentRequest errors wire]
                   in if n \<noteq> 2
                      then (if err1 = EPIPE \<and> errors < 10
                            then prngd_reopen attempts len (errors + 1) err1 buf (tr1 @ [ClosedSocket errors])
                            else Inr (- 1, buf, tr1 @ [RestoreSigpipe, ClosedSocket errors]))
                      else (case atomicio read_call len 0 rd err1 buf of
                              Inl e \<Rightarrow> Inl e
                            | Inr (m, err2, _, buf1) \<Rightarrow>
                                (if m \<noteq> int len
                                 then (if err2 = EPIPE \<and> errors < 10
                                       then prngd_reopen attempts len (errors + 1) err2 buf1
                                              (tr1 @ [ClosedSocket errors])
                                       else Inr (- 1, buf1, tr1 @ [RestoreSigpipe, ClosedSocket errors]))
                                 else Inr (0, buf1, tr1 @ [RestoreSigpipe, ClosedSocket errors]))))))"
  by pat_completeness auto
termination by (relation "measure (\<lambda>(_, _, errors, _). 10 - errors)") auto

declare prngd_reopen.simps [simp del]

text \<open>\<open>sun_path\<close> holds 108 characters.\<close>

definition get_prngd_bytes ::
    "(nat \<Rightarrow> attempt) \<Rightarrow> errno \<Rightarrow> CARD8 list \<Rightarrow> nat \<Rightarrow> CARD16 \<Rightarrow> string option \<Rightarrow>
     c_error + (int \<times> CARD8 list \<times> prng_event list)" where
  "get_prngd_bytes attempts err buf len tcp_port socket_path =
     (if socket_path = None \<and> tcp_port = 0 then Inr (- 1, buf, [])
      else if socket_path \<noteq> None \<and> 108 \<le> length (the socket_path) then Inr (- 1, buf, [])
      else if 255 < len then Inr (- 1, buf, [])
      else prngd_reopen attempts len 0 err buf [IgnoreSigpipe])"

section \<open>Files as entropy\<close>

datatype whence = SEEK_SET | SEEK_END

text \<open>What the machine and its files are: how four bytes make a word, the answers a file gives
  when it is read from an offset (None when it cannot be opened), and the words of the clock.\<close>

record entropy_host =
  eh_load :: "CARD8 list \<Rightarrow> CARD32"
  eh_file :: "string \<Rightarrow> whence \<Rightarrow> int \<Rightarrow> CARD8 list answer list option"
  eh_clock :: "nat \<Rightarrow> CARD32 list"

definition load_words :: "(CARD8 list \<Rightarrow> CARD32) \<Rightarrow> nat \<Rightarrow> CARD8 list \<Rightarrow> CARD32 list" where
  "load_words ld n buf = map (\<lambda>i. ld (take 4 (drop (4 * i) buf))) [0..<n]"

text \<open>The words that are entered are collected in the order in which \<open>add_entropy\<close> takes them.\<close>

fun sum_reads ::
    "(CARD8 list \<Rightarrow> CARD32) \<Rightarrow> CARD8 list answer list \<Rightarrow> nat \<Rightarrow> nat \<Rightarrow> CARD8 list \<Rightarrow> CARD32 list \<Rightarrow>
     c_error + (int \<times> CARD32 list)" where
  "sum_reads ld answers len readlen buf ws =
     (if \<not> readlen < len then Inr (int readlen, ws)
      else case answers of
             [] \<Rightarrow> Inl NoReturn
           | Failed e # later \<Rightarrow> Inr (- 1, ws)
           | Moved bs # later \<Rightarrow>
               (let (cnt, buf') = read_call 0 0x1000 bs buf
                in if cnt = 0 then Inr (int readlen, ws)
                   else sum_reads ld later len (readlen + cnt) buf' (ws @ load_words ld ((cnt + 3) div 4) buf')))"

declare sum_reads.simps [simp del]

definition sumFile ::
    "entropy_host \<Rightarrow> CARD8 list \<Rightarrow> string \<Rightarrow> nat \<Rightarrow> whence \<Rightarrow> int \<Rightarrow> c_error + (int \<times> CARD32 list)" where
  "sumFile H buf name len whence offset =
     (case eh_file H name whence offset of
        None \<Rightarrow> Inr (- 1, [])
      | Some answers \<Rightarrow> sum_reads (eh_load H) answers len 0 buf [])"

definition AddTimerEntropy :: "entropy_host \<Rightarrow> nat \<Rightarrow> CARD32 list" where
  "AddTimerEntropy H t = eh_clock H t"

definition other_files :: "string list" where
  "other_files = [''/var/log/messages'', ''/var/log/syslog'', ''/var/log/debug'', ''/var/log/kern.log'',
     ''/var/log/daemon.log'']"

primrec sum_files :: "entropy_host \<Rightarrow> CARD8 list \<Rightarrow> string list \<Rightarrow> CARD32 list \<Rightarrow> c_error + CARD32 list" where
  "sum_files H buf [] ws = Inr ws"
| "sum_files H buf (f # fs) ws =
     bindE (sumFile H buf f 0x1000 SEEK_END (- 0x1000)) (\<lambda>(_, ws'). sum_files H buf fs (ws @ ws'))"

definition AddOtherEntropy ::
    "entropy_host \<Rightarrow> (CARD32 \<Rightarrow> CARD32) \<Rightarrow> CARD8 list \<Rightarrow> nat \<Rightarrow> entropy \<Rightarrow> c_error + entropy" where
  "AddOtherEntropy H shr32 buf t e =
     mapE (\<lambda>ws. add_entropy shr32 ws e) (sum_files H buf other_files (AddTimerEntropy H t))"

text \<open>The words, the new offset, and whether the warning about guessable cookies was logged.  The
  second reading stores its result in the offset even when it is an error or is short.\<close>

definition AddPreGetEntropy ::
    "entropy_host \<Rightarrow> CARD8 list \<Rightarrow> string \<Rightarrow> nat \<Rightarrow> int \<Rightarrow> c_error + (CARD32 list \<times> int \<times> bool)" where
  "AddPreGetEntropy H buf randomFile t offset =
     bindE (sumFile H buf randomFile 0x10000 SEEK_SET offset) (\<lambda>(readlen, ws).
       let ws1 = AddTimerEntropy H t @ ws
       in if readlen = 0x10000 then Inr (ws1, offset + readlen, False)
          else if 0 \<le> readlen \<and> offset \<noteq> 0
               then mapE (\<lambda>(offset', ws'). (ws1 @ ws', offset', offset' \<noteq> 0x10000))
                      (sumFile H buf randomFile 0x10000 SEEK_SET 0)
          else Inr (ws1, offset, True))"

section \<open>The key of the generator\<close>

record key_sources =
  ks_device :: "CARD8 list option"
  ks_attempts :: "nat \<Rightarrow> attempt"
  ks_errno :: errno
  ks_tmpkey :: "CARD8 list"
  ks_port :: int
  ks_socket :: "string option"
  ks_file :: string
  ks_stack :: "CARD8 list"

text \<open>\<open>InitXdmcpWrapper\<close> with its sources.  The port is passed as a 16-bit number.  The offset of
  the next reading of the random file goes with the generator.\<close>

definition prngd_key :: "key_sources \<Rightarrow> c_error + CARD8 list option" where
  "prngd_key S =
     (if ks_socket S \<noteq> None \<or> ks_port S \<noteq> 0
      then mapE (\<lambda>(rval, buf, _). if rval = 0 then Some buf else None)
             (get_prngd_bytes (ks_attempts S) (ks_errno S) (ks_tmpkey S) 8 (of_int (ks_port S)) (ks_socket S))
      else Inr None)"

definition InitXdmcpWrapper_from ::
    "des \<Rightarrow> (CARD32 \<Rightarrow> CARD32) \<Rightarrow> entropy_host \<Rightarrow> key_sources \<Rightarrow> nat \<Rightarrow> md5_state \<Rightarrow> generator \<times> int \<Rightarrow>
     c_error + (generator \<times> int)" where
  "InitXdmcpWrapper_from des shr32 H S t sum0 = (\<lambda>(g, offset).
     if ks_device S \<noteq> None then Inr (InitXdmcpWrapper des shr32 (ks_device S) None [] sum0 g, offset)
     else bindE (prngd_key S) (\<lambda>k.
       if k \<noteq> None then Inr (InitXdmcpWrapper des shr32 None k [] sum0 g, offset)
       else mapE (\<lambda>(pre, offset', _). (InitXdmcpWrapper des shr32 None None pre sum0 g, offset'))
              (AddPreGetEntropy H (ks_stack S) (ks_file S) t offset)))"

section \<open>Facts\<close>

definition delivered :: "CARD8 list answer list \<Rightarrow> CARD8 list" where
  "delivered answers = concat (map (\<lambda>a. case a of Moved bs \<Rightarrow> bs | Failed e \<Rightarrow> []) answers)"

lemma delivered_simps [simp]:
  "delivered [] = []" "delivered (Failed e # as) = delivered as" "delivered (Moved bs # as) = bs @ delivered as"
  by (simp_all add: delivered_def)

lemma length_store_at: "pos + length bs \<le> length buf \<Longrightarrow> length (store_at pos bs buf) = length buf"
  by (simp add: store_at_def)

lemma atomicio_cases:
  "\<not> pos < n \<Longrightarrow> atomicio f n pos answers err s = Inr (int pos, err, answers, s)"
  "pos < n \<Longrightarrow> atomicio f n pos [] err s = Inl NoReturn"
  "pos < n \<Longrightarrow> e \<in> {EINTR, EAGAIN, EWOULDBLOCK} \<Longrightarrow>
     atomicio f n pos (Failed e # as) err s = atomicio f n pos as e s"
  "pos < n \<Longrightarrow> e \<notin> {EINTR, EAGAIN, EWOULDBLOCK} \<Longrightarrow>
     atomicio f n pos (Failed e # as) err s = Inr (- 1, e, as, s)"
  "pos < n \<Longrightarrow> f pos (n - pos) a s = (0, s') \<Longrightarrow> atomicio f n pos (Moved a # as) err s = Inr (0, err, as, s')"
  "pos < n \<Longrightarrow> f pos (n - pos) a s = (Suc k, s') \<Longrightarrow>
     atomicio f n pos (Moved a # as) err s = atomicio f n (pos + Suc k) as err s'"
  by (subst atomicio.simps; auto simp: Let_def)+

text \<open>What a buffer looks like after the bytes of one read and the reads that follow it.\<close>

lemma store_then_rest:
  fixes b buf buf' :: "CARD8 list"
  assumes "pos + length b \<le> n" "n \<le> length buf"
    and "take (pos + length b) buf' = take (pos + length b) (store_at pos b buf)"
    and "drop n buf' = drop n (store_at pos b buf)"
  shows "take pos buf' = take pos buf" "drop n buf' = drop n buf"
    "take (n - pos) (drop pos buf') = b @ take (n - (pos + length b)) (drop (pos + length b) buf')"
proof -
  have head: "take (pos + length b) buf' = take pos buf @ b"
    using assms(1-3) by (simp add: store_at_def)
  have "take pos buf' = take pos (take (pos + length b) buf')" by (simp add: min_def)
  then show "take pos buf' = take pos buf" using head assms(1,2) by simp
  show "drop n buf' = drop n buf" using assms by (simp add: store_at_def)
  have "drop pos buf' = drop pos ((take pos buf @ b) @ drop (pos + length b) buf')"
    unfolding head [symmetric] by simp
  also have "\<dots> = b @ drop (pos + length b) buf'" using assms(1,2) by simp
  finally show "take (n - pos) (drop pos buf') = b @ take (n - (pos + length b)) (drop (pos + length b) buf')"
    using assms(1) by simp
qed

text \<open>A count that is the requested one has moved exactly the first bytes the peer delivered.\<close>

lemma atomicio_read:
  assumes "atomicio read_call n pos answers err buf = Inr (m, err', later, buf')" "pos \<le> n" "n \<le> length buf"
  shows "length buf' = length buf \<and> take pos buf' = take pos buf \<and> drop n buf' = drop n buf \<and>
    (m = int n \<and> 0 < n \<longrightarrow> take (n - pos) (drop pos buf') = take (n - pos) (delivered answers) \<and>
       n - pos \<le> length (delivered answers))"
  using assms
proof (induction answers arbitrary: pos err buf)
  case Nil
  then show ?case by (cases "pos < n") (auto simp: atomicio_cases)
next
  case (Cons a as)
  show ?case
  proof (cases "pos < n")
    case False
    with Cons.prems show ?thesis by (simp add: atomicio_cases)
  next
    case pn: True
    consider (again) e where "a = Failed e" "e \<in> {EINTR, EAGAIN, EWOULDBLOCK}"
      | (failed) e where "a = Failed e" "e \<notin> {EINTR, EAGAIN, EWOULDBLOCK}"
      | (ended) bs where "a = Moved bs" "take (n - pos) bs = []"
      | (moved) bs k where "a = Moved bs" "length (take (n - pos) bs) = Suc k"
      by (metis answer.exhaust length_0_conv not0_implies_Suc)
    then show ?thesis
    proof cases
      case again
      have "atomicio read_call n pos as e buf = Inr (m, err', later, buf')"
        using Cons.prems(1) unfolding again(1) atomicio_cases(3) [OF pn again(2)] .
      from Cons.IH [OF this Cons.prems(2,3)] show ?thesis by (simp add: again(1))
    next
      case failed
      show ?thesis using Cons.prems(1) pn unfolding failed(1) atomicio_cases(4) [OF pn failed(2)] by auto
    next
      case ended
      then have "read_call pos (n - pos) bs buf = (0, buf)"
        unfolding read_call_def ended(2) by (simp add: store_at_def)
      from atomicio_cases(5) [where f = read_call, OF pn this, of as err]
      show ?thesis using Cons.prems(1) pn unfolding ended(1) by auto
    next
      case moved
      let ?b = "take (n - pos) bs"
      have fit: "pos + length ?b \<le> n" using pn by simp
      have "read_call pos (n - pos) bs buf = (Suc k, store_at pos ?b buf)"
        by (simp only: read_call_def moved(2))
      from atomicio_cases(6) [where f = read_call, OF pn this, of as err]
      have run: "atomicio read_call n (pos + length ?b) as err (store_at pos ?b buf) = Inr (m, err', later, buf')"
        using Cons.prems(1) unfolding moved by argo
      have len: "length (store_at pos ?b buf) = length buf"
        using fit Cons.prems(3) by (intro length_store_at) linarith
      note IH = Cons.IH [OF run fit, unfolded len, OF Cons.prems(3)]
      note buf' = store_then_rest [OF fit Cons.prems(3) IH [THEN conjunct2, THEN conjunct1]
          IH [THEN conjunct2, THEN conjunct2, THEN conjunct1]]
      have "take (n - pos) (delivered (a # as)) = ?b @ take (n - (pos + length ?b)) (delivered as)"
        using moved(1) by (cases "n - pos \<le> length bs") simp_all
      then show ?thesis using IH buf' moved(1) by auto
    qed
  qed
qed

lemma atomicio_write:
  assumes "atomicio (write_call msg) (length msg) pos answers err wire = Inr (m, err', later, wire')"
    and "pos \<le> length msg" "m = int (length msg)" "msg \<noteq> []"
  shows "wire' = wire @ drop pos msg"
  using assms
proof (induction answers arbitrary: pos err wire)
  case Nil
  then show ?case by (cases "pos < length msg") (auto simp: atomicio_cases)
next
  case (Cons a as)
  show ?case
  proof (cases "pos < length msg")
    case False
    with Cons.prems show ?thesis by (simp add: atomicio_cases)
  next
    case pn: True
    note moved_case = atomicio_cases(5,6) [where f = "write_call msg", OF pn, where s = wire and as = as and err = err]
    consider (again) e where "a = Failed e" "e \<in> {EINTR, EAGAIN, EWOULDBLOCK}"
      | (failed) e where "a = Failed e" "e \<notin> {EINTR, EAGAIN, EWOULDBLOCK}"
      | (moved) k where "a = Moved k" by (metis answer.exhaust)
    then show ?thesis
    proof cases
      case again
      have "atomicio (write_call msg) (length msg) pos as e wire = Inr (m, err', later, wire')"
        using Cons.prems(1) unfolding again(1) atomicio_cases(3) [OF pn again(2)] .
      from Cons.IH [OF this Cons.prems(2-4)] show ?thesis .
    next
      case failed
      show ?thesis using Cons.prems(1,3) unfolding failed(1) atomicio_cases(4) [OF pn failed(2)] by auto
    next
      case moved
      let ?k = "min k (length msg - pos)"
      have call: "write_call msg pos (length msg - pos) k wire = (?k, wire @ take ?k (drop pos msg))"
        by (simp add: write_call_def)
      show ?thesis
      proof (cases ?k)
        case 0
        then show ?thesis using Cons.prems(1,3,4) moved_case(1) [OF call [unfolded 0]] moved by simp
      next
        case (Suc j)
        have "atomicio (write_call msg) (length msg) (pos + ?k) as err (wire @ take ?k (drop pos msg)) =
            Inr (m, err', later, wire')"
          using Cons.prems(1) moved_case(2) [OF call [unfolded Suc]] unfolding moved Suc by argo
        from Cons.IH [OF this _ Cons.prems(3,4)] pn
        have "wire' = wire @ take ?k (drop pos msg) @ drop (pos + ?k) msg" by simp
        then show ?thesis by (metis append_take_drop_id drop_drop add.commute)
      qed
    qed
  qed
qed

text \<open>The sockets that are open after a list of events, and the number of those that were opened.\<close>

primrec open_sockets :: "prng_event list \<Rightarrow> nat set \<Rightarrow> nat set" where
  "open_sockets [] s = s"
| "open_sockets (e # es) s =
     open_sockets es (case e of OpenedSocket k \<Rightarrow> insert k s | ClosedSocket k \<Rightarrow> s - {k} | _ \<Rightarrow> s)"

lemma open_sockets_append: "open_sockets (es @ fs) s = open_sockets fs (open_sockets es s)"
  by (induction es arbitrary: s) simp_all

primrec opened :: "prng_event list \<Rightarrow> nat" where
  "opened [] = 0"
| "opened (e # es) = (case e of OpenedSocket k \<Rightarrow> Suc (opened es) | _ \<Rightarrow> opened es)"

lemma opened_append: "opened (es @ fs) = opened es + opened fs"
  by (induction es) (simp_all split: prng_event.splits)

lemmas trace_simps = open_sockets_append opened_append

definition prngd_result ::
    "(nat \<Rightarrow> attempt) \<Rightarrow> nat \<Rightarrow> nat \<Rightarrow> prng_event list \<Rightarrow> int \<times> CARD8 list \<times> prng_event list \<Rightarrow> bool" where
  "prngd_result attempts len room0 tr = (\<lambda>(rval, buf', tr').
     open_sockets tr' {} = {} \<and> opened tr' \<le> opened tr + room0 \<and> last tr' \<noteq> IgnoreSigpipe \<and>
     RestoreSigpipe \<in> set tr' \<and> (rval = 0 \<or> rval = - 1) \<and>
     (rval = 0 \<longrightarrow> (\<exists>k \<le> 10. \<exists>wr rd. attempts k = Connected wr rd \<and> SentRequest k [2, of_nat len] \<in> set tr' \<and>
        len \<le> length (delivered rd) \<and> take len buf' = take len (delivered rd))))"

lemma prngd_result_mono:
  "prngd_result attempts len n (tr @ es) r \<Longrightarrow> opened es + n \<le> m \<Longrightarrow> prngd_result attempts len m tr r"
  by (auto simp: prngd_result_def opened_append)

lemma prngd_reopen_result:
  assumes "prngd_reopen attempts len errors err buf tr = Inr r"
    and "0 < len" "len \<le> length buf" "errors \<le> 10" "open_sockets tr {} = {}"
  shows "prngd_result attempts len (11 - errors) tr r"
  using assms
proof (induction "10 - errors" arbitrary: errors err buf tr rule: less_induct)
  case less
  note run = less.prems(1) [unfolded prngd_reopen.simps [of attempts len errors err buf tr]]
  show ?case
  proof (cases "attempts errors")
    case (Connected wr rd)
    let ?msg = "[2, of_nat len] :: CARD8 list"
    obtain n err1 w1 wire where w: "atomicio (write_call ?msg) 2 0 wr err [] = Inr (n, err1, w1, wire)"
      using run Connected by (cases "atomicio (write_call ?msg) 2 0 wr err []") auto
    let ?tr1 = "tr @ [OpenedSocket errors, SentRequest errors wire]"
    let ?tr2 = "?tr1 @ [ClosedSocket errors]"
    have closed: "open_sockets ?tr2 {} = {}" using less.prems(5) by (simp add: trace_simps)
    have again: "prngd_result attempts len (11 - errors) tr r"
      if e: "errors < 10" and go: "prngd_reopen attempts len (errors + 1) err' buf' ?tr2 = Inr r"
        and buf': "length buf' = length buf" for err' buf'
    proof -
      have "prngd_result attempts len (11 - (errors + 1)) ?tr2 r"
        using less.hyps [OF _ go] less.prems(2,3) e closed buf' by simp
      then show ?thesis
        using prngd_result_mono [of attempts len "11 - (errors + 1)" tr
            "[OpenedSocket errors, SentRequest errors wire, ClosedSocket errors]" r "11 - errors"] e by simp
    qed
    have given_up: "prngd_result attempts len (11 - errors) tr (- 1, buf', ?tr1 @ [RestoreSigpipe, ClosedSocket errors])"
      for buf' using less.prems(4,5) by (auto simp: prngd_result_def trace_simps)
    show ?thesis
    proof (cases "n = 2")
      case False
      show ?thesis
      proof (cases "err1 = EPIPE \<and> errors < 10")
        case True
        then show ?thesis using again [of err1 buf] run Connected w False by simp
      next
        case no: False
        then show ?thesis using run Connected w False given_up [of buf] by auto
      qed
    next
      case True
      then have wire: "wire = ?msg" using atomicio_write [of ?msg 0 wr err "[]"] w by (simp add: numeral_2_eq_2)
      obtain m err2 w2 buf1 where rd: "atomicio read_call len 0 rd err1 buf = Inr (m, err2, w2, buf1)"
        using run Connected w True by (cases "atomicio read_call len 0 rd err1 buf") auto
      note reply = atomicio_read [OF rd le0 less.prems(3)]
      show ?thesis
      proof (cases "m = int len")
        case False
        show ?thesis
        proof (cases "err2 = EPIPE \<and> errors < 10")
          case yes: True
          then show ?thesis using again [of err2 buf1] run Connected w True rd False reply by simp
        next
          case no: False
          then show ?thesis using run Connected w True rd False given_up [of buf1] by auto
        qed
      next
        case yes: True
        have "r = (0, buf1, ?tr1 @ [RestoreSigpipe, ClosedSocket errors])"
          using run Connected w True rd yes by simp
        then show ?thesis
          using less.prems(2,4,5) reply yes Connected wire by (auto simp: prngd_result_def trace_simps)
      qed
    qed
  qed (use run less.prems(4,5) in \<open>auto simp: prngd_result_def trace_simps\<close>)
qed

text \<open>A list of answers that has an error other than a transient one, or the end of the stream.\<close>

definition ends :: "'a \<Rightarrow> 'a answer list \<Rightarrow> bool" where
  "ends nothing answers \<longleftrightarrow>
     (\<exists>a \<in> set answers. a = Moved nothing \<or> (\<exists>e. a = Failed e \<and> e \<notin> {EINTR, EAGAIN, EWOULDBLOCK}))"

lemma atomicio_returns:
  assumes "ends nothing answers" "\<And>p k t. fst (f p k nothing t) = 0"
  shows "\<exists>r. atomicio f n pos answers err s = Inr r"
  using assms(1)
proof (induction answers arbitrary: pos err s)
  case (Cons a as)
  show ?case
  proof (cases "pos < n")
    case pn: True
    show ?thesis
    proof (cases a)
      case (Failed e)
      show ?thesis
      proof (cases "e \<in> {EINTR, EAGAIN, EWOULDBLOCK}")
        case True
        then have "ends nothing as" using Cons.prems Failed by (auto simp: ends_def)
        then show ?thesis using Cons.IH unfolding Failed atomicio_cases(3) [OF pn True] by blast
      next
        case False
        show ?thesis unfolding Failed atomicio_cases(4) [OF pn False] by blast
      qed
    next
      case (Moved b)
      obtain k t where f: "f pos (n - pos) b s = (k, t)" by fastforce
      show ?thesis
      proof (cases k)
        case 0
        show ?thesis unfolding Moved atomicio_cases(5) [where f = f, OF pn f [unfolded 0]] by blast
      next
        case (Suc j)
        then have "b \<noteq> nothing" using f assms(2) by (metis fst_conv nat.distinct(1))
        then have "ends nothing as" using Cons.prems Moved by (auto simp: ends_def)
        then show ?thesis using Cons.IH unfolding Moved atomicio_cases(6) [where f = f, OF pn f [unfolded Suc]] by blast
      qed
    qed
  qed (simp add: atomicio_cases)
qed (simp add: ends_def)

definition attempt_ends :: "attempt \<Rightarrow> bool" where
  "attempt_ends a = (case a of Connected wr rd \<Rightarrow> ends 0 wr \<and> ends [] rd | _ \<Rightarrow> True)"

lemma prngd_reopen_returns:
  assumes "\<forall>k \<le> 10. attempt_ends (attempts k)" "errors \<le> 10"
  shows "\<exists>r. prngd_reopen attempts len errors err buf tr = Inr r"
  using assms(2)
proof (induction "10 - errors" arbitrary: errors err buf tr rule: less_induct)
  case less
  have again: "\<exists>r. prngd_reopen attempts len (errors + 1) e b t = Inr r" if "errors < 10" for e b t
    using less.hyps [of "errors + 1"] that by simp
  note step = prngd_reopen.simps [of attempts len errors err buf tr]
  show ?case
  proof (cases "attempts errors")
    case (Connected wr rd)
    then have e: "ends 0 wr" "ends [] rd" using assms(1) less.prems by (auto simp: attempt_ends_def)
    let ?f = "write_call [2, of_nat len]"
    obtain n err1 w1 wire where w: "atomicio ?f 2 0 wr err [] = Inr (n, err1, w1, wire)"
      using atomicio_returns [OF e(1), of ?f 2 0 err "[]"] by (auto simp: write_call_def)
    obtain m err2 w2 buf1 where r: "atomicio read_call len 0 rd err1 buf = Inr (m, err2, w2, buf1)"
      using atomicio_returns [OF e(2), of read_call len 0 err1 buf] by (auto simp: read_call_def)
    show ?thesis
      unfolding step Connected attempt.case w Let_def sum.case prod.case r
      by (cases "errors < 10"; cases "n = 2"; cases "m = int len") (use again in auto)
  qed (simp_all add: step)
qed

text \<open>Reading a file for entropy stops at its end, or within one buffer of the length asked for: a short
  read in the middle can make the count overshoot, and the count is then not the length.\<close>

lemma sum_reads_bound:
  assumes "sum_reads ld answers len readlen buf ws = Inr (r, ws')" "readlen < len + 0x1000"
  shows "r = - 1 \<or> int readlen \<le> r \<and> r < int len + 0x1000"
  using assms
proof (induction answers arbitrary: readlen buf ws)
  case Nil
  then show ?case by (subst (asm) sum_reads.simps) (auto split: if_splits)
next
  case (Cons a as)
  show ?case
  proof (cases "readlen < len")
    case False
    with Cons.prems show ?thesis by (subst (asm) sum_reads.simps) simp
  next
    case True
    show ?thesis
    proof (cases a)
      case (Failed e)
      with True Cons.prems show ?thesis by (subst (asm) sum_reads.simps) simp
    next
      case (Moved bs)
      let ?n = "length (take 0x1000 bs)"
      have n: "readlen + ?n < len + 0x1000" using True by simp
      show ?thesis
      proof (cases "?n = 0")
        case zero: True
        with True Moved Cons.prems show ?thesis
          by (subst (asm) sum_reads.simps) (simp add: read_call_def)
      next
        case False
        then obtain buf1 ws1 where "sum_reads ld as len (readlen + ?n) buf1 ws1 = Inr (r, ws')"
          using True Moved Cons.prems(1)
          by (subst (asm) sum_reads.simps) (simp add: read_call_def Let_def del: length_take)
        from Cons.IH [OF this n] show ?thesis by linarith
      qed
    qed
  qed
qed

text \<open>A file that is read as entropy keeps the pool in range.\<close>

lemma AddOtherEntropy_pool:
  assumes "AddOtherEntropy H shr32 buf t e = Inr e'" "pool_ok e"
  shows "pool_ok e'"
proof -
  have "pool_ok (fold (add_word shr32) ws e)" for ws
    using assms(2) by (induction ws arbitrary: e) (simp_all add: add_word_ok)
  then show ?thesis using assms(1) by (auto simp: AddOtherEntropy_def mapE_Inr_iff add_entropy_def)
qed

section \<open>Properties\<close>

text \<open>C31: when the random number daemon is said to have answered, the bytes stored are the first
  \<open>len\<close> bytes of what it sent on one connection, after the request for \<open>len\<close> bytes was sent whole on
  that connection.  However it ends, at most eleven connections were made, each socket that was
  opened has been closed, and the handler of \<open>SIGPIPE\<close> is restored.\<close>

theorem get_prngd_bytes_reply:
  assumes "get_prngd_bytes attempts err buf len port path = Inr (rval, buf', tr)"
    and "0 < len" "len \<le> length buf"
  shows "open_sockets tr {} = {} \<and> opened tr \<le> 11 \<and> (tr = [] \<or> RestoreSigpipe \<in> set tr) \<and>
    (rval = 0 \<or> rval = - 1) \<and>
    (rval = 0 \<longrightarrow> (\<exists>k \<le> 10. \<exists>wr rd. attempts k = Connected wr rd \<and> SentRequest k [2, of_nat len] \<in> set tr \<and>
       len \<le> length (delivered rd) \<and> take len buf' = take len (delivered rd)))"
proof (cases "tr = []")
  case True
  then have "rval = - 1"
    using assms prngd_reopen_result [of attempts len 0 err buf "[IgnoreSigpipe]" "(rval, buf', tr)"]
    by (auto simp: get_prngd_bytes_def prngd_result_def split: if_splits)
  then show ?thesis using True by simp
next
  case False
  then have "prngd_reopen attempts len 0 err buf [IgnoreSigpipe] = Inr (rval, buf', tr)"
    using assms(1) by (auto simp: get_prngd_bytes_def split: if_splits)
  from prngd_reopen_result [OF this assms(2,3)] show ?thesis by (auto simp: prngd_result_def)
qed

definition daemon_attempts :: "nat \<Rightarrow> attempt" where
  "daemon_attempts k =
     (if k = 0 then Connected [Moved 1, Failed EPIPE] []
      else Connected [Failed EINTR, Moved 2] [Moved [11, 12, 13], Failed EAGAIN, Moved [14, 15, 16, 17, 18, 19], Moved []])"

lemma get_prngd_bytes_reply_witness:
  "case get_prngd_bytes daemon_attempts NoError (replicate 8 0) 8 0 (Some ''/var/run/egd-pool'') of
     Inl _ \<Rightarrow> False
   | Inr (rval, buf', tr) \<Rightarrow> rval = 0 \<and> buf' = [11, 12, 13, 14, 15, 16, 17, 18] \<and> opened tr \<le> 11"
proof -
  have r: "get_prngd_bytes daemon_attempts NoError (replicate 8 0) 8 0 (Some ''/var/run/egd-pool'') =
      Inr (0, [11, 12, 13, 14, 15, 16, 17, 18],
        [IgnoreSigpipe, OpenedSocket 0, SentRequest 0 [2], ClosedSocket 0,
         OpenedSocket 1, SentRequest 1 [2, 8], RestoreSigpipe, ClosedSocket 1])"
    by code_simp
  from get_prngd_bytes_reply [OF r] have "opened [IgnoreSigpipe, OpenedSocket 0, SentRequest 0 [2], ClosedSocket 0,
         OpenedSocket 1, SentRequest 1 [2, 8], RestoreSigpipe, ClosedSocket 1] \<le> 11" by simp
  then show ?thesis unfolding r by simp
qed

text \<open>Asking the daemon returns, if each connection that is made comes to an end: it delivers enough,
  fails or is closed.  Transient errors and daemons that hang up are retried, but not for ever.\<close>

theorem get_prngd_bytes_returns:
  assumes "\<forall>k \<le> 10. attempt_ends (attempts k)"
  shows "\<exists>r. get_prngd_bytes attempts err buf len port path = Inr r"
  using prngd_reopen_returns [OF assms] by (simp add: get_prngd_bytes_def)

lemma get_prngd_bytes_returns_witness:
  "\<exists>r. get_prngd_bytes (\<lambda>k. Connected [Moved 1, Failed EPIPE] [Moved []]) NoError (replicate 8 0) 8 708 None = Inr r"
  by (rule get_prngd_bytes_returns) (simp add: attempt_ends_def ends_def)

end
