(* ===== verification/Secure.thy ===== *)
theory Secure
  imports Manage
begin

text \<open>
  The connection of the greeter to its X server: grabbing the display (\<open>SecureDisplay\<close>,
  \<open>UnsecureDisplay\<close> and the error handlers of \<open>xdm/session.c\<close>), killing the clients that are left from
  before (\<open>xdm/reset.c\<close>), pinging the server (\<open>PingServer\<close> of \<open>xdm/server.c\<close>) and the path of virtual
  terminals (\<open>SetWindowPath\<close> of \<open>xdm/dm.c\<close>).

  A call that waits for the server gets a reply: an answer, before which error events may have come
  (each is one that the message printer takes for an error, or one it ignores), a connection that breaks, or
  nothing, in which case the alarm goes off when one is set.  The long jumps of the signal and error handlers
  are outcomes, which the routine that has set the jump catches.
\<close>

section \<open>Waiting for the server\<close>

datatype alarm_handler = SIG_DFL | syncTimeout | abortReset | PingLostSig | OtherSig nat
datatype error_handler = Xlib_error | ErrorHandler | ignoreErrors
datatype io_handler = Xlib_ioerror | IOErrorHandler | PingLostIOErr

datatype x_request =
    GrabServer
  | GrabKeyboard
  | UngrabServer
  | KillClient nat
  | Sync
  | DeleteProperty nat string
  | Logged string

record connection =
  xc_alarm :: nat
  xc_sigalrm :: alarm_handler
  xc_error :: error_handler
  xc_ioerror :: io_handler
  xc_requests :: "x_request list"

datatype 'a reply = Answer "bool list" 'a | Hangs | Breaks

datatype jump = SyncJump | ResetJump | PingJump

datatype 'a outcome =
    Value 'a
  | Jumped jump
  | ExitsWith int
  | SessionExits int
  | KilledByAlarm
  | Stuck

definition request :: "x_request \<Rightarrow> connection \<Rightarrow> connection" where
  "request r c = c\<lparr>xc_requests := xc_requests c @ [r]\<rparr>"

text \<open>What the handlers do: an error event that is reported ends the process, with status 1 in Xlib's own
  handler.\<close>

definition on_error :: "connection \<Rightarrow> 'a \<Rightarrow> bool list \<Rightarrow> 'a outcome" where
  "on_error c v errors =
     (if \<not> True \<in> set errors then Value v
      else case xc_error c of
             ErrorHandler \<Rightarrow> ExitsWith UNMANAGE_DISPLAY
           | ignoreErrors \<Rightarrow> Value v
           | Xlib_error \<Rightarrow> ExitsWith 1)"

definition on_io_error :: "connection \<Rightarrow> 'a outcome" where
  "on_io_error c =
     (case xc_ioerror c of
        IOErrorHandler \<Rightarrow> ExitsWith RESERVER_DISPLAY
      | PingLostIOErr \<Rightarrow> Jumped PingJump
      | Xlib_ioerror \<Rightarrow> ExitsWith 1)"

definition on_alarm :: "connection \<Rightarrow> 'a outcome" where
  "on_alarm c =
     (case xc_sigalrm c of
        SIG_DFL \<Rightarrow> KilledByAlarm
      | syncTimeout \<Rightarrow> Jumped SyncJump
      | abortReset \<Rightarrow> Jumped ResetJump
      | PingLostSig \<Rightarrow> Jumped PingJump
      | OtherSig n \<Rightarrow> Stuck)"

definition x_wait :: "'a reply \<Rightarrow> connection \<Rightarrow> 'a outcome \<times> connection" where
  "x_wait r c =
     (case r of
        Answer errors v \<Rightarrow> (on_error c v errors, c)
      | Breaks \<Rightarrow> (on_io_error c, c)
      | Hangs \<Rightarrow> (if xc_alarm c = 0 then (Stuck, c) else (on_alarm c, c\<lparr>xc_alarm := 0\<rparr>)))"

primrec and_then :: "'a outcome \<Rightarrow> connection \<Rightarrow> ('a \<Rightarrow> connection \<Rightarrow> 'b outcome \<times> connection) \<Rightarrow> 'b outcome \<times> connection" where
  "and_then (Value v) c k = k v c"
| "and_then (Jumped j) c k = (Jumped j, c)"
| "and_then (ExitsWith n) c k = (ExitsWith n, c)"
| "and_then (SessionExits n) c k = (SessionExits n, c)"
| "and_then KilledByAlarm c k = (KilledByAlarm, c)"
| "and_then Stuck c k = (Stuck, c)"

definition bindX ::
    "'a outcome \<times> connection \<Rightarrow> ('a \<Rightarrow> connection \<Rightarrow> 'b outcome \<times> connection) \<Rightarrow> 'b outcome \<times> connection" where
  "bindX m k = and_then (fst m) (snd m) k"

section \<open>Resetting the server\<close>

text \<open>The replies to the queries of one window: None when the query fails, otherwise its children.
  A list that runs out is a server that hangs.\<close>

primrec killWindows :: "nat list option reply list \<Rightarrow> connection \<Rightarrow> unit outcome \<times> connection" where
  "killWindows [] c = bindX (x_wait (Hangs :: unit reply) c) (\<lambda>_ c. (Value (), c))"
| "killWindows (r # rs) c =
     bindX (x_wait r c) (\<lambda>children c1.
       if children = None \<or> children = Some [] then (Value (), c1)
       else killWindows rs (fold (\<lambda>w. request (KillClient w)) (the children) c1))"

primrec kill_screens :: "nat list option reply list list \<Rightarrow> connection \<Rightarrow> unit outcome \<times> connection" where
  "kill_screens [] c = (Value (), c)"
| "kill_screens (s # ss) c = bindX (killWindows s c) (\<lambda>_ c1. kill_screens ss c1)"

text \<open>The branch in which the jump is set, up to the end of \<open>XSync\<close>.  The screens are given by the replies
  to the queries of their root windows.\<close>

definition reset_start :: "connection \<Rightarrow> connection" where
  "reset_start c = c\<lparr>xc_sigalrm := abortReset, xc_alarm := 30, xc_error := ignoreErrors\<rparr>"

definition reset_run :: "nat list option reply list list \<Rightarrow> unit reply \<Rightarrow> connection \<Rightarrow> unit outcome \<times> connection" where
  "reset_run screens sync c =
     bindX (kill_screens screens (reset_start c)) (\<lambda>_ c1. x_wait sync (request Sync c1))"

definition reset_finish :: "connection \<Rightarrow> unit outcome \<times> connection" where
  "reset_finish c = (Value (), c\<lparr>xc_sigalrm := SIG_DFL, xc_error := Xlib_error\<rparr>)"

definition pseudoReset ::
    "nat list option reply list list \<Rightarrow> unit reply \<Rightarrow> connection \<Rightarrow> unit outcome \<times> connection" where
  "pseudoReset screens sync c =
     (let (r, c1) = reset_run screens sync c
      in case r of
           Value _ \<Rightarrow> reset_finish (c1\<lparr>xc_alarm := 0\<rparr>)
         | Jumped ResetJump \<Rightarrow> reset_finish (request (Logged ''pseudoReset timeout'') c1)
         | _ \<Rightarrow> (r, c1))"

text \<open>\<open>dpy\<close> says whether the display has a connection of its own.\<close>

definition ResetServer ::
    "bool \<Rightarrow> display \<Rightarrow> nat list option reply list list \<Rightarrow> unit reply \<Rightarrow> connection \<Rightarrow> unit outcome \<times> connection" where
  "ResetServer dpy d screens sync c =
     (if dpy \<and> dt_origin (d_displayType d) \<noteq> FromXDMCP then pseudoReset screens sync c else (Value (), c))"

section \<open>Grabbing the display\<close>

record grab_replies =
  gp_keyboard :: "bool reply"
  gp_screens :: "nat list option reply list list"
  gp_reset_sync :: "unit reply"
  gp_sync :: "unit reply"

definition seconds :: "int \<Rightarrow> nat" where
  "seconds n = unat (of_int n :: 32 word)"

definition SecureDisplay :: "display \<Rightarrow> grab_replies \<Rightarrow> connection \<Rightarrow> unit outcome \<times> connection" where
  "SecureDisplay d R c =
     (let c1 = request GrabServer (c\<lparr>xc_sigalrm := syncTimeout, xc_alarm := seconds (sr_grabTimeout (d_server d))\<rparr>);
          (r, c2) = x_wait (gp_keyboard R) (request GrabKeyboard c1);
          c3 = c2\<lparr>xc_alarm := 0, xc_sigalrm := SIG_DFL\<rparr>
      in case r of
           Jumped SyncJump \<Rightarrow>
             (SessionExits RESERVER_DISPLAY, request (Logged (''WARNING: display '' @ d_name d @ '' could not be secured'')) c2)
         | Value False \<Rightarrow>
             (SessionExits RESERVER_DISPLAY, request (Logged (''WARNING: keyboard on display '' @ d_name d @ '' could not be secured'')) c3)
         | Value True \<Rightarrow>
             bindX (pseudoReset (gp_screens R) (gp_reset_sync R) c3) (\<lambda>_ c4.
               if sr_grabServer (d_server d) then (Value (), c4)
               else x_wait (gp_sync R) (request Sync (request UngrabServer c4)))
         | Jumped j \<Rightarrow> (Jumped j, c2)
         | ExitsWith n \<Rightarrow> (ExitsWith n, c2)
         | SessionExits n \<Rightarrow> (SessionExits n, c2)
         | KilledByAlarm \<Rightarrow> (KilledByAlarm, c2)
         | Stuck \<Rightarrow> (Stuck, c2))"

definition UnsecureDisplay :: "display \<Rightarrow> unit reply \<Rightarrow> connection \<Rightarrow> unit outcome \<times> connection" where
  "UnsecureDisplay d sync c =
     (if sr_grabServer (d_server d) then x_wait sync (request Sync (request UngrabServer c)) else (Value (), c))"

text \<open>\<open>atom\<close> is whether \<open>SCREEN_RESOURCES\<close> is known to the server; an unknown one is not created.\<close>

definition DeleteXloginResources :: "nat \<Rightarrow> bool reply \<Rightarrow> connection \<Rightarrow> unit outcome \<times> connection" where
  "DeleteXloginResources screens atom c =
     bindX (x_wait atom c) (\<lambda>prop c1.
       (let c2 = request (DeleteProperty 0 ''RESOURCE_MANAGER'') c1
        in (Value (), if prop then fold (\<lambda>i. request (DeleteProperty i ''SCREEN_RESOURCES'')) (rev [0..<screens]) c2
                      else c2)))"

section \<open>Pinging the server\<close>

text \<open>The time left of an alarm that was running is \<open>left\<close>.\<close>

definition PingServer :: "display \<Rightarrow> nat \<Rightarrow> unit reply \<Rightarrow> connection \<Rightarrow> bool outcome \<times> connection" where
  "PingServer d left sync c =
     (let c1 = c\<lparr>xc_ioerror := PingLostIOErr, xc_sigalrm := PingLostSig,
                 xc_alarm := seconds (sr_pingTimeout (d_server d) * 60)\<rparr>;
          (r, c2) = x_wait sync (request Sync c1)
      in case r of
           Value _ \<Rightarrow> (Value True, c2\<lparr>xc_sigalrm := xc_sigalrm c, xc_alarm := (if xc_alarm c = 0 then 0 else left),
                                      xc_ioerror := xc_ioerror c\<rparr>)
         | Jumped PingJump \<Rightarrow> (Value False, c2\<lparr>xc_alarm := 0, xc_sigalrm := SIG_DFL, xc_ioerror := xc_ioerror c\<rparr>)
         | Jumped j \<Rightarrow> (Jumped j, c2)
         | ExitsWith n \<Rightarrow> (ExitsWith n, c2)
         | SessionExits n \<Rightarrow> (SessionExits n, c2)
         | KilledByAlarm \<Rightarrow> (KilledByAlarm, c2)
         | Stuck \<Rightarrow> (Stuck, c2))"

section \<open>The path of virtual terminals\<close>

text \<open>The answer to the query of \<open>XFree86_VT\<close>: its format and items, None when the server has no such
  property.  \<open>var\<close> is the environment's \<open>WINDOWPATH\<close>; without memory \<open>asprintf\<close> leaves no new path.\<close>

definition SetWindowPath :: "bool \<Rightarrow> (nat \<times> 64 word list) option \<Rightarrow> string option \<Rightarrow> display \<Rightarrow> display" where
  "SetWindowPath memory prop var d =
     (case prop of
        Some (format, num # items) \<Rightarrow>
          (if format = 32
           then (let n = show_int (uint num)
                 in d\<lparr>d_windowPath := (if memory then Some (case var of None \<Rightarrow> n | Some p \<Rightarrow> p @ '':'' @ n) else None)\<rparr>)
           else d)
      | _ \<Rightarrow> d)"


section \<open>Facts\<close>

lemma bindX_Value: "bindX m k = (Value v, c) \<longleftrightarrow> (\<exists>u c1. m = (Value u, c1) \<and> k u c1 = (Value v, c))"
  by (cases m; cases "fst m") (auto simp: bindX_def)

text \<open>The handlers and the alarm, which the queries and requests leave alone.\<close>

definition handlers :: "connection \<Rightarrow> alarm_handler \<times> error_handler \<times> io_handler" where
  "handlers c = (xc_sigalrm c, xc_error c, xc_ioerror c)"

lemma handlers_request [simp]: "handlers (request r c) = handlers c" "xc_alarm (request r c) = xc_alarm c"
  by (simp_all add: handlers_def request_def)

lemma handlers_kills [simp]: "handlers (fold (\<lambda>w. request (KillClient w)) ws c) = handlers c"
    "xc_alarm (fold (\<lambda>w. request (KillClient w)) ws c) = xc_alarm c"
  by (induction ws arbitrary: c) simp_all

text \<open>What neither requests of the given kinds nor a passing alarm change, waiting and killing do not change.\<close>

definition framed :: "(connection \<Rightarrow> 'f) \<Rightarrow> bool" where
  "framed F \<longleftrightarrow> (\<forall>c. F (c\<lparr>xc_alarm := 0\<rparr>) = F c) \<and> (\<forall>c w. F (request (KillClient w) c) = F c) \<and>
     (\<forall>c. F (request Sync c) = F c)"

lemma x_wait_frame: "framed F \<Longrightarrow> x_wait r c = (v, c') \<Longrightarrow> F c' = F c"
  by (cases r) (auto simp: x_wait_def framed_def split: if_splits)

lemma bindX_frame:
  assumes "bindX m k = (v, c')" "F (snd m) = F c" "\<And>u c1. F c1 = F c \<Longrightarrow> k u c1 = (v, c') \<Longrightarrow> F c' = F c"
  shows "F c' = F c"
  using assms by (cases m; cases "fst m") (auto simp: bindX_def)

lemma fold_kills_frame: "framed F \<Longrightarrow> F (fold (\<lambda>w. request (KillClient w)) ws c) = F c"
  by (induction ws arbitrary: c) (simp_all add: framed_def)

lemma killWindows_frame:
  assumes "framed F"
  shows "killWindows rs c = (v, c') \<Longrightarrow> F c' = F c"
proof (induction rs arbitrary: c)
  case Nil
  show ?case
    by (rule bindX_frame [OF Nil [unfolded killWindows.simps]])
      (use x_wait_frame [OF assms] in \<open>auto simp: prod_eq_iff\<close>)
next
  case (Cons r rs)
  show ?case
  proof (rule bindX_frame [OF Cons.prems [unfolded killWindows.simps]])
    show "F (snd (x_wait r c)) = F c" using x_wait_frame [OF assms] by (metis prod.collapse)
    show "(if u = None \<or> u = Some [] then (Value (), c1)
      else killWindows rs (fold (\<lambda>w. request (KillClient w)) (the u) c1)) = (v, c') \<Longrightarrow> F c1 = F c \<Longrightarrow> F c' = F c"
      for u c1 using Cons.IH fold_kills_frame [OF assms] by (fastforce split: if_splits)
  qed
qed

lemma kill_screens_frame: "framed F \<Longrightarrow> kill_screens ss c = (v, c') \<Longrightarrow> F c' = F c"
proof (induction ss arbitrary: c)
  case (Cons s ss)
  show ?case
  proof (rule bindX_frame [OF Cons.prems(2) [unfolded kill_screens.simps]])
    show "F (snd (killWindows s c)) = F c" using killWindows_frame [OF Cons.prems(1)] by (metis prod.collapse)
    show "kill_screens ss c1 = (v, c') \<Longrightarrow> F c1 = F c \<Longrightarrow> F c' = F c" for c1
      using Cons.IH [OF Cons.prems(1)] by fastforce
  qed
qed simp

lemma reset_run_frame:
  assumes "framed F" "reset_run screens sync c = (v, c')"
  shows "F c' = F (reset_start c)"
proof (rule bindX_frame [OF assms(2) [unfolded reset_run_def]])
  show "F (snd (kill_screens screens (reset_start c))) = F (reset_start c)"
    using kill_screens_frame [OF assms(1)] by (metis prod.collapse)
  show "x_wait sync (request Sync c1) = (v, c') \<Longrightarrow> F c1 = F (reset_start c) \<Longrightarrow> F c' = F (reset_start c)" for c1
    using x_wait_frame [OF assms(1)] assms(1) by (fastforce simp: framed_def)
qed

text \<open>Whether the server is grabbed after a list of requests.\<close>

definition held :: "x_request list \<Rightarrow> bool" where
  "held rs = fold (\<lambda>r h. case r of GrabServer \<Rightarrow> True | UngrabServer \<Rightarrow> False | _ \<Rightarrow> h) rs False"

lemma held_request [simp]:
  "held (xc_requests (request r c)) =
     (case r of GrabServer \<Rightarrow> True | UngrabServer \<Rightarrow> False | _ \<Rightarrow> held (xc_requests c))"
  by (cases r) (simp_all add: held_def request_def)

text \<open>Windows were killed until a query showed none, or failed.\<close>

definition emptied :: "nat list option reply list \<Rightarrow> bool" where
  "emptied rs \<longleftrightarrow> (\<exists>i < length rs. \<exists>errors u. rs ! i = Answer errors u \<and> (u = None \<or> u = Some []))"

lemma x_wait_Value: "x_wait r c = (Value v, c') \<Longrightarrow> (\<exists>errors. r = Answer errors v) \<and> c' = c"
  by (cases r) (auto simp: x_wait_def on_error_def on_io_error_def on_alarm_def
      split: if_splits error_handler.splits io_handler.splits alarm_handler.splits)

lemma killWindows_Value: "killWindows rs c = (Value v, c') \<Longrightarrow> emptied rs \<and> xc_alarm c' = xc_alarm c"
proof (induction rs arbitrary: c)
  case Nil
  then show ?case by (auto simp: bindX_Value dest: x_wait_Value)
next
  case (Cons r rs)
  then obtain u c1 where 1: "x_wait r c = (Value u, c1)"
    and 2: "(if u = None \<or> u = Some [] then (Value (), c1)
      else killWindows rs (fold (\<lambda>w. request (KillClient w)) (the u) c1)) = (Value v, c')"
    by (auto simp: bindX_Value)
  obtain errors where r: "r = Answer errors u" "c1 = c" using x_wait_Value [OF 1] by blast
  show ?case
  proof (cases "u = None \<or> u = Some []")
    case True
    then show ?thesis using r 2 by (auto simp: emptied_def intro!: exI [of _ 0])
  next
    case False
    then have "killWindows rs (fold (\<lambda>w. request (KillClient w)) (the u) c1) = (Value v, c')" using 2 by (simp only: if_False)
    from Cons.IH [OF this] r(2) have e: "emptied rs" and a: "xc_alarm c' = xc_alarm c" by simp_all
    from e have "emptied (r # rs)" unfolding emptied_def by (metis Suc_less_eq length_Cons nth_Cons_Suc)
    then show ?thesis using a by blast
  qed
qed

lemma kill_screens_Value:
  "kill_screens ss c = (Value v, c') \<Longrightarrow> (\<forall>s \<in> set ss. emptied s)"
  by (induction ss arbitrary: c) (auto simp: bindX_Value dest: killWindows_Value)


text \<open>While a reset runs, the alarm is set, errors are ignored, and a connection that breaks ends the session.\<close>

definition resetting :: "connection \<Rightarrow> bool" where
  "resetting c \<longleftrightarrow> handlers c = (abortReset, ignoreErrors, IOErrorHandler) \<and> xc_alarm c \<noteq> 0"

definition reset_outcome :: "'a outcome \<times> connection \<Rightarrow> bool" where
  "reset_outcome m \<longleftrightarrow>
     (case m of
        (Value v, c) \<Rightarrow> resetting c
      | (Jumped j, c) \<Rightarrow> j = ResetJump \<and> xc_alarm c = 0
      | (ExitsWith n, c) \<Rightarrow> n = RESERVER_DISPLAY
      | _ \<Rightarrow> False)"

lemma reset_wait: "resetting c \<Longrightarrow> reset_outcome (x_wait r c)"
  by (cases r) (auto simp: resetting_def handlers_def reset_outcome_def x_wait_def on_error_def on_io_error_def on_alarm_def)

lemma reset_bind:
  "reset_outcome m \<Longrightarrow> (\<And>u c. resetting c \<Longrightarrow> reset_outcome (k u c)) \<Longrightarrow> reset_outcome (bindX m k)"
  by (cases m; cases "fst m") (auto simp: reset_outcome_def bindX_def)

lemma resetting_kills [simp]: "resetting (fold (\<lambda>w. request (KillClient w)) ws c) = resetting c"
    "resetting (request r c) = resetting c"
  by (simp_all add: resetting_def)

lemma reset_Value [simp]: "reset_outcome (Value v, c) = resetting c"
  by (simp add: reset_outcome_def)

lemma reset_killWindows: "resetting c \<Longrightarrow> reset_outcome (killWindows rs c)"
proof (induction rs arbitrary: c)
  case Nil
  then show ?case by (auto intro!: reset_bind reset_wait)
next
  case (Cons r rs)
  show ?case unfolding killWindows.simps
    by (rule reset_bind [OF reset_wait [OF Cons.prems]]) (simp add: Cons.IH)
qed

lemma reset_kill_screens: "resetting c \<Longrightarrow> reset_outcome (kill_screens ss c)"
  by (induction ss arbitrary: c) (auto intro!: reset_bind reset_killWindows)

lemma reset_run_outcome:
  assumes "xc_ioerror c = IOErrorHandler"
  shows "reset_outcome (reset_run screens sync c)"
proof -
  have "resetting (reset_start c)" using assms by (simp add: reset_start_def resetting_def handlers_def)
  from reset_bind [OF reset_kill_screens [OF this] reset_wait] show ?thesis
    by (simp add: reset_run_def reset_bind reset_kill_screens reset_wait \<open>resetting (reset_start c)\<close>)
qed

text \<open>What the connection is like after a reset: quiet, and with Xlib's own error handler.\<close>

definition reset_done :: "nat list option reply list list \<Rightarrow> connection \<Rightarrow> bool" where
  "reset_done screens c \<longleftrightarrow>
     xc_alarm c = 0 \<and> handlers c = (SIG_DFL, Xlib_error, IOErrorHandler) \<and>
     ((\<forall>s \<in> set screens. emptied s) \<or> Logged ''pseudoReset timeout'' \<in> set (xc_requests c))"

lemma reset_run_Value: "reset_run screens sync c = (Value v, c1) \<Longrightarrow> \<forall>s \<in> set screens. emptied s"
  by (auto simp: reset_run_def bindX_Value dest: kill_screens_Value)

lemma reset_run_ioerror: "reset_run screens sync c = (v, c1) \<Longrightarrow> xc_ioerror c1 = xc_ioerror c"
  using reset_run_frame [of xc_ioerror] by (simp add: framed_def request_def reset_start_def)

lemma reset_run_held: "reset_run screens sync c = (v, c1) \<Longrightarrow> held (xc_requests c1) = held (xc_requests c)"
  using reset_run_frame [of "\<lambda>c. held (xc_requests c)"] by (simp add: framed_def reset_start_def)

lemma pseudoReset_cases:
  assumes "xc_ioerror c = IOErrorHandler" "pseudoReset screens sync c = (v, c')"
  shows "v = Value () \<and> reset_done screens c' \<and> held (xc_requests c') = held (xc_requests c) \<or>
    v = ExitsWith RESERVER_DISPLAY"
proof -
  obtain r c1 where r: "reset_run screens sync c = (r, c1)" by fastforce
  have o: "reset_outcome (r, c1)" using reset_run_outcome [OF assms(1)] r by metis
  have io: "xc_ioerror c1 = IOErrorHandler" "held (xc_requests c1) = held (xc_requests c)"
    using reset_run_ioerror [OF r] reset_run_held [OF r] assms(1) by simp_all
  show ?thesis
  proof (cases r)
    case (Value u)
    with r have "\<forall>s \<in> set screens. emptied s" using reset_run_Value by blast
    then show ?thesis
      using assms(2) r Value io by (auto simp: pseudoReset_def reset_finish_def reset_done_def handlers_def)
  next
    case (Jumped j)
    with o have "j = ResetJump" "xc_alarm c1 = 0" by (auto simp: reset_outcome_def)
    then show ?thesis
      using assms(2) r Jumped io held_request [of "Logged ''pseudoReset timeout''" c1]
      by (auto simp: pseudoReset_def reset_finish_def reset_done_def handlers_def request_def)
  qed (use o assms(2) r in \<open>auto simp: reset_outcome_def pseudoReset_def\<close>)
qed

text \<open>How the first half of \<open>SecureDisplay\<close> ends.\<close>

lemma SecureDisplay_granted:
  assumes "gp_keyboard R = Answer errors g" "xc_error c = ErrorHandler"
  shows "SecureDisplay d R c =
    (if True \<in> set errors then
       (ExitsWith UNMANAGE_DISPLAY, request GrabKeyboard (request GrabServer (c\<lparr>xc_sigalrm := syncTimeout,
          xc_alarm := seconds (sr_grabTimeout (d_server d))\<rparr>)))
     else let c3 = (request GrabKeyboard (request GrabServer c))\<lparr>xc_alarm := 0, xc_sigalrm := SIG_DFL\<rparr>
       in if g then bindX (pseudoReset (gp_screens R) (gp_reset_sync R) c3) (\<lambda>_ c4.
            if sr_grabServer (d_server d) then (Value (), c4)
            else x_wait (gp_sync R) (request Sync (request UngrabServer c4)))
          else (SessionExits RESERVER_DISPLAY,
                request (Logged (''WARNING: keyboard on display '' @ d_name d @ '' could not be secured'')) c3))"
  using assms by (cases g) (simp_all add: SecureDisplay_def x_wait_def on_error_def request_def)

lemma SecureDisplay_refused:
  assumes "SecureDisplay d R c = (Value v, c')"
  shows "\<exists>errors. gp_keyboard R = Answer errors True"
  using assms
  by (cases "gp_keyboard R") (auto simp: SecureDisplay_def x_wait_def Let_def on_error_def on_io_error_def on_alarm_def
      split: if_splits error_handler.splits io_handler.splits alarm_handler.splits bool.splits outcome.splits jump.splits)

definition session_start :: "connection \<Rightarrow> bool" where
  "session_start c \<longleftrightarrow> xc_error c = ErrorHandler \<and> xc_ioerror c = IOErrorHandler"

lemma SecureDisplay_Value:
  assumes "SecureDisplay d R c = (Value v, c')" "session_start c"
  shows "\<exists>c4. reset_done (gp_screens R) c4 \<and> held (xc_requests c4) \<and>
    (if sr_grabServer (d_server d) then c' = c4
     else c' = request Sync (request UngrabServer c4))"
proof -
  obtain errors where g: "gp_keyboard R = Answer errors True" using SecureDisplay_refused [OF assms(1)] by blast
  define c3 where "c3 = (request GrabKeyboard (request GrabServer c))\<lparr>xc_alarm := 0, xc_sigalrm := SIG_DFL\<rparr>"
  have io: "xc_ioerror c3 = IOErrorHandler" "held (xc_requests c3)"
    using assms(2) held_request [of GrabKeyboard "request GrabServer c"] held_request [of GrabServer c]
    by (simp_all add: c3_def session_start_def request_def)
  have "bindX (pseudoReset (gp_screens R) (gp_reset_sync R) c3) (\<lambda>_ c4.
      if sr_grabServer (d_server d) then (Value (), c4)
      else x_wait (gp_sync R) (request Sync (request UngrabServer c4))) = (Value v, c')"
    using assms SecureDisplay_granted [OF g, of c d] unfolding c3_def [symmetric]
    by (auto simp: session_start_def split: if_splits)
  then obtain u c4 where p: "pseudoReset (gp_screens R) (gp_reset_sync R) c3 = (Value u, c4)"
    and q: "(if sr_grabServer (d_server d) then (Value (), c4)
      else x_wait (gp_sync R) (request Sync (request UngrabServer c4))) = (Value v, c')"
    by (auto simp: bindX_Value)
  have "reset_done (gp_screens R) c4 \<and> held (xc_requests c4)" using pseudoReset_cases [OF io(1) p] io(2) by simp
  then show ?thesis using q x_wait_Value by (metis prod.inject)
qed

section \<open>Properties\<close>


text \<open>C36: code defect: the reset at the end of \<open>SecureDisplay\<close> puts Xlib's own error handler in the place of
  the session's, so that an error which ended the session with UNMANAGE_DISPLAY before ends it with status
  1, REMANAGE_DISPLAY, afterwards: the confusion the session's handlers are there to prevent.\<close>

theorem secured_session_error:
  assumes "SecureDisplay d R c = (Value (), c')" "session_start c" "True \<in> set errors"
  shows "fst (x_wait (Answer errors v) c) = ExitsWith UNMANAGE_DISPLAY \<and>
    fst (x_wait (Answer errors v) c') = ExitsWith REMANAGE_DISPLAY \<and>
    fst (x_wait (Breaks :: 'a reply) c') = ExitsWith RESERVER_DISPLAY"
proof -
  obtain c4 where c4: "reset_done (gp_screens R) c4"
      "if sr_grabServer (d_server d) then c' = c4 else c' = request Sync (request UngrabServer c4)"
    using SecureDisplay_Value [OF assms(1,2)] by blast
  have "handlers c' = (SIG_DFL, Xlib_error, IOErrorHandler)"
    using c4 by (simp add: reset_done_def split: if_splits)
  then show ?thesis
    using assms(2,3) by (simp add: x_wait_def on_error_def on_io_error_def session_start_def handlers_def)
qed

text \<open>A ping gives an answer unless the server is silent and no timeout is set, or an error event ends
  the process.  The answer is that the server is alive exactly when it replied, and then the handlers are
  as they were, and so is the alarm that was running, less the time that has passed.\<close>

theorem PingServer_answer:
  assumes "sync \<noteq> Hangs \<or> seconds (sr_pingTimeout (d_server d) * 60) \<noteq> 0"
    and "\<forall>errors v. sync = Answer errors v \<longrightarrow> True \<notin> set errors"
  shows "\<exists>alive c'. PingServer d left sync c = (Value alive, c') \<and>
    (alive \<longleftrightarrow> sync \<noteq> Hangs \<and> sync \<noteq> Breaks) \<and> xc_ioerror c' = xc_ioerror c \<and> xc_error c' = xc_error c \<and>
    (alive \<longrightarrow> xc_sigalrm c' = xc_sigalrm c \<and> xc_alarm c' = (if xc_alarm c = 0 then 0 else left)) \<and>
    (\<not> alive \<longrightarrow> xc_sigalrm c' = SIG_DFL \<and> xc_alarm c' = 0)"
  using assms
  by (cases sync) (auto simp: PingServer_def x_wait_def request_def Let_def on_error_def on_io_error_def on_alarm_def)

definition quiet_connection :: connection where
  "quiet_connection = \<lparr>xc_alarm = 0, xc_sigalrm = SIG_DFL, xc_error = ErrorHandler, xc_ioerror = IOErrorHandler,
     xc_requests = []\<rparr>"

definition good_replies :: grab_replies where
  "good_replies = \<lparr>gp_keyboard = Answer [False] True,
     gp_screens = [[Answer [] (Some [17, 18]), Answer [True] (Some [])], [Answer [] None]],
     gp_reset_sync = Answer [] (), gp_sync = Answer [] ()\<rparr>"

lemma secured_example: "\<exists>c'. SecureDisplay d good_replies quiet_connection = (Value (), c')"
  by (simp add: SecureDisplay_granted [where errors = "[False]" and g = True] good_replies_def quiet_connection_def
      bindX_def pseudoReset_def reset_run_def reset_start_def reset_finish_def x_wait_def on_error_def request_def Let_def)


lemma secured_session_error_witness:
  "\<exists>c'. SecureDisplay (new_display '':0'' None) good_replies quiet_connection = (Value (), c') \<and>
     fst (x_wait (Answer [True] ()) c') = ExitsWith REMANAGE_DISPLAY"
proof -
  obtain c' where c': "SecureDisplay (new_display '':0'' None) good_replies quiet_connection = (Value (), c')"
    using secured_example by blast
  have "session_start quiet_connection" by (simp add: session_start_def quiet_connection_def)
  from secured_session_error [OF c' this, of "[True]" "()"]
  have "fst (x_wait (Answer [True] ()) c') = ExitsWith REMANAGE_DISPLAY" by (metis list.set_intros(1))
  with c' show ?thesis by blast
qed

lemma PingServer_answer_witness:
  "\<exists>c'. PingServer (new_display '':0'' None) 7 (Answer [False] ()) (quiet_connection\<lparr>xc_alarm := 60\<rparr>) = (Value True, c') \<and>
     xc_alarm c' = 7"
  using PingServer_answer [of "Answer [False] ()" "new_display '':0'' None" 7 "quiet_connection\<lparr>xc_alarm := 60\<rparr>"]
  by (auto simp: quiet_connection_def)

end
