(* ===== verification/Signals.thy ===== *)
theory Signals
  imports Dm
begin

text \<open>
  The signals of the daemon and its main loop as a step relation: the handlers \<open>RescanNotify\<close>,
  \<open>AddRequest\<close> and \<open>ChildNotify\<close> of \<open>xdm/dm.c\<close> set flags, which the loop of \<open>main\<close>,
  \<open>WaitForSomething\<close> (\<open>xdm/xdmcp.c\<close>) and \<open>WaitForChild\<close> test and clear.  Every statement that
  reads or writes a flag, or may sleep, is a step, and signals arrive between any two steps.

  Beside the flags the state has what the outside knows: the children that have ended and are not collected,
  and the requests that have not been served yet.
\<close>

section \<open>States and steps\<close>

datatype control =
    Check_Rescan | Rescanning | Clear_Rescan
  | Check_AddOne | Adding | Clear_AddOne
  | Check_Child | Before_select | In_select | After_select
  | Block_signals | Check_flags | Before_sigsuspend | In_sigsuspend | Clear_Child | Unblock_signals | Collecting

record daemon_signals =
  ds_at :: control
  ds_ChildReady :: bool
  ds_Rescan :: bool
  ds_AddOne :: bool
  ds_blocked :: bool
  ds_pending_chld :: bool
  ds_pending_hup :: bool
  ds_sockets :: bool
  ds_zombies :: nat
  ds_hup_unserved :: bool
  ds_usr2_unserved :: bool

datatype arrival = SIGCHLD | SIGHUP | SIGUSR2 | Packet_arrives

text \<open>The handlers, with the state of the flags they change.\<close>

definition RescanNotify :: "daemon_signals \<Rightarrow> daemon_signals" where
  "RescanNotify s = s\<lparr>ds_Rescan := True\<rparr>"

definition AddRequest :: "daemon_signals \<Rightarrow> daemon_signals" where
  "AddRequest s = s\<lparr>ds_AddOne := True\<rparr>"

definition ChildNotify :: "daemon_signals \<Rightarrow> daemon_signals" where
  "ChildNotify s = s\<lparr>ds_ChildReady := True\<rparr>"

text \<open>A handler that has run ends a sleep.\<close>

definition wake :: "daemon_signals \<Rightarrow> daemon_signals" where
  "wake s = (case ds_at s of
               In_select \<Rightarrow> s\<lparr>ds_at := After_select\<rparr>
             | In_sigsuspend \<Rightarrow> s\<lparr>ds_at := Clear_Child, ds_blocked := True\<rparr>
             | _ \<Rightarrow> s)"

definition deliver :: "daemon_signals \<Rightarrow> daemon_signals" where
  "deliver s =
     (let s1 = (if ds_pending_chld s then ChildNotify s else s);
          s2 = (if ds_pending_hup s then RescanNotify s1 else s1)
      in if ds_pending_chld s \<or> ds_pending_hup s
         then wake (s2\<lparr>ds_pending_chld := False, ds_pending_hup := False\<rparr>) else s)"

definition arrive :: "arrival \<Rightarrow> daemon_signals \<Rightarrow> daemon_signals" where
  "arrive a s =
     (case a of
        SIGCHLD \<Rightarrow>
          (let s1 = s\<lparr>ds_zombies := Suc (ds_zombies s)\<rparr>
           in if ds_blocked s then s1\<lparr>ds_pending_chld := True\<rparr> else wake (ChildNotify s1))
      | SIGHUP \<Rightarrow>
          (let s1 = s\<lparr>ds_hup_unserved := True\<rparr>
           in if ds_blocked s then s1\<lparr>ds_pending_hup := True\<rparr> else wake (RescanNotify s1))
      | SIGUSR2 \<Rightarrow> wake (AddRequest (s\<lparr>ds_usr2_unserved := True\<rparr>))
      | Packet_arrives \<Rightarrow> (if ds_at s = In_select then s\<lparr>ds_at := After_select\<rparr> else s))"

text \<open>The loop of \<open>main\<close>.  A rescan and an addition serve the requests that came before they began.
  Whether sockets are open is decided elsewhere and stays as it is.\<close>

definition main_loop_step :: "daemon_signals \<Rightarrow> daemon_signals option" where
  "main_loop_step s =
     (case ds_at s of
        Check_Rescan \<Rightarrow>
          Some (if ds_Rescan s then s\<lparr>ds_at := Rescanning, ds_hup_unserved := False\<rparr> else s\<lparr>ds_at := Check_AddOne\<rparr>)
      | Rescanning \<Rightarrow> Some (s\<lparr>ds_at := Clear_Rescan\<rparr>)
      | Clear_Rescan \<Rightarrow> Some (s\<lparr>ds_at := Check_AddOne, ds_Rescan := False\<rparr>)
      | Check_AddOne \<Rightarrow>
          Some (if ds_AddOne s then s\<lparr>ds_at := Adding, ds_usr2_unserved := False\<rparr> else s\<lparr>ds_at := Check_Child\<rparr>)
      | Adding \<Rightarrow> Some (s\<lparr>ds_at := Clear_AddOne\<rparr>)
      | Clear_AddOne \<Rightarrow> Some (s\<lparr>ds_at := Check_Child, ds_AddOne := False\<rparr>)
      | _ \<Rightarrow> None)"

definition WaitForSomething_step :: "daemon_signals \<Rightarrow> daemon_signals option" where
  "WaitForSomething_step s =
     (case ds_at s of
        Check_Child \<Rightarrow> Some (s\<lparr>ds_at := (if ds_sockets s \<and> \<not> ds_ChildReady s then Before_select else Block_signals)\<rparr>)
      | Before_select \<Rightarrow> Some (s\<lparr>ds_at := In_select\<rparr>)
      | After_select \<Rightarrow> Some (s\<lparr>ds_at := (if ds_ChildReady s then Block_signals else Check_Rescan)\<rparr>)
      | _ \<Rightarrow> None)"

definition WaitForChild_step :: "daemon_signals \<Rightarrow> daemon_signals option" where
  "WaitForChild_step s =
     (case ds_at s of
        Block_signals \<Rightarrow> Some (s\<lparr>ds_at := Check_flags, ds_blocked := True\<rparr>)
      | Check_flags \<Rightarrow>
          Some (if \<not> ds_ChildReady s \<and> \<not> ds_Rescan s
                then s\<lparr>ds_at := Before_sigsuspend\<rparr> else s\<lparr>ds_at := Clear_Child\<rparr>)
      | Before_sigsuspend \<Rightarrow> Some (deliver (s\<lparr>ds_at := In_sigsuspend, ds_blocked := False\<rparr>))
      | Clear_Child \<Rightarrow> Some (s\<lparr>ds_at := Unblock_signals, ds_ChildReady := False\<rparr>)
      | Unblock_signals \<Rightarrow> Some (deliver (s\<lparr>ds_at := Collecting, ds_blocked := False\<rparr>))
      | Collecting \<Rightarrow>
          Some (case ds_zombies s of 0 \<Rightarrow> s\<lparr>ds_at := Check_Rescan\<rparr> | Suc n \<Rightarrow> s\<lparr>ds_zombies := n\<rparr>)
      | _ \<Rightarrow> None)"

text \<open>The next step of the daemon, None while it sleeps in \<open>select\<close> or \<open>sigsuspend\<close>.\<close>

definition daemon_step :: "daemon_signals \<Rightarrow> daemon_signals option" where
  "daemon_step s =
     (case main_loop_step s of
        Some t \<Rightarrow> Some t
      | None \<Rightarrow> (case WaitForSomething_step s of Some t \<Rightarrow> Some t | None \<Rightarrow> WaitForChild_step s))"

text \<open>The daemon enters its loop with no signal pending.  The handler of SIGCHLD is installed after the first
  displays have been started: \<open>early\<close> children have ended before, and their signals were ignored.\<close>

definition loop_start :: "bool \<Rightarrow> nat \<Rightarrow> daemon_signals" where
  "loop_start sockets early =
     \<lparr>ds_at = Check_Rescan, ds_ChildReady = False, ds_Rescan = False, ds_AddOne = False, ds_blocked = False,
      ds_pending_chld = False, ds_pending_hup = False, ds_sockets = sockets, ds_zombies = early,
      ds_hup_unserved = False, ds_usr2_unserved = False\<rparr>"

text \<open>\<open>admitted\<close> restricts the states in which a signal may arrive.\<close>

inductive signal_step ::
    "(arrival \<Rightarrow> daemon_signals \<Rightarrow> bool) \<Rightarrow> daemon_signals \<Rightarrow> daemon_signals \<Rightarrow> bool"
  for admitted :: "arrival \<Rightarrow> daemon_signals \<Rightarrow> bool" where
  daemon: "daemon_step s = Some s' \<Longrightarrow> signal_step admitted s s'"
| signal: "admitted a s \<Longrightarrow> signal_step admitted s (arrive a s)"

inductive reachable_signals ::
    "(arrival \<Rightarrow> daemon_signals \<Rightarrow> bool) \<Rightarrow> bool \<Rightarrow> nat \<Rightarrow> daemon_signals \<Rightarrow> bool"
  for admitted :: "arrival \<Rightarrow> daemon_signals \<Rightarrow> bool" and sockets :: bool and early :: nat where
  start: "reachable_signals admitted sockets early (loop_start sockets early)"
| step: "reachable_signals admitted sockets early s \<Longrightarrow> signal_step admitted s s' \<Longrightarrow>
    reachable_signals admitted sockets early s'"

inductive_cases signal_stepE: "signal_step admitted s s'"

definition any_time :: "arrival \<Rightarrow> daemon_signals \<Rightarrow> bool" where
  "any_time a s = True"

definition not_during_rescan :: "arrival \<Rightarrow> daemon_signals \<Rightarrow> bool" where
  "not_during_rescan a s \<longleftrightarrow> a = SIGHUP \<longrightarrow> ds_at s \<notin> {Rescanning, Clear_Rescan}"

text \<open>A run in which the daemon goes on where the schedule says None, and a signal arrives where it names
  one.\<close>

definition run_step :: "arrival option \<Rightarrow> daemon_signals \<Rightarrow> daemon_signals" where
  "run_step m s = (case m of Some a \<Rightarrow> arrive a s | None \<Rightarrow> (case daemon_step s of Some t \<Rightarrow> t | None \<Rightarrow> s))"

lemma run_signals_reachable:
  "reachable_signals any_time k early s \<Longrightarrow> reachable_signals any_time k early (fold run_step ms s)"
proof (induction ms arbitrary: s)
  case (Cons m ms)
  have "reachable_signals any_time k early (run_step m s)"
  proof (cases m)
    case None
    then show ?thesis
      using Cons.prems reachable_signals.step [OF Cons.prems signal_step.daemon]
      by (cases "daemon_step s") (simp_all add: run_step_def)
  next
    case (Some a)
    have "any_time a s" by (simp add: any_time_def)
    from reachable_signals.step [OF Cons.prems signal_step.signal [of any_time, OF this]]
    show ?thesis by (simp add: run_step_def Some)
  qed
  then show ?case using Cons.IH by simp
qed simp

section \<open>Signals in a child\<close>

text \<open>What a process does with each signal, by number.  \<open>Signal\<close> sets it and returns what it was.\<close>

datatype disposition = Default | Ignored | Stops_all | Notes_rescan | Notes_addition | Notes_child

definition Signal :: "int \<Rightarrow> disposition \<Rightarrow> (int \<Rightarrow> disposition) \<Rightarrow> disposition \<times> (int \<Rightarrow> disposition)" where
  "Signal sig handler h = (h sig, h(sig := handler))"

text \<open>The dispositions of the daemon in its loop, as \<open>main\<close> installs them; SIGTERM, SIGINT, SIGHUP, SIGUSR2
  and SIGCHLD have the numbers 15, 2, 1, 12 and 17.\<close>

definition main_signals :: "(int \<Rightarrow> disposition) \<Rightarrow> int \<Rightarrow> disposition" where
  "main_signals h =
     fold (\<lambda>(sig, d) h. snd (Signal sig d h))
       [(15, Stops_all), (2, Stops_all), (1, Notes_rescan), (12, Notes_addition), (17, Notes_child)] h"

text \<open>A child leaves the session of its parent, takes back the handlers but those of SIGINT and SIGUSR2, and closes the
  descriptors registered for it.\<close>

definition CleanUpChild :: "close_mask \<Rightarrow> (int \<Rightarrow> disposition) \<Rightarrow> (nat list \<times> close_mask) \<times> (int \<Rightarrow> disposition)" where
  "CleanUpChild m h =
     (CloseOnFork m, fold (\<lambda>sig h. snd (Signal sig Default h)) [17, 15, 13, 14, 1] h)"

text \<open>The handler of SIGTERM and SIGINT tells by the process id it has kept whether it runs in a child.\<close>

definition StopAll_caught ::
    "int \<Rightarrow> int \<Rightarrow> int \<Rightarrow> (int \<Rightarrow> disposition) \<Rightarrow> ('db, 'a) xdm_state_scheme \<Rightarrow>
     c_error + ((int \<Rightarrow> disposition) \<times> ('db, 'a) xdm_state_scheme)" where
  "StopAll_caught parent_pid pid n h w =
     (if parent_pid \<noteq> pid then Inr (snd (Signal n Default h), TerminateProcess pid SIGTERM w)
      else mapE (Pair h) (StopAll w))"

text \<open>A child that is still told to stop everything stops itself only: the displays and the sockets of its
  copy of the state stay as they are, the signals it sends go to itself, and after it has cleaned up SIGINT alone
  can bring it to the handler.\<close>

theorem child_stops_itself:
  assumes "parent_pid \<noteq> pid" "StopAll_caught parent_pid pid n h w = Inr (h', w')"
  shows "w_displays w' = w_displays w \<and> xs_sockets w' = xs_sockets w \<and> h' n = Default \<and>
    (\<exists>ev. w_trace w' = ev @ w_trace w \<and> set ev \<subseteq> {Kill pid SIGTERM, Kill pid SIGCONT}) \<and>
    {sig. snd (CleanUpChild m (main_signals (\<lambda>_. Default))) sig = Stops_all} = {2}"
proof -
  have "{sig. snd (CleanUpChild m (main_signals (\<lambda>_. Default))) sig = Stops_all} = {2}"
    by (auto simp: CleanUpChild_def main_signals_def Signal_def split: if_splits)
  moreover have "\<exists>ev. w_trace w' = ev @ w_trace w \<and> set ev \<subseteq> {Kill pid SIGTERM, Kill pid SIGCONT}"
    using assms by (intro exI [of _ "[Kill pid SIGCONT, Kill pid SIGTERM]"])
      (auto simp: StopAll_caught_def TerminateProcess_def emit_def)
  ultimately show ?thesis
    using assms by (auto simp: StopAll_caught_def TerminateProcess_def emit_def Signal_def)
qed

section \<open>What is never forgotten\<close>

definition signals_ok :: "daemon_signals \<Rightarrow> bool" where
  "signals_ok s \<longleftrightarrow>
     (ds_blocked s \<longleftrightarrow> ds_at s \<in> {Check_flags, Before_sigsuspend, Clear_Child, Unblock_signals}) \<and>
     (\<not> ds_blocked s \<longrightarrow> \<not> ds_pending_chld s \<and> \<not> ds_pending_hup s) \<and>
     (ds_at s \<in> {Before_sigsuspend, In_sigsuspend} \<longrightarrow> \<not> ds_ChildReady s \<and> \<not> ds_Rescan s) \<and>
     (ds_at s = Clear_Rescan \<or> ds_at s = Rescanning \<longrightarrow> ds_Rescan s) \<and>
     (0 < ds_zombies s \<longrightarrow> ds_ChildReady s \<or> ds_pending_chld s \<or> ds_at s \<in> {Unblock_signals, Collecting})"

lemmas step_of_defs = daemon_step_def main_loop_step_def WaitForSomething_step_def WaitForChild_step_def

lemmas signal_defs = RescanNotify_def AddRequest_def ChildNotify_def wake_def deliver_def arrive_def Let_def

lemma daemon_step_ok: "daemon_step s = Some s' \<Longrightarrow> signals_ok s \<Longrightarrow> signals_ok s'"
  by (cases "ds_at s") (auto simp: step_of_defs signals_ok_def signal_defs split: if_splits nat.splits)

lemma arrive_ok: "signals_ok s \<Longrightarrow> signals_ok (arrive a s)"
  by (cases a; cases "ds_at s") (auto simp: signals_ok_def signal_defs)

lemma reachable_ok: "reachable_signals admitted k 0 s \<Longrightarrow> signals_ok s"
proof (induction rule: reachable_signals.induct)
  case start
  then show ?case by (simp add: loop_start_def signals_ok_def)
next
  case (step s s')
  from step.hyps(2) show ?case
    by (rule signal_stepE) (use step.IH daemon_step_ok arrive_ok in auto)
qed

definition hup_ok :: "daemon_signals \<Rightarrow> bool" where
  "hup_ok s \<longleftrightarrow> (ds_hup_unserved s \<longrightarrow> (ds_Rescan s \<or> ds_pending_hup s) \<and> ds_at s \<notin> {Rescanning, Clear_Rescan})"

lemma daemon_step_hup: "daemon_step s = Some s' \<Longrightarrow> signals_ok s \<Longrightarrow> hup_ok s \<Longrightarrow> hup_ok s'"
  by (cases "ds_at s") (auto simp: step_of_defs signals_ok_def hup_ok_def signal_defs split: if_splits nat.splits)

lemma arrive_hup: "not_during_rescan a s \<Longrightarrow> hup_ok s \<Longrightarrow> hup_ok (arrive a s)"
  by (cases a; cases "ds_at s") (auto simp: hup_ok_def not_during_rescan_def signal_defs)

lemma reachable_hup: "reachable_signals not_during_rescan k 0 s \<Longrightarrow> hup_ok s"
proof (induction rule: reachable_signals.induct)
  case start
  then show ?case by (simp add: loop_start_def hup_ok_def)
next
  case (step s s')
  from step.hyps(2) show ?case
    by (rule signal_stepE) (use step.IH daemon_step_hup arrive_hup reachable_ok [OF step.hyps(1)] in auto)
qed

section \<open>Properties\<close>


text \<open>C35: code defects: the flags are tested and slept on in separate steps.  With sockets open a child
  that ends between the test and \<open>select\<close> waits until something else happens; a SIGHUP that arrives
  while a rescan runs is forgotten, since the flag is cleared after the rescan; and a SIGUSR2 that arrives
  after its flag was tested is not seen by \<open>WaitForChild\<close>, which goes to sleep.  A child that ends before
  the handler is installed is not noticed until another signal arrives.\<close>

theorem signals_are_lost:
  "(\<exists>s. reachable_signals any_time True 0 s \<and> ds_at s = In_select \<and> ds_ChildReady s \<and> 0 < ds_zombies s) \<and>
   (\<exists>s. reachable_signals any_time False 0 s \<and> ds_at s = In_sigsuspend \<and> ds_hup_unserved s) \<and>
   (\<exists>s. reachable_signals any_time False 0 s \<and> ds_at s = In_sigsuspend \<and> ds_usr2_unserved s \<and> ds_AddOne s) \<and>
   (\<exists>s. reachable_signals any_time False 1 s \<and> ds_at s = In_sigsuspend \<and> 0 < ds_zombies s)"
proof (intro conjI)
  note run = run_signals_reachable [OF reachable_signals.start]
  let ?child = "fold run_step [None, None, None, Some SIGCHLD, None] (loop_start True 0)"
  have "ds_at ?child = In_select \<and> ds_ChildReady ?child \<and> 0 < ds_zombies ?child" by code_simp
  then show "\<exists>s. reachable_signals any_time True 0 s \<and> ds_at s = In_select \<and> ds_ChildReady s \<and> 0 < ds_zombies s"
    using run by blast
  let ?hup = "fold run_step [Some SIGHUP, None, Some SIGHUP, None, None, None, None, None, None, None] (loop_start False 0)"
  have "ds_at ?hup = In_sigsuspend \<and> ds_hup_unserved ?hup" by code_simp
  then show "\<exists>s. reachable_signals any_time False 0 s \<and> ds_at s = In_sigsuspend \<and> ds_hup_unserved s"
    using run by blast
  let ?usr2 = "fold run_step [None, None, Some SIGUSR2, None, None, None, None] (loop_start False 0)"
  have "ds_at ?usr2 = In_sigsuspend \<and> ds_usr2_unserved ?usr2 \<and> ds_AddOne ?usr2" by code_simp
  then show "\<exists>s. reachable_signals any_time False 0 s \<and> ds_at s = In_sigsuspend \<and> ds_usr2_unserved s \<and> ds_AddOne s"
    using run by blast
  let ?early = "fold run_step [None, None, None, None, None, None] (loop_start False 1)"
  have "ds_at ?early = In_sigsuspend \<and> 0 < ds_zombies ?early" by code_simp
  then show "\<exists>s. reachable_signals any_time False 1 s \<and> ds_at s = In_sigsuspend \<and> 0 < ds_zombies s"
    using run by blast
qed


end
