(* ===== verification/Xdmshell.thy ===== *)
theory Xdmshell
  imports Dm
begin

text \<open>
  The program that runs the display manager from a console, \<open>xdmshell/xdmshell.c\<close>.  What it does
  to the outside is a list of events.  The answers of \<open>wait\<close> are a list of processes and statuses
  (a process of -1 when there is nothing to wait for); a list that runs out is a program that waits for ever.
\<close>

datatype shell_event =
    Opened string
  | ClosedTty int
  | BecameUser int
  | Forked int
  | Executed string "string list" int
  | Printed string

record shell_host =
  xh_tty :: int
  xh_euid :: int
  xh_setuid :: bool
  xh_runs :: "string \<Rightarrow> bool"
  xh_fork :: int
  xh_waits :: "(int \<times> wait_status) list"
  xh_error :: string

text \<open>The macro of \<open>include/dm.h\<close>.\<close>

definition waitCode :: "wait_status \<Rightarrow> int" where
  "waitCode s = (case s of WExited n \<Rightarrow> int n | _ \<Rightarrow> 0)"

primrec wait_for :: "int \<Rightarrow> (int \<times> wait_status) list \<Rightarrow> c_error + wait_status" where
  "wait_for pid [] = Inl NoReturn"
| "wait_for pid (w # ws) = (if fst w = pid then Inr (snd w) else wait_for pid ws)"

text \<open>The child runs the program as the user that \<open>uid\<close> is.\<close>

definition exec_args ::
    "shell_host \<Rightarrow> string \<Rightarrow> int \<Rightarrow> string option \<Rightarrow> string list \<Rightarrow> c_error + (int \<times> shell_event list)" where
  "exec_args H ProgramName uid filename args =
     (case filename of
        None \<Rightarrow> Inr (- 1, [])
      | Some f \<Rightarrow>
          if \<not> first_is CHR ''/'' f
          then Inr (- 1, [Printed (ProgramName @ '':  attempt to execute program with relative pathname:  '' @ f @ [CHR 0x0A])])
          else if \<not> xh_runs H f then Inr (- 1, [])
          else if xh_fork H = - 1 then Inr (- 1, [])
          else mapE (\<lambda>s. (waitCode s, [Forked (xh_fork H), Executed f args uid])) (wait_for (xh_fork H) (xh_waits H)))"

text \<open>The buffer for the name has 256 bytes.\<close>

definition main :: "shell_host \<Rightarrow> string \<Rightarrow> string list \<Rightarrow> c_error + (int \<times> shell_event list)" where
  "main H bindir argv =
     (let ProgramName = hd argv
      in if 1 < length argv then Inr (1, [Printed (''usage:  '' @ ProgramName @ [CHR 0x0D, CHR 0x0A])])
         else if xh_tty H < 3
         then Inr (1, [Opened ''/dev/tty'',
                       Printed (ProgramName @ '':  must be run directly from the console.'' @ [CHR 0x0D, CHR 0x0A])])
         else (let ev = [Opened ''/dev/tty'', ClosedTty (xh_tty H)]
               in if \<not> xh_setuid H
                  then Inr (1, ev @ [Printed (ProgramName @ '': cannot setuid '' @ xh_error H @ [CHR 0x0D, CHR 0x0A])])
                  else if 256 \<le> length (bindir @ ''/xdm'') then Inl OutOfBounds
                  else (let cmdbuf = bindir @ ''/xdm''
                        in mapE (\<lambda>(r, ev').
                             if r = - 1
                             then (1, ev @ [BecameUser (xh_euid H)] @ ev' @
                                     [Printed (ProgramName @ '':  unable to execute '' @ cmdbuf @ '' '' @ xh_error H @ [CHR 0x0D, CHR 0x0A])])
                             else (0, ev @ [BecameUser (xh_euid H)] @ ev'))
                           (exec_args H ProgramName (xh_euid H) (Some cmdbuf)
                              [cmdbuf, ''-nodaemon'', ''-udpPort'', ''0'']))))"

section \<open>Facts\<close>

lemma waitCode_nonneg: "waitCode s \<noteq> - 1"
proof -
  have "0 \<le> waitCode s" by (cases s) (simp_all add: waitCode_def)
  then show ?thesis by linarith
qed

lemma exec_args_runs:
  assumes "exec_args H n u (Some f) args = Inr (r, ev)"
  shows "if r = - 1 then \<forall>g as v. Executed g as v \<notin> set ev
    else ev = [Forked (xh_fork H), Executed f args u] \<and> first_is CHR ''/'' f \<and> xh_runs H f"
  using assms waitCode_nonneg by (auto simp: exec_args_def mapE_Inr_iff split: if_splits)

lemma wait_for_ends: "(\<exists>s. wait_for pid ws = Inr s) \<longleftrightarrow> pid \<in> fst ` set ws"
  by (induction ws) auto

section \<open>Properties\<close>

text \<open>A program that is run is \<open>xdm\<close> in its installed place, once, in the foreground and without
  its port, and by a process whose real user has become the effective one before; the exit status is 0
  exactly when the program was run, whatever became of it.\<close>

theorem xdmshell_runs_xdm:
  assumes "main H bindir argv = Inr (status, ev)"
  shows "(\<forall>f args u. Executed f args u \<in> set ev \<longrightarrow>
      f = bindir @ ''/xdm'' \<and> args = [f, ''-nodaemon'', ''-udpPort'', ''0''] \<and> first_is CHR ''/'' f \<and>
      u = xh_euid H \<and> BecameUser u \<in> set (takeWhile (\<lambda>e. e \<noteq> Executed f args u) ev) \<and>
      length argv \<le> 1 \<and> 3 \<le> xh_tty H) \<and>
    (status = 0 \<longleftrightarrow> (\<exists>f args u. Executed f args u \<in> set ev)) \<and> (status = 0 \<or> status = 1)"
proof (cases "1 < length argv \<or> xh_tty H < 3 \<or> \<not> xh_setuid H")
  case True
  then show ?thesis using assms by (auto simp: main_def Let_def split: if_splits)
next
  case False
  let ?c = "bindir @ ''/xdm''"
  let ?x = "exec_args H (hd argv) (xh_euid H) (Some ?c) [?c, ''-nodaemon'', ''-udpPort'', ''0'']"
  obtain r ev' where x: "?x = Inr (r, ev')"
    using assms False by (auto simp: main_def Let_def mapE_Inr_iff split: if_splits)
  then have m: "status = (if r = - 1 then 1 else 0)"
    and e: "\<exists>l. ev = [Opened ''/dev/tty'', ClosedTty (xh_tty H), BecameUser (xh_euid H)] @ ev' @ l \<and>
        (\<forall>f args u. Executed f args u \<notin> set l)"
    using assms False by (auto simp: main_def Let_def split: if_splits)
  show ?thesis
  proof (cases "r = - 1")
    case True
    then show ?thesis using exec_args_runs [OF x] e m by auto
  next
    case run: False
    then show ?thesis using exec_args_runs [OF x] e m False by (auto simp: not_less)
  qed
qed

definition console :: shell_host where
  "console = \<lparr>xh_tty = 3, xh_euid = 0, xh_setuid = True, xh_runs = (\<lambda>_. True), xh_fork = 42,
     xh_waits = [(- 1, WExited 0), (42, WSignaled 11)], xh_error = []\<rparr>"

lemma xdmshell_runs_xdm_witness:
  "\<exists>ev. main console ''/usr/bin'' [''xdmshell''] = Inr (0, ev) \<and>
     (\<exists>f args u. Executed f args u \<in> set ev)"
proof -
  have "\<exists>ev. main console ''/usr/bin'' [''xdmshell''] = Inr (0, ev)"
    by (simp add: main_def exec_args_def console_def first_is_def Let_def waitCode_def)
  then obtain ev where ev: "main console ''/usr/bin'' [''xdmshell''] = Inr (0, ev)" by blast
  from xdmshell_runs_xdm [OF this] show ?thesis using ev by auto
qed

end
